(* ===== verification/Prelude.thy ===== *)
theory Prelude
  imports Complex_Main "HOL-Library.Multiset" "HOL-Library.AList" "HOL-Library.List_Lexorder"
    "HOL-Library.Char_ord" "HOL-Library.Product_Lexorder" "HOL-Library.Sublist"
begin

text \<open>
  The vocabulary the components share: Python exceptions and fallible results, dictionaries
  that keep insertion order (association lists updated in place by \<open>AList.update\<close>, as a
  Python \<open>dict\<close> does), the grouping idiom \<open>d.setdefault(k, []).append(v)\<close>, sorting by a key,
  the first minimal element of a group, and generic facts on lists.
\<close>

named_theorems dict_simps "how lookups and key lists of dictionaries change"
named_theorems result_simps "unfolding of fallible computations"

section \<open>Exceptions and fallible results\<close>

text \<open>The exceptions the modelled code raises or lets through, with their message.\<close>

datatype exn =
    KeyError string
  | ValueError string
  | TypeError string
  | AttributeError string
  | FileNotFoundError string
  | RuntimeError string
  | TimeoutError string
  | RecursionError
  | OtherError string string

type_synonym 'a result = "exn + 'a"

definition rbind :: "'a result \<Rightarrow> ('a \<Rightarrow> 'b result) \<Rightarrow> 'b result" where
  "rbind r f = (case r of Inl e \<Rightarrow> Inl e | Inr x \<Rightarrow> f x)"

lemma rbind_simps [simp, result_simps]:
  "rbind (Inl e) f = Inl e"
  "rbind (Inr x) f = f x"
  by (simp_all add: rbind_def)

lemma rbind_eq_Inr_iff [result_simps]:
  "rbind r f = Inr y \<longleftrightarrow> (\<exists>x. r = Inr x \<and> f x = Inr y)"
  by (cases r) simp_all

lemma rbind_eq_Inl_iff [result_simps]:
  "rbind r f = Inl e \<longleftrightarrow> r = Inl e \<or> (\<exists>x. r = Inr x \<and> f x = Inl e)"
  by (cases r) simp_all

text \<open>\<open>[f(x) for x in xs]\<close> for a function that may raise.\<close>

fun map_result :: "('a \<Rightarrow> 'b result) \<Rightarrow> 'a list \<Rightarrow> 'b list result" where
  "map_result f [] = Inr []"
| "map_result f (x # xs) = rbind (f x) (\<lambda>y. rbind (map_result f xs) (\<lambda>ys. Inr (y # ys)))"

section \<open>Dictionaries\<close>

type_synonym ('k, 'v) dict = "('k \<times> 'v) list"

text \<open>\<open>d.get(k, default)\<close>.\<close>

definition dict_get :: "('k, 'v) dict \<Rightarrow> 'k \<Rightarrow> 'v \<Rightarrow> 'v" where
  "dict_get d k dflt = (case map_of d k of None \<Rightarrow> dflt | Some v \<Rightarrow> v)"

text \<open>\<open>{**base, **extra}\<close>, also \<open>base.update(extra)\<close>.\<close>

definition merge_fields :: "('k, 'v) dict \<Rightarrow> ('k \<times> 'v) list \<Rightarrow> ('k, 'v) dict" where
  "merge_fields base extra = foldl (\<lambda>d (k, v). AList.update k v d) base extra"

lemma map_of_merge_fields:
  "k \<notin> fst ` set extra \<Longrightarrow> map_of (merge_fields base extra) k = map_of base k"
proof (induction extra arbitrary: base)
  case (Cons kv extra)
  then show ?case by (cases kv) (simp add: merge_fields_def update_conv')
qed (simp add: merge_fields_def)

text \<open>\<open>d.setdefault(k, []).append(v)\<close>, also \<open>d[k].append(v)\<close> on a \<open>defaultdict(list)\<close>.\<close>

definition dict_append :: "'k \<Rightarrow> 'v \<Rightarrow> ('k, 'v list) dict \<Rightarrow> ('k, 'v list) dict" where
  "dict_append k v d = AList.update k (dict_get d k [] @ [v]) d"

definition group_by :: "('a \<Rightarrow> 'k) \<Rightarrow> ('a \<Rightarrow> 'v) \<Rightarrow> 'a list \<Rightarrow> ('k, 'v list) dict" where
  "group_by key val xs = foldl (\<lambda>d x. dict_append (key x) (val x) d) [] xs"

text \<open>\<open>{key(x): val(x) for x in xs}\<close>: a later binding of a key replaces the value in place.\<close>

definition dict_of :: "('a \<Rightarrow> 'k) \<Rightarrow> ('a \<Rightarrow> 'v) \<Rightarrow> 'a list \<Rightarrow> ('k, 'v) dict" where
  "dict_of key val xs = foldl (\<lambda>d x. AList.update (key x) (val x) d) [] xs"

text \<open>\<open>sorted(d.items())\<close> for distinct keys, and \<open>sorted(set(xs))\<close>.\<close>

definition sorted_items :: "('k::linorder, 'v) dict \<Rightarrow> ('k, 'v) dict" where
  "sorted_items d = sort_key fst d"

definition sorted_set :: "'k::linorder list \<Rightarrow> 'k list" where
  "sorted_set xs = sort (remdups xs)"

text \<open>\<open>min(x # xs, key = key)\<close>: the first element whose key is minimal.\<close>

definition first_min :: "('a \<Rightarrow> 'k::linorder) \<Rightarrow> 'a \<Rightarrow> 'a list \<Rightarrow> 'a" where
  "first_min key x xs = foldl (\<lambda>m y. if key y < key m then y else m) x xs"

subsection \<open>Lookups\<close>

lemma map_of_update [dict_simps]:
  "map_of (AList.update k v d) = (map_of d)(k \<mapsto> v)"
  by (rule update_conv')

lemma keys_update [dict_simps]:
  "fst ` set (AList.update k v d) = insert k (fst ` set d)"
  by (induction d) auto

lemma dict_get_update [dict_simps]:
  "dict_get (AList.update k v d) j dflt = (if j = k then v else dict_get d j dflt)"
  by (simp add: dict_get_def dict_simps)

lemma dict_get_append [dict_simps]:
  "dict_get (dict_append k v d) j [] = (if j = k then dict_get d k [] @ [v] else dict_get d j [])"
  by (simp add: dict_append_def dict_simps)

lemma keys_append [dict_simps]:
  "fst ` set (dict_append k v d) = insert k (fst ` set d)"
  by (simp add: dict_append_def dict_simps)

lemma distinct_dict_append: "distinct (map fst d) \<Longrightarrow> distinct (map fst (dict_append k v d))"
  by (simp add: dict_append_def distinct_update)

lemma dict_get_notin: "k \<notin> fst ` set d \<Longrightarrow> dict_get d k dflt = dflt"
  by (simp add: dict_get_def iffD2 [OF map_of_eq_None_iff])

lemma map_of_eq_dict_get:
  "map_of d k = (if k \<in> fst ` set d then Some (dict_get d k dflt) else None)"
  by (cases "map_of d k")
     (auto simp: dict_get_def map_of_eq_None_iff dest: map_of_SomeD intro: rev_image_eqI)

subsection \<open>Grouping\<close>

lemma group_by_Nil [simp]: "group_by key val [] = []"
  by (simp add: group_by_def)

lemma group_by_snoc: "group_by key val (xs @ [x]) = dict_append (key x) (val x) (group_by key val xs)"
  by (simp add: group_by_def)

lemma dict_get_group_by [dict_simps]:
  "dict_get (group_by key val xs) k [] = map val (filter (\<lambda>x. key x = k) xs)"
proof (induction xs rule: rev_induct)
  case Nil
  then show ?case by (simp add: dict_get_def)
next
  case (snoc x xs)
  then show ?case by (cases "k = key x") (simp_all add: group_by_snoc dict_simps)
qed

lemma keys_group_by [dict_simps]: "fst ` set (group_by key val xs) = key ` set xs"
  by (induction xs rule: rev_induct) (auto simp: group_by_snoc dict_simps)

lemma distinct_group_by: "distinct (map fst (group_by key val xs))"
  by (induction xs rule: rev_induct) (auto simp: group_by_snoc distinct_dict_append)

lemma map_of_group_by [dict_simps]:
  "map_of (group_by key val xs) k =
     (if k \<in> key ` set xs then Some (map val (filter (\<lambda>x. key x = k) xs)) else None)"
  by (simp add: map_of_eq_dict_get [where dflt = "[]"] dict_simps)

lemma in_group_by_iff:
  "(k, vs) \<in> set (group_by key val xs) \<longleftrightarrow>
     k \<in> key ` set xs \<and> vs = map val (filter (\<lambda>x. key x = k) xs)"
proof -
  have "(k, vs) \<in> set (group_by key val xs) \<longleftrightarrow> map_of (group_by key val xs) k = Some vs"
    using distinct_group_by by (metis map_of_SomeD map_of_is_SomeI)
  then show ?thesis by (auto simp: dict_simps)
qed

subsection \<open>Dictionary comprehensions\<close>

lemma dict_of_Nil [simp]: "dict_of key val [] = []"
  by (simp add: dict_of_def)

lemma dict_of_snoc: "dict_of key val (xs @ [x]) = AList.update (key x) (val x) (dict_of key val xs)"
  by (simp add: dict_of_def)

lemma keys_dict_of [dict_simps]: "fst ` set (dict_of key val xs) = key ` set xs"
  by (induction xs rule: rev_induct) (auto simp: dict_of_snoc dict_simps)

lemma distinct_dict_of: "distinct (map fst (dict_of key val xs))"
  by (induction xs rule: rev_induct) (auto simp: dict_of_snoc distinct_update)

lemma update_new_key: "k \<notin> fst ` set d \<Longrightarrow> AList.update k v d = d @ [(k, v)]"
  by (induction d) auto

lemma dict_of_distinct:
  "distinct (map key xs) \<Longrightarrow> dict_of key val xs = map (\<lambda>x. (key x, val x)) xs"
  by (induction xs rule: rev_induct) (auto simp: dict_of_snoc update_new_key image_image)

lemma map_of_dict_of_distinct:
  "distinct (map key xs) \<Longrightarrow> x \<in> set xs \<Longrightarrow> map_of (dict_of key val xs) (key x) = Some (val x)"
  by (auto simp: dict_of_distinct comp_def intro!: map_of_is_SomeI)

lemma dict_of_valueD:
  "(k, v) \<in> set (dict_of key val xs) \<Longrightarrow> \<exists>x\<in>set xs. k = key x \<and> v = val x"
proof (induction xs rule: rev_induct)
  case (snoc x xs)
  have "set (AList.update (key x) (val x) d) \<subseteq> insert (key x, val x) (set d)" for d
    by (induction d) auto
  with snoc show ?case by (auto simp: dict_of_snoc)
qed simp

subsection \<open>Sorting\<close>

lemma set_sorted_items [simp]: "set (sorted_items d) = set d"
  by (simp add: sorted_items_def)

lemma mset_sorted_items [simp]: "mset (sorted_items d) = mset d"
  by (simp add: sorted_items_def)

lemma distinct_sorted_items: "distinct (map fst (sorted_items d)) = distinct (map fst d)"
  by (metis mset_map mset_sorted_items mset_eq_imp_distinct_iff)

lemma map_of_sorted_items:
  "distinct (map fst d) \<Longrightarrow> map_of (sorted_items d) = map_of d"
  by (metis distinct_sorted_items map_of_inject_set set_sorted_items)

lemma sorted_sorted_items: "sorted (map fst (sorted_items d))"
  by (simp add: sorted_items_def)

lemma set_sorted_set [simp]: "set (sorted_set xs) = set xs"
  by (simp add: sorted_set_def)

lemma distinct_sorted_set [simp]: "distinct (sorted_set xs)"
  by (simp add: sorted_set_def)

lemma sorted_sorted_set [simp]: "sorted (sorted_set xs)"
  by (simp add: sorted_set_def)

lemma sorted_set_cong: "set xs = set ys \<Longrightarrow> sorted_set xs = sorted_set ys"
  by (rule sorted_distinct_set_unique) simp_all

lemma sort_mset_cong: "mset xs = mset ys \<Longrightarrow> sort xs = sort (ys :: 'a::linorder list)"
  by (metis properties_for_sort mset_sort sorted_sort)

subsection \<open>First minimum\<close>

lemma first_min_in: "first_min key x xs \<in> set (x # xs)"
proof -
  have "foldl (\<lambda>m y. if key y < key m then y else m) x xs \<in> insert x (set xs)" for x
    by (induction xs arbitrary: x) force+
  then show ?thesis by (simp add: first_min_def)
qed

lemma first_min_le: "y \<in> set (x # xs) \<Longrightarrow> key (first_min key x xs) \<le> key y"
proof -
  have "key (foldl (\<lambda>m y. if key y < key m then y else m) x xs) \<le> key x \<and>
      (\<forall>y\<in>set xs. key (foldl (\<lambda>m y. if key y < key m then y else m) x xs) \<le> key y)" for x
  proof (induction xs arbitrary: x)
    case (Cons z xs)
    show ?case using Cons.IH [of z] Cons.IH [of x] by (auto intro: order_trans less_imp_le)
  qed simp
  then show "y \<in> set (x # xs) \<Longrightarrow> ?thesis" by (auto simp: first_min_def)
qed

section \<open>Lists\<close>

lemma filter_partition_mset:
  fixes f :: "'a \<Rightarrow> nat"
  assumes "\<And>x. x \<in> set xs \<Longrightarrow> f x < n"
  shows "(\<Sum>i<n. mset (filter (\<lambda>x. f x = i) xs)) = mset xs"
  using assms
proof (induction xs)
  case (Cons x xs)
  have "(\<Sum>i<n. mset (filter (\<lambda>y. f y = i) (x # xs))) =
      (\<Sum>i<n. (if f x = i then {#x#} else {#}) + mset (filter (\<lambda>y. f y = i) xs))"
    by (intro sum.cong) auto
  also have "\<dots> = (\<Sum>i<n. if f x = i then {#x#} else {#}) + mset xs"
    using Cons by (simp add: sum.distrib)
  also have "(\<Sum>i<n. if f x = i then {#x#} else {#}) = {#x#}"
    using Cons.prems [of x] by (subst sum.delta') auto
  finally show ?case by simp
qed simp

lemma mset_concat_map_filter:
  "mset (concat (map (\<lambda>i. filter (\<lambda>x. f x = i) xs) [0..<n])) =
     (\<Sum>i<n. mset (filter (\<lambda>x. f x = i) xs))"
  by (induction n) (auto simp: lessThan_Suc)

lemma sum_list_le_length:
  fixes f :: "'a \<Rightarrow> real"
  assumes "\<And>x. x \<in> set xs \<Longrightarrow> f x \<le> 1"
  shows "sum_list (map f xs) \<le> real (length xs)"
  using assms by (induction xs) force+

lemma sum_list_eq_length_iff:
  fixes f :: "'a \<Rightarrow> real"
  assumes "\<And>x. x \<in> set xs \<Longrightarrow> f x \<le> 1"
  shows "sum_list (map f xs) = real (length xs) \<longleftrightarrow> (\<forall>x\<in>set xs. f x = 1)"
  using assms
proof (induction xs)
  case (Cons x xs)
  have "sum_list (map f xs) \<le> real (length xs)" using Cons.prems by (intro sum_list_le_length) simp
  moreover have "f x \<le> 1" using Cons.prems by simp
  moreover have "sum_list (map f xs) = real (length xs) \<longleftrightarrow> (\<forall>x\<in>set xs. f x = 1)"
    using Cons by simp
  ultimately show ?case by auto
qed simp

end
