(* ===== verification/PyValue.thy ===== *)
theory PyValue
  imports Prelude
begin

text \<open>
  The dynamically typed values that cases, observations and documents are made of: what
  \<open>json.loads\<close> and \<open>yaml.safe_load\<close> return. Dictionaries keep insertion order. Strings are
  lists of characters with code points up to 255. A \<open>float\<close> is a real number (finite values
  only); its text form \<open>float.__repr__\<close> is an argument \<open>fr\<close> of the functions that print.
\<close>

datatype pv =
    PNone
  | PBool bool
  | PInt int
  | PFloat real
  | PStr string
  | PList "pv list"
  | PDict "(string \<times> pv) list"

section \<open>Reading values\<close>

text \<open>\<open>bool\<close> is a subclass of \<open>int\<close>: the numeric value of all three number types.\<close>

fun num_of :: "pv \<Rightarrow> real option" where
  "num_of (PBool b) = Some (of_bool b)"
| "num_of (PInt i) = Some (of_int i)"
| "num_of (PFloat r) = Some r"
| "num_of _ = None"

fun is_dict :: "pv \<Rightarrow> bool" where
  "is_dict (PDict _) = True"
| "is_dict _ = False"

fun items_of :: "pv \<Rightarrow> (string \<times> pv) list" where
  "items_of (PDict kvs) = kvs"
| "items_of _ = []"

fun list_of :: "pv \<Rightarrow> pv list" where
  "list_of (PList xs) = xs"
| "list_of _ = []"

fun str_of :: "pv \<Rightarrow> string" where
  "str_of (PStr s) = s"
| "str_of _ = []"

text \<open>\<open>d.get(k)\<close> and \<open>d.get(k, default)\<close> on a dictionary.\<close>

definition pget :: "pv \<Rightarrow> string \<Rightarrow> pv option" where
  "pget d k = map_of (items_of d) k"

definition pget_default :: "pv \<Rightarrow> string \<Rightarrow> pv \<Rightarrow> pv" where
  "pget_default d k dflt = (case pget d k of None \<Rightarrow> dflt | Some v \<Rightarrow> v)"

text \<open>\<open>d.get(k, default)\<close> on a value that may not be a dictionary.\<close>

definition py_get :: "pv \<Rightarrow> string \<Rightarrow> pv \<Rightarrow> pv result" where
  "py_get d k dflt =
     (if is_dict d then Inr (pget_default d k dflt)
      else Inl (AttributeError ''object has no attribute get''))"

text \<open>\<open>value[key]\<close>.\<close>

fun py_item :: "pv \<Rightarrow> string \<Rightarrow> pv result" where
  "py_item (PDict kvs) k = (case map_of kvs k of None \<Rightarrow> Inl (KeyError k) | Some v \<Rightarrow> Inr v)"
| "py_item _ k = Inl (TypeError ''object is not subscriptable with a string'')"

text \<open>\<open>len(value)\<close>.\<close>

fun py_len :: "pv \<Rightarrow> nat result" where
  "py_len (PList xs) = Inr (length xs)"
| "py_len (PDict kvs) = Inr (length kvs)"
| "py_len (PStr s) = Inr (length s)"
| "py_len _ = Inl (TypeError ''object has no len()'')"

fun truthy :: "pv \<Rightarrow> bool" where
  "truthy PNone = False"
| "truthy (PBool b) = b"
| "truthy (PInt i) = (i \<noteq> 0)"
| "truthy (PFloat r) = (r \<noteq> 0)"
| "truthy (PStr s) = (s \<noteq> [])"
| "truthy (PList xs) = (xs \<noteq> [])"
| "truthy (PDict kvs) = (kvs \<noteq> [])"

section \<open>Equality\<close>

text \<open>
  Python's \<open>==\<close>: numbers of the three numeric types compare by value, lists element by
  element, dictionaries as finite maps whatever their insertion order.
\<close>

fun py_eq :: "pv \<Rightarrow> pv \<Rightarrow> bool" where
  "py_eq (PList xs) b = (case b of PList ys \<Rightarrow> list_all2 py_eq xs ys | _ \<Rightarrow> False)"
| "py_eq (PDict xs) b =
     (case b of
        PDict ys \<Rightarrow> length xs = length ys \<and>
          list_all (\<lambda>(k, v). case map_of ys k of None \<Rightarrow> False | Some w \<Rightarrow> py_eq v w) xs
      | _ \<Rightarrow> False)"
| "py_eq (PStr s) b = (b = PStr s)"
| "py_eq PNone b = (b = PNone)"
| "py_eq a b = (num_of a = num_of b)"

text \<open>A value whose dictionaries bind each key once, as every Python dictionary does.\<close>

fun wf_pv :: "pv \<Rightarrow> bool" where
  "wf_pv (PList xs) = list_all wf_pv xs"
| "wf_pv (PDict kvs) = (distinct (map fst kvs) \<and> list_all (\<lambda>(k, v). wf_pv v) kvs)"
| "wf_pv _ = True"

lemma wf_pv_items: "wf_pv (PDict kvs) \<Longrightarrow> map_of kvs k = Some v \<Longrightarrow> wf_pv v"
  by (auto dest!: map_of_SomeD simp: list_all_iff)

lemma py_eq_refl [simp]: "wf_pv v \<Longrightarrow> py_eq v v"
proof (induction v)
  case (PList xs)
  then show ?case by (auto simp: list_all_iff list_all2_same)
next
  case (PDict kvs)
  have "py_eq v v" if "(k, v) \<in> set kvs" for k v
    using PDict that by (force simp: list_all_iff)
  then show ?case using PDict.prems by (auto simp: list_all_iff)
qed simp_all

lemma py_eq_dict_iff:
  assumes "distinct (map fst xs)" and "distinct (map fst ys)"
  shows "py_eq (PDict xs) (PDict ys) \<longleftrightarrow>
    dom (map_of xs) = dom (map_of ys) \<and>
    (\<forall>k v w. map_of xs k = Some v \<longrightarrow> map_of ys k = Some w \<longrightarrow> py_eq v w)"
    (is "?L \<longleftrightarrow> ?R")
proof
  have len: "length zs = card (fst ` set zs)" if "distinct (map fst zs)" for zs :: "(string \<times> pv) list"
    using that by (metis distinct_card length_map list.set_map)
  assume ?L
  then have len_eq: "length xs = length ys"
    and val: "\<And>k v. (k, v) \<in> set xs \<Longrightarrow> \<exists>w. map_of ys k = Some w \<and> py_eq v w"
    by (auto simp: list_all_iff split: option.splits)
  have "fst ` set xs \<subseteq> fst ` set ys" by (force dest: val map_of_SomeD)
  then have "fst ` set xs = fst ` set ys"
    using len_eq len assms by (intro card_subset_eq) auto
  then have "dom (map_of xs) = dom (map_of ys)" by (simp add: dom_map_of_conv_image_fst)
  moreover have "py_eq v w" if "map_of xs k = Some v" "map_of ys k = Some w" for k v w
    using val [OF map_of_SomeD [OF that(1)]] that(2) by simp
  ultimately show ?R by blast
next
  assume R: ?R
  have dom: "fst ` set xs = fst ` set ys" using R by (simp add: dom_map_of_conv_image_fst)
  then have "length xs = length ys" using assms by (metis distinct_card length_map list.set_map)
  moreover have "case map_of ys k of None \<Rightarrow> False | Some w \<Rightarrow> py_eq v w" if "(k, v) \<in> set xs" for k v
  proof -
    have "map_of xs k = Some v" using that assms by simp
    moreover have "k \<in> fst ` set ys" using that by (simp flip: dom add: rev_image_eqI)
    then obtain w where "map_of ys k = Some w"
      by (cases "map_of ys k") (simp_all add: map_of_eq_None_iff)
    ultimately show ?thesis using R by simp
  qed
  ultimately show ?L by (auto simp: list_all_iff)
qed

lemma py_eq_number_iff: "num_of a = Some r \<Longrightarrow> py_eq a b \<longleftrightarrow> num_of b = Some r"
  by (cases a) auto

lemma num_of_py_eq: "py_eq a b \<Longrightarrow> num_of a = num_of b"
  by (cases a; cases b) auto

lemma py_eq_sym: "wf_pv a \<Longrightarrow> wf_pv b \<Longrightarrow> py_eq a b \<Longrightarrow> py_eq b a"
proof (induction a arbitrary: b)
  case (PList xs)
  then obtain ys where [simp]: "b = PList ys" by (cases b) auto
  show ?case using PList by (auto simp: list_all2_conv_all_nth list_all_iff)
next
  case (PDict xs)
  then obtain ys where b [simp]: "b = PDict ys" by (cases b) auto
  have d: "distinct (map fst xs)" "distinct (map fst ys)" using PDict.prems by auto
  have R: "dom (map_of xs) = dom (map_of ys)"
      "\<And>k v w. map_of xs k = Some v \<Longrightarrow> map_of ys k = Some w \<Longrightarrow> py_eq v w"
    using PDict.prems py_eq_dict_iff [OF d] by auto
  have "py_eq w v" if "map_of ys k = Some w" "map_of xs k = Some v" for k v w
  proof (rule PDict.IH [of "(k, v)" v])
    show "(k, v) \<in> set xs" using that map_of_SomeD by fast
    show "wf_pv v" "wf_pv w" using PDict.prems that wf_pv_items [of _ k] by auto
    show "py_eq v w" using R that by blast
  qed simp
  then show ?case using R py_eq_dict_iff [OF d(2) d(1)] by auto
qed (auto elim: py_eq.elims intro: py_eq_number_iff [THEN iffD2] simp: py_eq_number_iff [OF sym])

lemma py_eq_trans:
  "wf_pv a \<Longrightarrow> wf_pv b \<Longrightarrow> wf_pv c \<Longrightarrow> py_eq a b \<Longrightarrow> py_eq b c \<Longrightarrow> py_eq a c"
proof (induction a arbitrary: b c)
  case (PList xs)
  then obtain ys where b [simp]: "b = PList ys" by (cases b) auto
  with PList obtain zs where c [simp]: "c = PList zs" by (cases c) auto
  have "py_eq (xs ! i) (zs ! i)" if "i < length xs" for i
    using PList.IH [of "xs ! i" "ys ! i" "zs ! i"] PList.prems that
    by (auto simp: list_all2_conv_all_nth list_all_iff)
  then show ?case using PList.prems by (auto simp: list_all2_conv_all_nth)
next
  case (PDict xs)
  then obtain ys where b [simp]: "b = PDict ys" by (cases b) auto
  with PDict obtain zs where c [simp]: "c = PDict zs" by (cases c) auto
  have d: "distinct (map fst xs)" "distinct (map fst ys)" "distinct (map fst zs)"
    using PDict.prems by auto
  have R: "dom (map_of xs) = dom (map_of ys)"
      "\<And>k v w. map_of xs k = Some v \<Longrightarrow> map_of ys k = Some w \<Longrightarrow> py_eq v w"
      "dom (map_of ys) = dom (map_of zs)"
      "\<And>k v w. map_of ys k = Some v \<Longrightarrow> map_of zs k = Some w \<Longrightarrow> py_eq v w"
    using PDict.prems py_eq_dict_iff [OF d(1) d(2)] py_eq_dict_iff [OF d(2) d(3)] by auto
  have "py_eq v w" if v: "map_of xs k = Some v" and w: "map_of zs k = Some w" for k v w
  proof -
    obtain u where u: "map_of ys k = Some u" using R(1) v by (metis domD domI)
    show ?thesis
    proof (rule PDict.IH [of "(k, v)" v u w])
      show "(k, v) \<in> set xs" using v map_of_SomeD by fast
      show "wf_pv v" "wf_pv u" "wf_pv w" using PDict.prems v u w wf_pv_items [of _ k] by auto
      show "py_eq v u" "py_eq u w" using R u v w by blast+
    qed simp
  qed
  then show ?case using R py_eq_dict_iff [OF d(1) d(3)] by auto
qed (auto elim: py_eq.elims dest: num_of_py_eq)

end
