(* ===== verification/Constants.thy ===== *)
theory Constants
  imports PyValue
begin

text \<open>
  \<open>constants.py\<close>: the benchmark version, the reference id, the capability levels in order and
  the case families. Also the text of integers and \<open>str.join\<close>, which the messages use.
\<close>

definition BENCHMARK_VERSION :: string where
  "BENCHMARK_VERSION = ''0.1.0''"

definition REFERENCE_ID :: string where
  "REFERENCE_ID = ''debian-13.6-amd64-osbench-v0.1''"

definition LEVELS :: "string list" where
  "LEVELS =
     [''boot'', ''machine'', ''linux_primitives'', ''kernel_subsystems'',
      ''linux_process_environment'', ''posix_userspace'', ''linux_system'',
      ''distro'', ''package_ecosystem'', ''real_workloads'', ''full_reconstruction'']"

definition CASE_FAMILIES :: "string list" where
  "CASE_FAMILIES =
     [''primitive'', ''boundary'', ''state_transition'', ''composition'', ''concurrency'',
      ''isolation'', ''failure'', ''persistence'', ''exhaustion'', ''workload'', ''performance'']"

lemma LEVELS_facts: "distinct LEVELS" "length LEVELS = 11" "LEVELS \<noteq> []"
  by (simp_all add: LEVELS_def)

lemma CASE_FAMILIES_facts: "distinct CASE_FAMILIES" "length CASE_FAMILIES = 11"
  by (simp_all add: CASE_FAMILIES_def)

text \<open>\<open>str(n)\<close> of an integer, and \<open>sep.join(parts)\<close>.\<close>

fun str_of_nat :: "nat \<Rightarrow> string" where
  "str_of_nat n =
     (if n < 10 then [char_of (48 + n)] else str_of_nat (n div 10) @ [char_of (48 + n mod 10)])"

declare str_of_nat.simps [simp del]

definition str_of_int :: "int \<Rightarrow> string" where
  "str_of_int i = (if i < 0 then ''-'' @ str_of_nat (nat (- i)) else str_of_nat (nat i))"

fun join :: "string \<Rightarrow> string list \<Rightarrow> string" where
  "join sep [] = []"
| "join sep [x] = x"
| "join sep (x # y # xs) = x @ sep @ join sep (y # xs)"

text \<open>\<open>s.split(d)\<close> for a separator of one character.\<close>

fun split_on :: "char \<Rightarrow> string \<Rightarrow> string list" where
  "split_on d [] = [[]]"
| "split_on d (c # cs) =
     (if c = d then [] # split_on d cs
      else (case split_on d cs of p # ps \<Rightarrow> (c # p) # ps | [] \<Rightarrow> [[c]]))"

text \<open>\<open>bytes.splitlines\<close>: lines end at line feeds, carriage returns and pairs of both.\<close>

fun split_lines :: "bool \<Rightarrow> string \<Rightarrow> string \<Rightarrow> string list" where
  "split_lines after_cr acc [] = (if acc = [] then [] else [acc])"
| "split_lines after_cr acc (c # cs) =
     (if c = CHR 0x0A then (if after_cr then split_lines False [] cs else acc # split_lines False [] cs)
      else if c = CHR 0x0D then acc # split_lines True [] cs
      else split_lines False (acc @ [c]) cs)"

text \<open>\<open>not line.strip()\<close>.\<close>

definition is_blank :: "string \<Rightarrow> bool" where
  "is_blank line = list_all (\<lambda>c. c \<in> {CHR '' '', CHR 0x09, CHR 0x0A, CHR 0x0B, CHR 0x0C, CHR 0x0D, CHR 0x1C, CHR 0x1D,
     CHR 0x1E, CHR 0x1F, CHR 0x85, CHR 0xA0}) line"

text \<open>\<open>str(exc)\<close> of an exception. \<open>str(KeyError(k))\<close> is the \<open>repr\<close> of its key.\<close>

fun exn_message :: "exn \<Rightarrow> string" where
  "exn_message (KeyError m) = [CHR 0x27] @ m @ [CHR 0x27]"
| "exn_message (ValueError m) = m"
| "exn_message (TypeError m) = m"
| "exn_message (AttributeError m) = m"
| "exn_message (FileNotFoundError m) = m"
| "exn_message (RuntimeError m) = m"
| "exn_message (TimeoutError m) = m"
| "exn_message RecursionError = ''maximum recursion depth exceeded''"
| "exn_message (OtherError n m) = m"

text \<open>\<open>type(exc).__name__\<close>.\<close>

fun exn_name :: "exn \<Rightarrow> string" where
  "exn_name (KeyError m) = ''KeyError''"
| "exn_name (ValueError m) = ''ValueError''"
| "exn_name (TypeError m) = ''TypeError''"
| "exn_name (AttributeError m) = ''AttributeError''"
| "exn_name (FileNotFoundError m) = ''FileNotFoundError''"
| "exn_name (RuntimeError m) = ''RuntimeError''"
| "exn_name (TimeoutError m) = ''TimeoutError''"
| "exn_name RecursionError = ''RecursionError''"
| "exn_name (OtherError n m) = n"

lemma str_of_nat_digits: "set (str_of_nat n) \<subseteq> char_of ` {48..<58::nat}"
proof (induction n rule: str_of_nat.induct)
  case (1 n)
  then show ?case by (subst str_of_nat.simps) (auto simp: image_iff)
qed

lemma str_of_nat_nonempty [simp]: "str_of_nat n \<noteq> []"
  by (subst str_of_nat.simps) simp

end
