(* ===== verification/CycleCheck.thy ===== *)
theory CycleCheck
  imports Prelude
begin

text \<open>
  The depth-first search of \<open>_cycle_nodes\<close> in \<open>contracts.py\<close>: the sets \<open>visiting\<close> and
  \<open>visited\<close>, the explicit \<open>stack\<close>, the recursive \<open>visit\<close> with the interpreter's recursion
  limit as its first argument, and the outer loop over the sorted nodes. The lemmas show that
  the search returns a closed walk of dependencies exactly when the dependencies have a cycle,
  and that a recursion limit above the number of nodes is never exhausted.
\<close>

section \<open>The search\<close>

record dfs_state =
  visiting :: "string set"
  visited :: "string set"
  stack :: "string list"

definition dfs_init :: dfs_state where
  "dfs_init = \<lparr>visiting = {}, visited = {}, stack = []\<rparr>"

datatype dfs_result =
    Finished dfs_state
  | Found "string list"
  | Exhausted

text \<open>
  \<open>visit\<close> and its loop over the dependencies of a node. \<open>Found\<close> is a non-\<open>None\<close> return
  value, which every caller passes on; \<open>Exhausted\<close> is the \<open>RecursionError\<close> of a call that
  finds no recursion budget left.
\<close>

function visit :: "nat \<Rightarrow> (string, string list) dict \<Rightarrow> string \<Rightarrow> dfs_state \<Rightarrow> dfs_result"
  and visit_all :: "nat \<Rightarrow> (string, string list) dict \<Rightarrow> string list \<Rightarrow> dfs_state \<Rightarrow> dfs_result"
where
  "visit 0 deps node s = Exhausted"
| "visit (Suc n) deps node s =
     (if node \<in> visited s then Finished s
      else if node \<in> visiting s then Found (dropWhile (\<lambda>x. x \<noteq> node) (stack s) @ [node])
      else
        (case visit_all n deps (dict_get deps node [])
                (s\<lparr>visiting := insert node (visiting s), stack := stack s @ [node]\<rparr>) of
           Finished t \<Rightarrow>
             Finished (t\<lparr>stack := butlast (stack t), visiting := visiting t - {node},
                         visited := insert node (visited t)\<rparr>)
         | r \<Rightarrow> r))"
| "visit_all n deps [] s = Finished s"
| "visit_all n deps (d # ds) s =
     (case visit n deps d s of
        Finished t \<Rightarrow> visit_all n deps ds t
      | r \<Rightarrow> r)"
  by pat_completeness auto
termination
  by (relation "measures [\<lambda>x. case x of Inl (n, _) \<Rightarrow> n | Inr (n, _) \<Rightarrow> n,
        \<lambda>x. case x of Inl _ \<Rightarrow> 0 | Inr (_, _, ds, _) \<Rightarrow> Suc (length ds)]") auto

text \<open>\<open>for node in sorted(dependencies): ... return []\<close>.\<close>

definition search_cycle :: "nat \<Rightarrow> (string, string list) dict \<Rightarrow> string list result" where
  "search_cycle limit deps =
     (case visit_all limit deps (sorted_set (map fst deps)) dfs_init of
        Finished _ \<Rightarrow> Inr []
      | Found c \<Rightarrow> Inr c
      | Exhausted \<Rightarrow> Inl RecursionError)"

section \<open>Correctness\<close>

definition dep_rel :: "(string, string list) dict \<Rightarrow> (string \<times> string) set" where
  "dep_rel deps = {(n, d). d \<in> set (dict_get deps n [])}"

text \<open>A closed walk of at least one edge.\<close>

definition closed_walk :: "('a \<times> 'a) set \<Rightarrow> 'a list \<Rightarrow> bool" where
  "closed_walk R c \<longleftrightarrow>
     2 \<le> length c \<and> hd c = last c \<and> successively (\<lambda>x y. (x, y) \<in> R) c"

definition dfs_inv :: "(string, string list) dict \<Rightarrow> dfs_state \<Rightarrow> bool" where
  "dfs_inv deps s \<longleftrightarrow>
     distinct (stack s) \<and> visiting s = set (stack s) \<and> visited s \<inter> visiting s = {} \<and>
     dep_rel deps `` visited s \<subseteq> visited s \<and>
     (\<forall>n\<in>visited s. (n, n) \<notin> (dep_rel deps)\<^sup>+) \<and>
     successively (\<lambda>x y. (x, y) \<in> dep_rel deps) (stack s)"

text \<open>What a call may be made on, and what a call that finishes leaves unchanged.\<close>

definition edge_from_top :: "(string, string list) dict \<Rightarrow> dfs_state \<Rightarrow> string \<Rightarrow> bool" where
  "edge_from_top deps s node \<longleftrightarrow> stack s = [] \<or> (last (stack s), node) \<in> dep_rel deps"

definition dfs_frame :: "dfs_state \<Rightarrow> dfs_state \<Rightarrow> bool" where
  "dfs_frame s t \<longleftrightarrow> stack t = stack s \<and> visiting t = visiting s \<and> visited s \<subseteq> visited t"

lemma successively_trancl:
  "successively (\<lambda>x y. (x, y) \<in> R) xs \<Longrightarrow> 2 \<le> length xs \<Longrightarrow> (hd xs, last xs) \<in> R\<^sup>+"
proof (induction xs)
  case (Cons x xs)
  then obtain y ys where xs: "xs = y # ys" by (cases xs) auto
  show ?case
  proof (cases ys)
    case Nil
    with Cons.prems xs show ?thesis by auto
  next
    case (Cons z zs)
    with Cons.prems xs Cons.IH have "(x, y) \<in> R" "(y, last xs) \<in> R\<^sup>+" by auto
    then show ?thesis using xs by (auto intro: trancl_into_trancl2)
  qed
qed simp

lemma closed_walk_not_acyclic: "closed_walk R c \<Longrightarrow> \<not> acyclic R"
  unfolding closed_walk_def acyclic_def by (metis successively_trancl)

lemma closed_set_trancl:
  assumes "R `` V \<subseteq> V" and "(x, y) \<in> R\<^sup>+" and "x \<in> V"
  shows "y \<in> V"
  using assms(2,1,3) by (induction rule: trancl_induct) auto

lemma found_closed_walk:
  assumes "dfs_inv deps s" and "edge_from_top deps s node" and "node \<in> visiting s"
  shows "closed_walk (dep_rel deps) (dropWhile (\<lambda>x. x \<noteq> node) (stack s) @ [node])"
proof -
  have "node \<in> set (stack s)" using assms by (simp add: dfs_inv_def)
  then obtain xs ys where st: "stack s = xs @ node # ys" and nin: "node \<notin> set xs"
    by (meson split_list_first)
  have "dropWhile (\<lambda>x. x \<noteq> node) (stack s) = node # ys"
    unfolding st using nin by (subst dropWhile_append2) auto
  moreover have "successively (\<lambda>x y. (x, y) \<in> dep_rel deps) (node # ys)"
    using assms(1) unfolding dfs_inv_def st by (auto simp: successively_append_iff)
  moreover have "(last (node # ys), node) \<in> dep_rel deps"
    using assms(2) st by (auto simp: edge_from_top_def)
  moreover from calculation(2,3) have "successively (\<lambda>x y. (x, y) \<in> dep_rel deps) ((node # ys) @ [node])"
    by (subst successively_append_iff) simp
  ultimately show ?thesis by (simp add: closed_walk_def)
qed

lemma dfs_inv_push:
  assumes "dfs_inv deps s" and "edge_from_top deps s node"
    and "node \<notin> visited s" and "node \<notin> visiting s"
  shows "dfs_inv deps (s\<lparr>visiting := insert node (visiting s), stack := stack s @ [node]\<rparr>)"
  using assms by (auto simp: dfs_inv_def edge_from_top_def successively_append_iff)

lemma dfs_inv_pop:
  assumes inv: "dfs_inv deps t" and st: "stack t = xs @ [node]"
    and fin: "dep_rel deps `` {node} \<subseteq> visited t"
  shows "dfs_inv deps (t\<lparr>stack := butlast (stack t), visiting := visiting t - {node},
           visited := insert node (visited t)\<rparr>)"
proof -
  have fresh: "node \<notin> visited t" using inv st by (auto simp: dfs_inv_def)
  have closed: "dep_rel deps `` visited t \<subseteq> visited t" using inv by (simp add: dfs_inv_def)
  have "(node, node) \<notin> (dep_rel deps)\<^sup>+"
  proof
    assume "(node, node) \<in> (dep_rel deps)\<^sup>+"
    then obtain d where "(node, d) \<in> dep_rel deps" "d = node \<or> (d, node) \<in> (dep_rel deps)\<^sup>+"
      by (meson tranclD rtranclD)
    then show False using fin fresh closed_set_trancl [OF closed] by blast
  qed
  then show ?thesis
    using inv st fin closed by (auto simp: dfs_inv_def successively_append_iff)
qed

lemma visit_correct:
  "dfs_inv deps s \<Longrightarrow> edge_from_top deps s node \<Longrightarrow>
     (case visit n deps node s of
        Finished t \<Rightarrow> dfs_inv deps t \<and> dfs_frame s t \<and> node \<in> visited t
      | Found c \<Rightarrow> closed_walk (dep_rel deps) c
      | Exhausted \<Rightarrow> True)"
  "dfs_inv deps s \<Longrightarrow> (\<forall>d\<in>set ds. edge_from_top deps s d) \<Longrightarrow>
     (case visit_all n deps ds s of
        Finished t \<Rightarrow> dfs_inv deps t \<and> dfs_frame s t \<and> set ds \<subseteq> visited t
      | Found c \<Rightarrow> closed_walk (dep_rel deps) c
      | Exhausted \<Rightarrow> True)"
proof (induction n deps node s and n deps ds s rule: visit_visit_all.induct)
  case (2 n deps node s)
  let ?push = "s\<lparr>visiting := insert node (visiting s), stack := stack s @ [node]\<rparr>"
  show ?case
  proof (cases "node \<in> visited s \<or> node \<in> visiting s")
    case True
    then show ?thesis using "2.prems" found_closed_walk by (auto simp: dfs_frame_def)
  next
    case False
    have "edge_from_top deps ?push d" if "d \<in> set (dict_get deps node [])" for d
      using that by (simp add: edge_from_top_def dep_rel_def)
    then have all: "case visit_all n deps (dict_get deps node []) ?push of
        Finished t \<Rightarrow> dfs_inv deps t \<and> dfs_frame ?push t \<and> set (dict_get deps node []) \<subseteq> visited t
      | Found c \<Rightarrow> closed_walk (dep_rel deps) c
      | Exhausted \<Rightarrow> True"
      using "2.IH" False dfs_inv_push "2.prems" by auto
    show ?thesis
    proof (cases "visit_all n deps (dict_get deps node []) ?push")
      case (Finished t)
      with all have t: "dfs_inv deps t" "dfs_frame ?push t" "dep_rel deps `` {node} \<subseteq> visited t"
        by (auto simp: dep_rel_def)
      then have "stack t = stack s @ [node]" "visiting t = insert node (visiting s)"
        "visited s \<subseteq> visited t"
        by (auto simp: dfs_frame_def)
      then show ?thesis
        using False Finished dfs_inv_pop [OF t(1) _ t(3)] by (auto simp: dfs_frame_def)
    qed (use False all in auto)
  qed
next
  case (4 n deps d ds s)
  show ?case
  proof (cases "visit n deps d s")
    case (Finished t)
    with "4.IH"(1) "4.prems" have t: "dfs_inv deps t" "dfs_frame s t" "d \<in> visited t" by auto
    have "\<forall>d\<in>set ds. edge_from_top deps t d"
      using "4.prems"(2) t(2) by (auto simp: edge_from_top_def dfs_frame_def)
    then show ?thesis
      using "4.IH"(2) [OF Finished t(1)] Finished t
      by (auto simp: dfs_frame_def split: dfs_result.splits)
  qed (use "4.IH"(1) "4.prems" in auto)
qed (auto simp: dfs_frame_def)

text \<open>The stack holds distinct nodes with dependencies, so it is never deeper than their number.\<close>

definition stack_keys :: "(string, string list) dict \<Rightarrow> dfs_state \<Rightarrow> bool" where
  "stack_keys deps s \<longleftrightarrow> distinct (stack s) \<and> visiting s = set (stack s) \<and> set (stack s) \<subseteq> fst ` set deps"

lemma stack_keys_length: "stack_keys deps s \<Longrightarrow> length (stack s) \<le> card (fst ` set deps)"
  unfolding stack_keys_def by (metis List.finite_set card_mono distinct_card finite_imageI)

lemma visit_fuel:
  "stack_keys deps s \<Longrightarrow> card (fst ` set deps) < n + length (stack s) \<Longrightarrow>
     (case visit n deps node s of
        Finished t \<Rightarrow> stack t = stack s \<and> visiting t = visiting s | Found c \<Rightarrow> True | Exhausted \<Rightarrow> False)"
  "ds = [] \<or> stack_keys deps s \<and> card (fst ` set deps) < n + length (stack s) \<Longrightarrow>
     (case visit_all n deps ds s of
        Finished t \<Rightarrow> stack t = stack s \<and> visiting t = visiting s | Found c \<Rightarrow> True | Exhausted \<Rightarrow> False)"
proof (induction n deps node s and n deps ds s rule: visit_visit_all.induct)
  case (1 deps node s)
  then show ?case using stack_keys_length [OF "1.prems"(1)] by simp
next
  case (2 n deps node s)
  let ?push = "s\<lparr>visiting := insert node (visiting s), stack := stack s @ [node]\<rparr>"
  show ?case
  proof (cases "node \<in> visited s \<or> node \<in> visiting s")
    case False
    have "dict_get deps node [] = [] \<or>
        stack_keys deps ?push \<and> card (fst ` set deps) < n + length (stack ?push)"
    proof (cases "node \<in> fst ` set deps")
      case True
      then show ?thesis using False "2.prems" by (auto simp: stack_keys_def)
    qed (simp add: dict_get_notin)
    then have "case visit_all n deps (dict_get deps node []) ?push of
        Finished t \<Rightarrow> stack t = stack ?push \<and> visiting t = visiting ?push
      | Found c \<Rightarrow> True | Exhausted \<Rightarrow> False"
      using "2.IH" False by simp
    then show ?thesis
      using False by (auto split: dfs_result.splits)
  qed auto
next
  case (4 n deps d ds s)
  show ?case
  proof (cases "visit n deps d s")
    case (Finished t)
    with "4.IH"(1) "4.prems" have t: "stack t = stack s" "visiting t = visiting s" by auto
    with "4.prems" have "stack_keys deps t \<and> card (fst ` set deps) < n + length (stack t)"
      by (auto simp: stack_keys_def)
    with "4.IH"(2) [OF Finished] Finished t show ?thesis by (auto split: dfs_result.splits)
  qed (use "4.IH"(1) "4.prems" in auto)
qed auto

lemma dfs_init_inv: "dfs_inv deps dfs_init"
  by (simp add: dfs_inv_def dfs_init_def)

lemma cycle_in_keys: "(n, n) \<in> (dep_rel deps)\<^sup>+ \<Longrightarrow> n \<in> fst ` set deps"
  by (metis (no_types, lifting) dep_rel_def dict_get_notin empty_iff empty_set mem_Collect_eq
        case_prod_conv tranclD)

lemma search_cycle_total:
  "length deps < limit \<Longrightarrow> \<exists>c. search_cycle limit deps = Inr c"
proof -
  assume "length deps < limit"
  moreover have "card (fst ` set deps) \<le> length deps"
    by (metis card_length length_map list.set_map)
  ultimately show ?thesis
    using visit_fuel(2) [of "sorted_set (map fst deps)" deps dfs_init limit]
    by (auto simp: search_cycle_def dfs_init_def stack_keys_def split: dfs_result.splits)
qed

lemma search_cycle_Nil_iff:
  assumes "search_cycle limit deps = Inr c"
  shows "c = [] \<longleftrightarrow> acyclic (dep_rel deps)"
    and "c \<noteq> [] \<Longrightarrow> closed_walk (dep_rel deps) c"
proof -
  have post: "case visit_all limit deps (sorted_set (map fst deps)) dfs_init of
      Finished t \<Rightarrow> dfs_inv deps t \<and> dfs_frame dfs_init t \<and> set (sorted_set (map fst deps)) \<subseteq> visited t
    | Found c \<Rightarrow> closed_walk (dep_rel deps) c
    | Exhausted \<Rightarrow> True"
    by (rule visit_correct(2) [OF dfs_init_inv]) (simp add: edge_from_top_def dfs_init_def)
  show walk: "c \<noteq> [] \<Longrightarrow> closed_walk (dep_rel deps) c"
    using post assms by (auto simp: search_cycle_def split: dfs_result.splits)
  show "c = [] \<longleftrightarrow> acyclic (dep_rel deps)"
  proof
    assume "c = []"
    then obtain t where t: "visit_all limit deps (sorted_set (map fst deps)) dfs_init = Finished t"
      using post assms by (auto simp: search_cycle_def closed_walk_def split: dfs_result.splits)
    have "fst ` set deps \<subseteq> visited t" and "dfs_inv deps t" using post t by simp_all
    then have "(n, n) \<notin> (dep_rel deps)\<^sup>+" for n
      using cycle_in_keys [of n deps] unfolding dfs_inv_def by blast
    then show "acyclic (dep_rel deps)" by (simp add: acyclic_def)
  next
    assume "acyclic (dep_rel deps)"
    then show "c = []" using walk closed_walk_not_acyclic by blast
  qed
qed

end
