(* ===== verification/Contracts.thy ===== *)
theory Contracts
  imports Constants CycleCheck
begin

text \<open>
  \<open>contracts.py\<close>: Contract documents, loading, the validator and its statistics. A document is
  the value \<open>read_yaml\<close> returns, or the exception it raises; the JSON-schema validator is the
  argument \<open>iter_errors\<close> (location and message of each error). A Contract record holds the
  fields the evaluator reads, taken from a document as \<open>contract[key]\<close> or
  \<open>contract.get(key, default)\<close> take them from one the schema accepts.
\<close>

section \<open>Contracts\<close>

record equivalence =
  eq_type :: "string option"
  eq_tolerance :: "real option"

record contract =
  c_id :: string
  c_title :: string
  c_domain :: string
  c_level :: string
  c_operation :: string
  c_transport :: "string option"
  c_workloads :: "string list"
  c_prerequisites :: "string list"
  c_orthogonal_with :: "string list"
  c_normalization :: "string list"
  c_observables :: "string list"
  c_fault_injection :: "string list"
  c_equivalence :: equivalence

definition str_field :: "pv \<Rightarrow> string \<Rightarrow> string" where
  "str_field d k = str_of (pget_default d k PNone)"

definition strs_field :: "pv \<Rightarrow> string \<Rightarrow> string list" where
  "strs_field d k = map str_of (list_of (pget_default d k (PList [])))"

definition equivalence_of_doc :: "pv \<Rightarrow> equivalence" where
  "equivalence_of_doc d =
     \<lparr>eq_type = map_option str_of (pget d ''type''),
      eq_tolerance = Option.bind (pget d ''tolerance'') num_of\<rparr>"

definition contract_of_doc :: "pv \<Rightarrow> contract" where
  "contract_of_doc d =
     \<lparr>c_id = str_field d ''id'',
      c_title = str_field d ''title'',
      c_domain = str_field d ''domain'',
      c_level = str_field d ''level'',
      c_operation = str_field d ''operation'',
      c_transport = map_option str_of (pget d ''transport''),
      c_workloads = strs_field d ''workloads'',
      c_prerequisites = strs_field d ''prerequisites'',
      c_orthogonal_with = strs_field d ''orthogonal_with'',
      c_normalization = strs_field d ''normalization'',
      c_observables = strs_field d ''observables'',
      c_fault_injection = strs_field d ''fault_injection'',
      c_equivalence = equivalence_of_doc (pget_default d ''equivalence'' PNone)\<rparr>"

text \<open>\<open>{str(contract["id"]): contract for contract in items}\<close>.\<close>

definition contracts_by_id :: "contract list \<Rightarrow> (string, contract) dict" where
  "contracts_by_id items = dict_of c_id (\<lambda>c. c) items"

section \<open>Files\<close>

text \<open>
  \<open>contract_files\<close>: of all paths below the base directory (each as its parts relative to the
  base), those of \<open>*.yaml\<close> names with no part \<open>schema\<close>, sorted.
\<close>

definition contract_files :: "string list list \<Rightarrow> string list list" where
  "contract_files entries =
     sort (filter (\<lambda>parts. ''schema'' \<notin> set parts)
       (filter (\<lambda>parts. parts \<noteq> [] \<and> suffix ''.yaml'' (last parts)) entries))"

text \<open>\<open>_load_contracts_uncached\<close>: stops at the first file that fails to parse or is no mapping.\<close>

fun load_contracts :: "(string \<times> pv result) list \<Rightarrow> contract list result" where
  "load_contracts [] = Inr []"
| "load_contracts ((path, doc) # files) =
     rbind doc (\<lambda>v.
       if \<not> is_dict v then Inl (TypeError (''Contract '' @ path @ '' must be a mapping''))
       else rbind (load_contracts files) (\<lambda>cs. Inr (contract_of_doc v # cs)))"

section \<open>The validator\<close>

record issue =
  i_path :: string
  i_message :: string

record report =
  r_contracts :: "contract list"
  r_issues :: "issue list"

definition valid :: "report \<Rightarrow> bool" where
  "valid r \<longleftrightarrow> r_issues r = []"

text \<open>Elements of a schema error's path: object keys and array positions.\<close>

datatype path_item = PIdx nat | PKey string

instantiation path_item :: linorder
begin

fun less_eq_path_item :: "path_item \<Rightarrow> path_item \<Rightarrow> bool" where
  "less_eq_path_item (PIdx i) (PIdx j) = (i \<le> j)"
| "less_eq_path_item (PIdx i) (PKey k) = True"
| "less_eq_path_item (PKey k) (PIdx i) = False"
| "less_eq_path_item (PKey j) (PKey k) = (j \<le> k)"

definition less_path_item :: "path_item \<Rightarrow> path_item \<Rightarrow> bool" where
  "less_path_item a b \<longleftrightarrow> a \<le> b \<and> \<not> b \<le> a"

instance
proof
  fix x y z :: path_item
  show "x < y \<longleftrightarrow> x \<le> y \<and> \<not> y \<le> x" by (rule less_path_item_def)
  show "x \<le> x" by (cases x) simp_all
  show "x \<le> y \<Longrightarrow> y \<le> z \<Longrightarrow> x \<le> z" by (cases x; cases y; cases z) auto
  show "x \<le> y \<Longrightarrow> y \<le> x \<Longrightarrow> x = y" by (cases x; cases y) auto
  show "x \<le> y \<or> y \<le> x" by (cases x; cases y) auto
qed

end

fun path_item_str :: "path_item \<Rightarrow> string" where
  "path_item_str (PIdx i) = str_of_nat i"
| "path_item_str (PKey k) = k"

type_synonym schema_error = "path_item list \<times> string"

definition schema_issue :: "string \<Rightarrow> schema_error \<Rightarrow> issue" where
  "schema_issue path err =
     (let loc = join ''.'' (map path_item_str (fst err));
          loc = (if loc = [] then ''<root>'' else loc)
      in \<lparr>i_path = path, i_message = ''schema '' @ loc @ '': '' @ snd err\<rparr>)"

record load_state =
  ls_issues :: "issue list"
  ls_contracts :: "contract list"
  ls_identifiers :: "(string, string) dict"

definition add_issue :: "issue \<Rightarrow> load_state \<Rightarrow> load_state" where
  "add_issue i s = s\<lparr>ls_issues := ls_issues s @ [i]\<rparr>"

text \<open>The end of the loop body, for a document the schema accepts.\<close>

definition register_contract :: "string \<Rightarrow> contract \<Rightarrow> load_state \<Rightarrow> load_state" where
  "register_contract path c s =
     (let s' = (case map_of (ls_identifiers s) (c_id c) of
                  Some first \<Rightarrow>
                    add_issue \<lparr>i_path = path,
                      i_message = ''duplicate id '' @ c_id c @ ''; first declared in '' @ first\<rparr> s
                | None \<Rightarrow> s\<lparr>ls_identifiers := AList.update (c_id c) path (ls_identifiers s)\<rparr>)
      in s'\<lparr>ls_contracts := ls_contracts s' @ [c]\<rparr>)"

text \<open>The body of the loop over the Contract files.\<close>

fun load_step ::
  "(pv \<Rightarrow> schema_error list) \<Rightarrow> load_state \<Rightarrow> string \<times> pv result \<Rightarrow> load_state" where
  "load_step iter_errors s (path, Inl e) =
     add_issue \<lparr>i_path = path, i_message = ''YAML parse failure: '' @ exn_message e\<rparr> s"
| "load_step iter_errors s (path, Inr v) =
     (if \<not> is_dict v
      then add_issue \<lparr>i_path = path, i_message = ''Contract document is not a mapping''\<rparr> s
      else
        (let errs = sort_key fst (iter_errors v) in
         if errs \<noteq> [] then s\<lparr>ls_issues := ls_issues s @ map (schema_issue path) errs\<rparr>
         else register_contract path (contract_of_doc v) s))"

text \<open>The checks of one Contract against the set of known ids.\<close>

definition reference_issues :: "string set \<Rightarrow> contract \<Rightarrow> issue list" where
  "reference_issues known c =
     (let issue = (\<lambda>m. \<lparr>i_path = c_id c, i_message = m\<rparr>) in
      concat (map (\<lambda>d.
          (if d \<notin> known then [issue (''unknown prerequisite: '' @ d)] else []) @
          (if d = c_id c then [issue ''Contract cannot depend on itself''] else []))
        (c_prerequisites c)) @
      concat (map (\<lambda>d.
          (if d \<notin> known then [issue (''unknown orthogonal Contract: '' @ d)] else []) @
          (if d = c_id c then [issue ''Contract cannot be orthogonal with itself''] else []))
        (c_orthogonal_with c)) @
      (if ''none'' \<in> set (c_normalization c) \<and> 1 < length (c_normalization c)
       then [issue (''normalization '' @ [CHR 0x27] @ ''none'' @ [CHR 0x27] @ '' cannot be combined'')]
       else []))"

definition dependencies :: "contract list \<Rightarrow> (string, string list) dict" where
  "dependencies cs = dict_of c_id c_prerequisites cs"

definition cycle_nodes :: "nat \<Rightarrow> contract list \<Rightarrow> string list result" where
  "cycle_nodes limit cs = search_cycle limit (dependencies cs)"

definition validate_contracts ::
  "nat \<Rightarrow> (pv \<Rightarrow> schema_error list) \<Rightarrow> (string \<times> pv result) list \<Rightarrow> report result" where
  "validate_contracts limit iter_errors files =
     (let s = foldl (load_step iter_errors)
                \<lparr>ls_issues = [], ls_contracts = [], ls_identifiers = []\<rparr> files;
          cs = ls_contracts s;
          known = set (map c_id cs);
          issues = ls_issues s @ concat (map (reference_issues known) cs)
      in
        if issues = [] then
          rbind (cycle_nodes limit cs) (\<lambda>cycle.
            Inr \<lparr>r_contracts = cs,
                 r_issues = (if cycle = [] then []
                             else [\<lparr>i_path = ''capability_graph'',
                                    i_message = ''cycle: '' @ join '' -> '' cycle\<rparr>])\<rparr>)
        else Inr \<lparr>r_contracts = cs, r_issues = issues\<rparr>)"

section \<open>Statistics\<close>

definition bump :: "string \<Rightarrow> (string, nat) dict \<Rightarrow> (string, nat) dict" where
  "bump k d = AList.update k (dict_get d k 0 + 1) d"

definition by_level :: "contract list \<Rightarrow> (string, nat) dict" where
  "by_level cs = foldl (\<lambda>d c. bump (c_level c) d) (map (\<lambda>l. (l, 0)) LEVELS) cs"

definition by_domain :: "contract list \<Rightarrow> (string, nat) dict" where
  "by_domain cs = sorted_items (foldl (\<lambda>d c. bump (c_domain c) d) [] cs)"

definition by_transport :: "contract list \<Rightarrow> (string, nat) dict" where
  "by_transport cs =
     sorted_items (foldl (\<lambda>d c. bump (case c_transport c of None \<Rightarrow> ''none'' | Some t \<Rightarrow> t) d) [] cs)"

section \<open>What the validator accepts\<close>

text \<open>The prerequisite edges of a corpus, from a Contract to what it depends on.\<close>

definition prereq_rel :: "contract list \<Rightarrow> (string \<times> string) set" where
  "prereq_rel cs = {(c_id c, d) | c d. c \<in> set cs \<and> d \<in> set (c_prerequisites c)}"

definition references_ok :: "string set \<Rightarrow> contract \<Rightarrow> bool" where
  "references_ok known c \<longleftrightarrow>
     set (c_prerequisites c) \<subseteq> known - {c_id c} \<and>
     set (c_orthogonal_with c) \<subseteq> known - {c_id c} \<and>
     (''none'' \<in> set (c_normalization c) \<longrightarrow> length (c_normalization c) \<le> 1)"

definition consistent :: "contract list \<Rightarrow> bool" where
  "consistent cs \<longleftrightarrow>
     distinct (map c_id cs) \<and> (\<forall>c\<in>set cs. references_ok (c_id ` set cs) c) \<and> acyclic (prereq_rel cs)"

definition good_document :: "(pv \<Rightarrow> schema_error list) \<Rightarrow> string \<times> pv result \<Rightarrow> bool" where
  "good_document iter_errors file \<longleftrightarrow>
     (\<exists>v. snd file = Inr v \<and> is_dict v \<and> iter_errors v = [])"

definition corpus_of :: "(string \<times> pv result) list \<Rightarrow> contract list" where
  "corpus_of files = map (\<lambda>file. contract_of_doc (projr (snd file))) files"

definition well_formed_corpus ::
  "(pv \<Rightarrow> schema_error list) \<Rightarrow> (string \<times> pv result) list \<Rightarrow> bool" where
  "well_formed_corpus iter_errors files \<longleftrightarrow>
     (\<forall>file\<in>set files. good_document iter_errors file) \<and> consistent (corpus_of files)"

subsection \<open>Dependencies of a corpus without duplicate ids\<close>

lemma dependencies_distinct:
  "distinct (map c_id cs) \<Longrightarrow> dependencies cs = map (\<lambda>c. (c_id c, c_prerequisites c)) cs"
  by (simp add: dependencies_def dict_of_distinct)

lemma dict_get_dependencies:
  "distinct (map c_id cs) \<Longrightarrow> c \<in> set cs \<Longrightarrow> dict_get (dependencies cs) (c_id c) [] = c_prerequisites c"
  by (simp add: dict_get_def dependencies_def map_of_dict_of_distinct)

lemma dep_rel_dependencies: "distinct (map c_id cs) \<Longrightarrow> dep_rel (dependencies cs) = prereq_rel cs"
proof -
  assume d: "distinct (map c_id cs)"
  have "n \<in> c_id ` set cs" if "x \<in> set (dict_get (dependencies cs) n [])" for n x
    using that dict_get_notin [of n "dependencies cs" "[]"] by (force simp: dependencies_def dict_simps)
  then show ?thesis
    using d by (fastforce simp: dep_rel_def prereq_rel_def dict_get_dependencies)
qed

lemma length_dependencies: "length (dependencies cs) \<le> length cs"
proof -
  have "length (dependencies cs) = card (c_id ` set cs)"
    unfolding dependencies_def
    by (metis distinct_card distinct_dict_of keys_dict_of length_map list.set_map)
  also have "\<dots> \<le> length cs" by (metis card_length length_map list.set_map)
  finally show ?thesis .
qed

subsection \<open>The loading loop\<close>

definition load_all ::
  "(pv \<Rightarrow> schema_error list) \<Rightarrow> (string \<times> pv result) list \<Rightarrow> load_state" where
  "load_all iter_errors files =
     foldl (load_step iter_errors) \<lparr>ls_issues = [], ls_contracts = [], ls_identifiers = []\<rparr> files"

definition ids_agree :: "load_state \<Rightarrow> bool" where
  "ids_agree s \<longleftrightarrow> fst ` set (ls_identifiers s) = c_id ` set (ls_contracts s)"

lemma known_id_iff:
  "ids_agree s \<Longrightarrow> map_of (ls_identifiers s) k = None \<longleftrightarrow> k \<notin> c_id ` set (ls_contracts s)"
  by (simp add: ids_agree_def map_of_eq_None_iff)

lemma register_contract_contracts [simp]:
  "ls_contracts (register_contract path c s) = ls_contracts s @ [c]"
  by (simp add: register_contract_def add_issue_def Let_def split: option.split)

lemma register_contract_ids:
  assumes "ids_agree s"
  shows "ids_agree (register_contract path c s)"
proof (cases "map_of (ls_identifiers s) (c_id c)")
  case None
  with assms show ?thesis by (simp add: register_contract_def ids_agree_def dict_simps)
next
  case (Some first)
  then have "c_id c \<in> c_id ` set (ls_contracts s)" using known_id_iff [OF assms, of "c_id c"] by auto
  then have "insert (c_id c) (c_id ` set (ls_contracts s)) = c_id ` set (ls_contracts s)" by blast
  with Some assms show ?thesis
    by (simp add: register_contract_def ids_agree_def add_issue_def)
qed

lemma register_contract_issues:
  assumes "ids_agree s"
  shows "ls_issues (register_contract path c s) = [] \<longleftrightarrow>
    ls_issues s = [] \<and> c_id c \<notin> c_id ` set (ls_contracts s)"
  using known_id_iff [OF assms, of "c_id c"]
  by (cases "map_of (ls_identifiers s) (c_id c)") (simp_all add: register_contract_def add_issue_def)

lemma load_step_ids: "ids_agree s \<Longrightarrow> ids_agree (load_step ie s f)"
proof (induction ie s f rule: load_step.induct)
  case (2 ie s path v)
  then show ?case
    using register_contract_ids [OF 2, of path "contract_of_doc v"]
    by (auto simp: Let_def add_issue_def ids_agree_def simp del: register_contract_contracts)
qed (simp add: add_issue_def ids_agree_def)

lemma sort_key_Nil_iff: "sort_key f xs = [] \<longleftrightarrow> xs = []"
  by (metis length_0_conv length_sort)

lemma load_step_issues:
  assumes "ids_agree s"
  shows "ls_issues (load_step ie s f) = [] \<longleftrightarrow>
      ls_issues s = [] \<and> good_document ie f \<and>
      c_id (contract_of_doc (projr (snd f))) \<notin> c_id ` set (ls_contracts s)"
    and "ls_issues (load_step ie s f) = [] \<Longrightarrow>
      ls_contracts (load_step ie s f) = ls_contracts s @ [contract_of_doc (projr (snd f))]"
  using assms
  by (induction ie s f rule: load_step.induct)
     (simp_all add: register_contract_issues add_issue_def good_document_def Let_def sort_key_Nil_iff
        split: if_splits)

lemma load_all_snoc: "load_all ie (files @ [f]) = load_step ie (load_all ie files) f"
  by (simp add: load_all_def)

lemma load_all_ids: "ids_agree (load_all ie files)"
  by (induction files rule: rev_induct)
     (simp_all add: load_all_snoc load_step_ids, simp add: load_all_def ids_agree_def)

lemma corpus_of_snoc: "corpus_of (files @ [f]) = corpus_of files @ [contract_of_doc (projr (snd f))]"
  by (simp add: corpus_of_def)

lemma load_all_issues:
  "(ls_issues (load_all ie files) = [] \<longleftrightarrow>
      (\<forall>f\<in>set files. good_document ie f) \<and> distinct (map c_id (corpus_of files))) \<and>
   (ls_issues (load_all ie files) = [] \<longrightarrow> ls_contracts (load_all ie files) = corpus_of files)"
proof (induction files rule: rev_induct)
  case (snoc f files)
  have step: "ls_issues (load_all ie (files @ [f])) = [] \<longleftrightarrow>
      ls_issues (load_all ie files) = [] \<and> good_document ie f \<and>
      c_id (contract_of_doc (projr (snd f))) \<notin> c_id ` set (ls_contracts (load_all ie files))"
    unfolding load_all_snoc by (rule load_step_issues(1) [OF load_all_ids])
  then show ?case
    using snoc load_step_issues(2) [OF load_all_ids [of ie files], of ie f]
    by (simp add: load_all_snoc corpus_of_snoc conj_ac cong: conj_cong)
qed (simp add: load_all_def corpus_of_def)

subsection \<open>The reference checks\<close>

lemma reference_issues_Nil_iff: "reference_issues known c = [] \<longleftrightarrow> references_ok known c"
  by (auto simp: reference_issues_def references_ok_def Let_def)

lemma cycle_nodes_total:
  "length cs < limit \<Longrightarrow> \<exists>c. cycle_nodes limit cs = Inr c"
  unfolding cycle_nodes_def using length_dependencies [of cs] by (intro search_cycle_total) simp

lemma validate_unfold:
  "validate_contracts limit ie files =
     (let cs = ls_contracts (load_all ie files);
          issues = ls_issues (load_all ie files) @ concat (map (reference_issues (c_id ` set cs)) cs)
      in if issues = [] then
           rbind (cycle_nodes limit cs) (\<lambda>cycle.
             Inr \<lparr>r_contracts = cs,
                  r_issues = (if cycle = [] then []
                              else [\<lparr>i_path = ''capability_graph'',
                                     i_message = ''cycle: '' @ join '' -> '' cycle\<rparr>])\<rparr>)
         else Inr \<lparr>r_contracts = cs, r_issues = issues\<rparr>)"
  by (simp add: validate_contracts_def load_all_def Let_def)

subsection \<open>The validator decides well-formedness\<close>

lemma consistent_iff:
  "consistent cs \<longleftrightarrow> distinct (map c_id cs) \<and>
     concat (map (reference_issues (c_id ` set cs)) cs) = [] \<and> acyclic (prereq_rel cs)"
  by (auto simp: consistent_def reference_issues_Nil_iff)

lemma cycle_nodes_acyclic:
  assumes "cycle_nodes limit cs = Inr cycle" and "distinct (map c_id cs)"
  shows "cycle = [] \<longleftrightarrow> acyclic (prereq_rel cs)"
    and "cycle \<noteq> [] \<Longrightarrow> closed_walk (prereq_rel cs) cycle"
  using search_cycle_Nil_iff [of limit "dependencies cs" cycle] assms
  by (simp_all add: cycle_nodes_def dep_rel_dependencies)

lemma length_load_all: "length (ls_contracts (load_all ie files)) \<le> length files"
proof (induction files rule: rev_induct)
  case (snoc f files)
  have "length (ls_contracts (load_step ie s f)) \<le> Suc (length (ls_contracts s))" for s
    by (induction ie s f rule: load_step.induct) (simp_all add: add_issue_def Let_def)
  from this [of "load_all ie files"] snoc show ?case by (simp add: load_all_snoc)
qed (simp add: load_all_def)

lemma validate_ok:
  assumes "length files < limit"
  shows "\<exists>r. validate_contracts limit ie files = Inr r \<and>
           (valid r \<longleftrightarrow> well_formed_corpus ie files) \<and> (valid r \<longrightarrow> r_contracts r = corpus_of files)"
proof -
  let ?cs = "ls_contracts (load_all ie files)"
  obtain cycle where cyc: "cycle_nodes limit ?cs = Inr cycle"
    using cycle_nodes_total [of ?cs limit] length_load_all [of ie files] assms by auto
  let ?issues = "ls_issues (load_all ie files) @ concat (map (reference_issues (c_id ` set ?cs)) ?cs)"
  show ?thesis
  proof (cases "?issues = []")
    case True
    then have cs: "?cs = corpus_of files" and d: "distinct (map c_id (corpus_of files))"
      and good: "\<forall>f\<in>set files. good_document ie f"
      using load_all_issues [of ie files] by auto
    have refs: "concat (map (reference_issues (c_id ` set (corpus_of files))) (corpus_of files)) = []"
      using True cs by simp
    have "acyclic (prereq_rel (corpus_of files)) \<longleftrightarrow> cycle = []"
      using cycle_nodes_acyclic(1) [OF cyc] cs d by simp
    moreover have "well_formed_corpus ie files \<longleftrightarrow> acyclic (prereq_rel (corpus_of files))"
      using good d refs unfolding well_formed_corpus_def consistent_iff by blast
    ultimately show ?thesis
      using True cyc cs by (simp add: validate_unfold valid_def Let_def)
  next
    case False
    then have "\<not> well_formed_corpus ie files"
      using load_all_issues [of ie files] by (auto simp: well_formed_corpus_def consistent_iff)
    moreover have "validate_contracts limit ie files = Inr \<lparr>r_contracts = ?cs, r_issues = ?issues\<rparr>"
      using False by (auto simp: validate_unfold Let_def)
    ultimately show ?thesis using False by (auto simp: valid_def)
  qed
qed

text \<open>
  C1. Given a recursion limit above the number of Contract files, the validator returns a
  report, and the report is valid exactly when every document parses to a mapping the schema
  accepts, the ids are unique, every prerequisite and orthogonal Contract is a known id other
  than the Contract's own, \<open>none\<close> stands alone, and the prerequisites have no cycle.
\<close>

theorem validate_decides_well_formed:
  assumes "length files < limit"
  shows "\<exists>r. validate_contracts limit iter_errors files = Inr r \<and>
           (valid r \<longleftrightarrow> well_formed_corpus iter_errors files)"
  using validate_ok [OF assms] by blast

definition example_doc :: "string \<Rightarrow> string list \<Rightarrow> pv" where
  "example_doc i deps =
     PDict [(''id'', PStr i), (''level'', PStr ''boot''),
            (''prerequisites'', PList (map PStr deps))]"

definition example_files :: "(string \<times> pv result) list" where
  "example_files =
     [(''a.yaml'', Inr (example_doc ''a'' [])), (''b.yaml'', Inr (example_doc ''b'' [''a'']))]"

theorem validate_decides_well_formed_witness:
  "\<exists>r. validate_contracts 3 (\<lambda>_. []) example_files = Inr r \<and>
     (valid r \<longleftrightarrow> well_formed_corpus (\<lambda>_. []) example_files)"
  by (rule validate_decides_well_formed) (simp add: example_files_def)

lemma example_files_valid:
  "validate_contracts 3 (\<lambda>_. []) example_files =
     Inr \<lparr>r_contracts = corpus_of example_files, r_issues = []\<rparr>"
  by code_simp

end
