(* ===== verification/Graph.thy ===== *)
theory Graph
  imports Contracts
begin

text \<open>
  \<open>graph.py\<close>: the capability graph of a corpus. Adjacency lists in both directions, the
  worklist closure, the queries built on it (prerequisites, unlocked Contracts, workload
  closures, the frontier of a run), and the topological order of \<open>_topology\<close>.
\<close>

section \<open>Building the graph\<close>

record node_meta =
  n_level :: string
  n_domain :: string
  n_title :: string
  n_transport :: "string option"
  n_workloads :: "string list"

record graph =
  g_nodes :: "(string, node_meta) dict"
  g_edges :: "(string \<times> string) list"

definition node_of :: "contract \<Rightarrow> node_meta" where
  "node_of c = \<lparr>n_level = c_level c, n_domain = c_domain c, n_title = c_title c,
                n_transport = c_transport c, n_workloads = c_workloads c\<rparr>"

text \<open>The edges \<open>(from, to)\<close> before sorting: from a prerequisite to the Contract that needs it.\<close>

definition edge_list :: "contract list \<Rightarrow> (string \<times> string) list" where
  "edge_list cs = concat (map (\<lambda>c. map (\<lambda>d. (d, c_id c)) (c_prerequisites c)) cs)"

definition build_graph :: "report \<Rightarrow> graph result" where
  "build_graph r =
     (if \<not> valid r then Inl (ValueError ''invalid Contract corpus'')
      else Inr \<lparr>g_nodes = dict_of c_id node_of (r_contracts r),
                g_edges = sort (edge_list (r_contracts r))\<rparr>)"

section \<open>Adjacency and closure\<close>

definition adjacency :: "contract list \<Rightarrow> bool \<Rightarrow> (string, string list) dict" where
  "adjacency cs reverse =
     map (\<lambda>(k, vs). (k, sort vs))
       (group_by fst snd
         (concat (map (\<lambda>(i, c). map (\<lambda>d. if reverse then (i, d) else (d, i)) (c_prerequisites c))
           (contracts_by_id cs))))"

text \<open>The \<open>while queue\<close> loop of \<open>_closure\<close>: pop left, skip what was output, append the successors.\<close>

function closure_loop ::
  "(string, string list) dict \<Rightarrow> string list \<Rightarrow> string list \<Rightarrow> string list" where
  "closure_loop adj [] seen = seen"
| "closure_loop adj (v # queue) seen =
     (if v \<in> set seen then closure_loop adj queue seen
      else closure_loop adj (queue @ dict_get adj v []) (v # seen))"
  by pat_completeness auto
termination
proof (relation "measures [\<lambda>(adj, queue, seen). card (fst ` set adj - set seen),
    \<lambda>(adj, queue, seen). length queue]")
  fix adj :: "(string, string list) dict" and v :: string and queue seen :: "string list"
  assume new: "v \<notin> set seen"
  show "((adj, queue @ dict_get adj v [], v # seen), (adj, v # queue, seen)) \<in>
      measures [\<lambda>(adj, queue, seen). card (fst ` set adj - set seen),
        \<lambda>(adj, queue, seen). length queue]"
  proof (cases "v \<in> fst ` set adj")
    case True
    have "card (fst ` set adj - set (v # seen)) < card (fst ` set adj - set seen)"
      using True new by (intro psubset_card_mono) auto
    then show ?thesis by simp
  next
    case False
    then have "fst ` set adj - set (v # seen) = fst ` set adj - set seen" by auto
    then show ?thesis using False by (simp add: dict_get_notin)
  qed
qed simp_all

definition closure :: "string list \<Rightarrow> (string, string list) dict \<Rightarrow> string list" where
  "closure start adj = sort (closure_loop adj start [])"

section \<open>Queries\<close>

text \<open>\<open>prerequisites\<close> and \<open>unlocked_by\<close> raise \<open>KeyError\<close> for an unknown Contract.\<close>

definition prerequisites :: "contract list \<Rightarrow> string \<Rightarrow> bool \<Rightarrow> string list result" where
  "prerequisites cs contract_id transitive =
     (let adj = adjacency cs True in
      if contract_id \<notin> fst ` set (contracts_by_id cs) then Inl (KeyError contract_id)
      else
        (let direct = dict_get adj contract_id [] in
         Inr (if transitive then closure direct adj else direct)))"

definition unlocked_by :: "contract list \<Rightarrow> string \<Rightarrow> bool \<Rightarrow> string list result" where
  "unlocked_by cs contract_id transitive =
     (let adj = adjacency cs False in
      if contract_id \<notin> fst ` set (contracts_by_id cs) then Inl (KeyError contract_id)
      else
        (let direct = dict_get adj contract_id [] in
         Inr (if transitive then closure direct adj else direct)))"

text \<open>
  The workload document \<open>workloads.yaml\<close> maps a workload to a mapping whose \<open>contracts\<close> are its
  direct Contracts; anything else in its place is an unknown workload.
\<close>

definition workload_item :: "pv \<Rightarrow> string \<Rightarrow> string list option" where
  "workload_item doc w =
     (case pget doc w of
        Some item \<Rightarrow> if is_dict item then Some (strs_field item ''contracts'') else None
      | None \<Rightarrow> None)"

fun add_closures :: "contract list \<Rightarrow> string list \<Rightarrow> string list result" where
  "add_closures cs [] = Inr []"
| "add_closures cs (i # is) =
     rbind (prerequisites cs i True) (\<lambda>ps. rbind (add_closures cs is) (\<lambda>qs. Inr (ps @ qs)))"

definition contracts_for_workload :: "contract list \<Rightarrow> pv \<Rightarrow> string \<Rightarrow> string list result" where
  "contracts_for_workload cs ws workload =
     (case workload_item ws workload of
        None \<Rightarrow> Inl (KeyError workload)
      | Some direct \<Rightarrow> rbind (add_closures cs direct) (\<lambda>more. Inr (sorted_set (direct @ more))))"

fun workloads_listing :: "contract list \<Rightarrow> pv \<Rightarrow> string \<Rightarrow> string list \<Rightarrow> string list result" where
  "workloads_listing cs ws contract_id [] = Inr []"
| "workloads_listing cs ws contract_id (w # rest) =
     rbind (contracts_for_workload cs ws w) (\<lambda>ids.
       rbind (workloads_listing cs ws contract_id rest) (\<lambda>more.
         Inr (if contract_id \<in> set ids then w # more else more)))"

definition workloads_for :: "contract list \<Rightarrow> pv \<Rightarrow> string \<Rightarrow> string list result" where
  "workloads_for cs ws contract_id =
     (if contract_id \<notin> fst ` set (contracts_by_id cs) then Inl (KeyError contract_id)
      else rbind (workloads_listing cs ws contract_id (map fst (items_of ws))) (\<lambda>found. Inr (sort found)))"

text \<open>\<open>frontier\<close>: Contracts that have not passed and whose direct prerequisites all have.\<close>

definition passed_ids :: "pv \<Rightarrow> string list" where
  "passed_ids contract_results =
     map fst (filter (\<lambda>(i, value). is_dict value \<and> pget value ''passed'' = Some (PBool True))
       (items_of contract_results))"

definition frontier :: "contract list \<Rightarrow> pv \<Rightarrow> string list" where
  "frontier cs result =
     (let passed = set (passed_ids (pget_default result ''contracts'' (PDict []))) in
      sort (map fst (filter (\<lambda>(i, c). i \<notin> passed \<and> (\<forall>d\<in>set (c_prerequisites c). d \<in> passed))
        (contracts_by_id cs))))"

section \<open>Topological order\<close>

text \<open>The initial indegrees; an edge to an unknown node raises \<open>KeyError\<close>.\<close>

fun count_indegrees :: "(string \<times> string) list \<Rightarrow> (string, int) dict \<Rightarrow> (string, int) dict result" where
  "count_indegrees [] indegree = Inr indegree"
| "count_indegrees ((u, v) # edges) indegree =
     (case map_of indegree v of
        None \<Rightarrow> Inl (KeyError v)
      | Some n \<Rightarrow> count_indegrees edges (AList.update v (n + 1) indegree))"

text \<open>The loop over the children of a node: decrement, and enqueue what reaches zero.\<close>

fun relax :: "string list \<Rightarrow> (string, int) dict \<Rightarrow> string list \<Rightarrow> ((string, int) dict \<times> string list) result" where
  "relax [] indegree queue = Inr (indegree, queue)"
| "relax (child # children) indegree queue =
     (case map_of indegree child of
        None \<Rightarrow> Inl (KeyError child)
      | Some n \<Rightarrow>
          relax children (AList.update child (n - 1) indegree)
            (if n - 1 = 0 then queue @ [child] else queue))"

definition positive :: "(string, int) dict \<Rightarrow> nat" where
  "positive indegree = card {k. \<exists>n. map_of indegree k = Some n \<and> 0 < n}"

lemma finite_positive: "finite {k. \<exists>n. map_of d k = Some n \<and> (0::int) < n}"
  by (rule finite_subset [OF _ finite_dom_map_of [of d]]) auto

lemma positive_update:
  assumes "map_of d k = Some n"
  shows "positive (AList.update k (n - 1) d) + (if n - 1 = 0 then 1 else 0) = positive d"
proof -
  let ?P = "\<lambda>d. {j. \<exists>n. map_of d j = Some n \<and> (0::int) < n}"
  have "?P (AList.update k (n - 1) d) = (if n = 1 then ?P d - {k} else ?P d)"
    using assms by (auto simp: dict_simps)
  moreover have "n = 1 \<Longrightarrow> k \<in> ?P d" using assms by auto
  moreover have "finite (?P d)" by (rule finite_positive)
  ultimately show ?thesis
    unfolding positive_def using card_Suc_Diff1 [of "?P d" k] by (cases "n = 1") simp_all
qed

lemma relax_measure:
  "relax children indegree queue = Inr (indegree', queue') \<Longrightarrow>
     positive indegree' + length queue' = positive indegree + length queue"
proof (induction children indegree queue rule: relax.induct)
  case (2 child children indegree queue)
  then obtain n where n: "map_of indegree child = Some n" by (auto split: option.splits)
  show ?case
    using "2.IH" [OF n] "2.prems" n positive_update [OF n] by (auto split: if_splits)
qed simp

text \<open>The \<open>while queue\<close> loop. Every pass takes one node out of the queue for good.\<close>

function topo_loop ::
  "(string, string list) dict \<Rightarrow> (string, int) dict \<Rightarrow> string list \<Rightarrow> string list \<Rightarrow> string list result" where
  "topo_loop adj indegree [] order = Inr order"
| "topo_loop adj indegree (v # queue) order =
     (case relax (sort (dict_get adj v [])) indegree queue of
        Inl e \<Rightarrow> Inl e
      | Inr (indegree', queue') \<Rightarrow> topo_loop adj indegree' queue' (order @ [v]))"
  by pat_completeness auto
termination
  by (relation "measure (\<lambda>(adj, indegree, queue, order). positive indegree + length queue)")
     (auto dest!: relax_measure)

text \<open>\<open>_topology\<close>: (acyclic flag, roots, order).\<close>

definition topology :: "graph \<Rightarrow> (bool \<times> string list \<times> string list) result" where
  "topology g =
     rbind (count_indegrees (g_edges g) (map (\<lambda>(i, _). (i, 0)) (g_nodes g))) (\<lambda>indegree.
       let roots = sort (map fst (filter (\<lambda>(_, n). n = 0) indegree));
           adj = group_by fst snd (g_edges g)
       in rbind (topo_loop adj indegree roots []) (\<lambda>order.
            Inr (length order = length indegree, roots, order)))"

section \<open>Outputs\<close>

text \<open>\<open>_workload_matrix\<close>: each workload with the closure of its direct Contracts.\<close>

fun matrix_closure :: "contract list \<Rightarrow> string \<Rightarrow> string list \<Rightarrow> string list result" where
  "matrix_closure cs name [] = Inr []"
| "matrix_closure cs name (i # ids) =
     (if i \<notin> fst ` set (contracts_by_id cs)
      then Inl (KeyError (''workload '' @ name @ '' references unknown Contract '' @ i))
      else rbind (matrix_closure cs name ids) (\<lambda>more.
        Inr (closure (dict_get (adjacency cs True) i []) (adjacency cs True) @ more)))"

fun matrix_rows :: "contract list \<Rightarrow> (string \<times> pv) list \<Rightarrow> (string \<times> string list) list result" where
  "matrix_rows cs [] = Inr []"
| "matrix_rows cs ((name, item) # rest) =
     (if \<not> is_dict item then Inl (AttributeError ''object has no attribute get'')
      else
        (let direct = strs_field item ''contracts'' in
         rbind (matrix_closure cs name direct) (\<lambda>more.
           rbind (matrix_rows cs rest) (\<lambda>rows.
             Inr ((name, sorted_set (direct @ more)) # rows)))))"

definition workload_matrix :: "contract list \<Rightarrow> pv \<Rightarrow> (string \<times> string list) list result" where
  "workload_matrix cs doc = matrix_rows cs (sorted_items (items_of doc))"

text \<open>The lines of \<open>graph.dot\<close>; \<open>quoted\<close> puts a text between double quotes.\<close>

definition quoted :: "string \<Rightarrow> string" where
  "quoted s = [CHR 0x22] @ s @ [CHR 0x22]"

definition dot_lines :: "graph \<Rightarrow> string list" where
  "dot_lines g =
     [''digraph osbench {'', ''  rankdir=LR;'', ''  node [shape=box,fontname=Helvetica];''] @
     map (\<lambda>(i, meta). ''  '' @ quoted i @ '' [label='' @ quoted (i @ [CHR 0x5C] @ ''n'' @ n_level meta) @ ''];'')
       (sorted_items (g_nodes g)) @
     map (\<lambda>(u, v). ''  '' @ quoted u @ '' -> '' @ quoted v @ '';'') (g_edges g) @
     [''}'']"

record graph_outputs =
  o_graph :: graph
  o_matrix :: "(string \<times> string list) list"
  o_dot :: "string list"
  o_roots :: "string list"
  o_order_count :: nat

definition write_graph_outputs :: "report \<Rightarrow> pv \<Rightarrow> graph_outputs result" where
  "write_graph_outputs r workload_doc =
     rbind (build_graph r) (\<lambda>g.
       rbind (topology g) (\<lambda>(acyclic_flag, roots, order).
         if \<not> acyclic_flag then Inl (ValueError ''capability graph contains a cycle'')
         else rbind (workload_matrix (r_contracts r) workload_doc) (\<lambda>matrix.
           Inr \<lparr>o_graph = g, o_matrix = matrix, o_dot = dot_lines g,
                o_roots = roots, o_order_count = length order\<rparr>)))"

end
