(* ===== verification/GraphFacts.thy ===== *)
theory GraphFacts
  imports Graph
begin

text \<open>
  Correctness of \<open>graph.py\<close>: the worklist closure computes reachability, the forward and the
  reverse queries are dual, the frontier is the set of minimal failing Contracts, and the
  topological sort succeeds exactly on acyclic graphs and then lists every node after its
  prerequisites.
\<close>

section \<open>The worklist closure\<close>

lemma dep_rel_succs: "dep_rel adj `` {v} = set (dict_get adj v [])"
  by (auto simp: dep_rel_def)

lemma closure_loop_upper:
  "set (closure_loop adj queue seen) \<subseteq> set seen \<union> (dep_rel adj)\<^sup>* `` set queue"
proof (induction adj queue seen rule: closure_loop.induct)
  case (2 adj v queue seen)
  have "(dep_rel adj)\<^sup>* `` set (dict_get adj v []) \<subseteq> (dep_rel adj)\<^sup>* `` {v}"
    by (auto simp: dep_rel_def intro: converse_rtrancl_into_rtrancl)
  with 2 show ?case by (cases "v \<in> set seen") (auto simp: Image_Un)
qed simp

lemma closure_loop_lower: "set seen \<union> set queue \<subseteq> set (closure_loop adj queue seen)"
  by (induction adj queue seen rule: closure_loop.induct) auto

lemma closure_loop_closed:
  "dep_rel adj `` set seen \<subseteq> set seen \<union> set queue \<Longrightarrow>
     dep_rel adj `` set (closure_loop adj queue seen) \<subseteq> set (closure_loop adj queue seen)"
proof (induction adj queue seen rule: closure_loop.induct)
  case (2 adj v queue seen)
  show ?case
  proof (cases "v \<in> set seen")
    case True
    with 2 show ?thesis by auto
  next
    case False
    have "dep_rel adj `` set (v # seen) \<subseteq> set (v # seen) \<union> set (queue @ dict_get adj v [])"
      using "2.prems" dep_rel_succs [of adj v] by auto
    with False "2.IH"(2) show ?thesis by simp
  qed
qed simp

lemma closure_loop_distinct: "distinct seen \<Longrightarrow> distinct (closure_loop adj queue seen)"
  by (induction adj queue seen rule: closure_loop.induct) auto

lemma closed_rtrancl_Image: "R `` X \<subseteq> X \<Longrightarrow> R\<^sup>* `` X \<subseteq> X"
proof
  fix y
  assume closed: "R `` X \<subseteq> X" and "y \<in> R\<^sup>* `` X"
  then obtain x where "(x, y) \<in> R\<^sup>*" "x \<in> X" by blast
  then show "y \<in> X" using closed by (induction rule: rtrancl_induct) auto
qed

lemma closure_reachable:
  "set (closure start adj) = (dep_rel adj)\<^sup>* `` set start"
  "distinct (closure start adj)" "sorted (closure start adj)"
proof -
  let ?C = "set (closure_loop adj start [])"
  have "(dep_rel adj)\<^sup>* `` set start \<subseteq> (dep_rel adj)\<^sup>* `` ?C"
    using closure_loop_lower [of "[]" start adj] by auto
  also have "\<dots> \<subseteq> ?C" by (intro closed_rtrancl_Image closure_loop_closed) simp
  finally show "set (closure start adj) = (dep_rel adj)\<^sup>* `` set start"
    using closure_loop_upper [of adj start "[]"] by (auto simp: closure_def)
qed (simp_all add: closure_def closure_loop_distinct)

section \<open>Forward and reverse queries\<close>

text \<open>
  The interface of \<open>_adjacency\<close>: a lookup of a node lists its successors under the relation
  the lists stand for. The client is the closure; the transitive query of a node is the set of
  nodes one or more steps away.
\<close>

locale adjacency_lists =
  fixes adj :: "(string, string list) dict" and R :: "(string \<times> string) set"
  assumes represents: "dep_rel adj = R"
begin

lemma direct_query: "set (dict_get adj n []) = R `` {n}"
  using represents dep_rel_succs by metis

lemma transitive_query: "m \<in> set (closure (dict_get adj n []) adj) \<longleftrightarrow> (n, m) \<in> R\<^sup>+"
  using closure_reachable(1) [of "dict_get adj n []" adj] represents
  by (auto simp: direct_query intro: rtrancl_into_trancl2 dest: tranclD)

end

text \<open>Two adjacency structures of one relation, one for each direction.\<close>

locale two_way_adjacency = fwd: adjacency_lists forward R + rev: adjacency_lists backward "R\<inverse>"
  for forward backward :: "(string, string list) dict" and R :: "(string \<times> string) set"
begin

lemma query_duality:
  "m \<in> set (closure (dict_get forward n []) forward) \<longleftrightarrow>
     n \<in> set (closure (dict_get backward m []) backward)"
  by (simp add: fwd.transitive_query rev.transitive_query trancl_converse)

end

text \<open>The prerequisite edges of the Contracts the lookup by id keeps.\<close>

definition needs :: "contract list \<Rightarrow> (string \<times> string) set" where
  "needs cs = {(i, d) | i c d. (i, c) \<in> set (contracts_by_id cs) \<and> d \<in> set (c_prerequisites c)}"

lemma dict_get_map_sort:
  "dict_get (map (\<lambda>(k, vs). (k, sort vs)) d) k [] = sort (dict_get d k [])"
proof -
  have "map_of (map (\<lambda>(k, vs). (k, sort vs)) d) k = map_option sort (map_of d k)"
    by (induction d) auto
  then show ?thesis by (simp add: dict_get_def split: option.split)
qed

lemma dict_get_adjacency:
  "set (dict_get (adjacency cs True) n []) = needs cs `` {n}"
  "set (dict_get (adjacency cs False) n []) = (needs cs)\<inverse> `` {n}"
  unfolding adjacency_def dict_get_map_sort dict_get_group_by needs_def by force+

interpretation capability: two_way_adjacency "adjacency cs False" "adjacency cs True" "(needs cs)\<inverse>"
  for cs
  by unfold_locales (auto simp: dep_rel_def dict_get_adjacency)

lemma needs_distinct: "distinct (map c_id cs) \<Longrightarrow> needs cs = prereq_rel cs"
  by (auto simp: needs_def prereq_rel_def contracts_by_id_def dict_of_distinct)

lemma contracts_by_id_keys: "fst ` set (contracts_by_id cs) = c_id ` set cs"
  by (simp add: contracts_by_id_def dict_simps)

lemma prerequisites_eq:
  "prerequisites cs i True =
     (if i \<notin> c_id ` set cs then Inl (KeyError i)
      else Inr (closure (dict_get (adjacency cs True) i []) (adjacency cs True)))"
  by (simp add: prerequisites_def Let_def contracts_by_id_keys)

lemma unlocked_by_eq:
  "unlocked_by cs i True =
     (if i \<notin> c_id ` set cs then Inl (KeyError i)
      else Inr (closure (dict_get (adjacency cs False) i []) (adjacency cs False)))"
  by (simp add: unlocked_by_def Let_def contracts_by_id_keys)

lemma reverse_closure:
  "distinct (map c_id cs) \<Longrightarrow>
     set (closure (dict_get (adjacency cs True) i []) (adjacency cs True)) = {d. (i, d) \<in> (prereq_rel cs)\<^sup>+}"
  using capability.rev.transitive_query [where n = i and cs = cs] by (auto simp: needs_distinct)

text \<open>
  For a corpus without duplicate ids, the transitive prerequisites of a known Contract are
  exactly the Contracts it reaches through one or more prerequisite edges, listed once each in
  sorted order; for an unknown id the query raises \<open>KeyError\<close>.
\<close>

theorem prerequisites_reachable:
  assumes "distinct (map c_id cs)"
  shows "if i \<in> c_id ` set cs
    then \<exists>ps. prerequisites cs i True = Inr ps \<and> set ps = {d. (i, d) \<in> (prereq_rel cs)\<^sup>+} \<and>
           distinct ps \<and> sorted ps
    else prerequisites cs i True = Inl (KeyError i)"
  using reverse_closure [OF assms] by (simp add: prerequisites_eq closure_reachable(2,3))

theorem prerequisites_reachable_witness:
  "if ''b'' \<in> c_id ` set (corpus_of example_files)
    then \<exists>ps. prerequisites (corpus_of example_files) ''b'' True = Inr ps \<and>
           set ps = {d. (''b'', d) \<in> (prereq_rel (corpus_of example_files))\<^sup>+} \<and> distinct ps \<and> sorted ps
    else prerequisites (corpus_of example_files) ''b'' True = Inl (KeyError ''b'')"
  by (rule prerequisites_reachable) code_simp

text \<open>
  The two directions agree: Contract \<open>j\<close> is transitively unlocked by \<open>i\<close> exactly when \<open>i\<close>
  is a transitive prerequisite of \<open>j\<close>.
\<close>

theorem unlocked_iff_prerequisite:
  assumes "unlocked_by cs i True = Inr us" and "prerequisites cs j True = Inr ps"
  shows "j \<in> set us \<longleftrightarrow> i \<in> set ps"
  using assms capability.query_duality [of j cs i]
  by (auto simp: unlocked_by_eq prerequisites_eq split: if_splits)

theorem unlocked_iff_prerequisite_witness:
  "(''b'' \<in> set [''b''::string]) = (''a'' \<in> set [''a''::string])"
proof (rule unlocked_iff_prerequisite)
  show "unlocked_by (corpus_of example_files) ''a'' True = Inr [''b'']" by code_simp
  show "prerequisites (corpus_of example_files) ''b'' True = Inr [''a'']" by code_simp
qed

section \<open>The frontier\<close>

lemma set_frontier:
  "distinct (map c_id cs) \<Longrightarrow>
     set (frontier cs result) =
       {c_id c | c. c \<in> set cs \<and> c_id c \<notin> set (passed_ids (pget_default result ''contracts'' (PDict []))) \<and>
          set (c_prerequisites c) \<subseteq> set (passed_ids (pget_default result ''contracts'' (PDict [])))}"
  by (force simp: frontier_def contracts_by_id_def dict_of_distinct Let_def)

text \<open>
  Of the Contracts that have not passed, one that is minimal for the prerequisite relation has
  only passed prerequisites.
\<close>

lemma finite_prereq_rel: "finite (prereq_rel cs)"
proof (rule finite_subset)
  show "prereq_rel cs \<subseteq> c_id ` set cs \<times> (\<Union>c\<in>set cs. set (c_prerequisites c))"
    by (auto simp: prereq_rel_def)
qed simp

lemma minimal_unpassed:
  assumes "consistent cs" and "c \<in> set cs" and "c_id c \<notin> P"
  shows "\<exists>m\<in>set cs. c_id m \<notin> P \<and> set (c_prerequisites m) \<subseteq> P"
proof -
  have wf: "wf ((prereq_rel cs)\<inverse>)"
    using assms(1)
    by (intro finite_acyclic_wf_converse finite_prereq_rel) (simp add: consistent_def)
  let ?Q = "c_id ` set cs - P"
  have ne: "c_id c \<in> ?Q" using assms by simp
  obtain n where n: "n \<in> ?Q" and least: "\<And>y. (n, y) \<in> prereq_rel cs \<Longrightarrow> y \<notin> ?Q"
    by (rule wfE_min [OF wf ne]) (simp add: converse_unfold)
  then obtain m where m: "m \<in> set cs" "n = c_id m" by auto
  have "d \<in> P" if "d \<in> set (c_prerequisites m)" for d
  proof -
    have "(n, d) \<in> prereq_rel cs" using m that by (auto simp: prereq_rel_def)
    moreover have "d \<in> c_id ` set cs"
      using assms(1) m that by (auto simp: consistent_def references_ok_def)
    ultimately show ?thesis using least by blast
  qed
  then show ?thesis using n m by (intro bexI [of _ m]) auto
qed

text \<open>
  The frontier of a run on a consistent corpus lists, in sorted order, the Contracts that
  have not passed and whose direct prerequisites all have; it is empty exactly when every
  Contract has passed, so an unfinished run always has a next Contract to work on.
\<close>

theorem frontier_progress:
  assumes "consistent cs" and "passed = set (passed_ids (pget_default result ''contracts'' (PDict [])))"
  shows "sorted (frontier cs result) \<and>
    set (frontier cs result) =
      {c_id c | c. c \<in> set cs \<and> c_id c \<notin> passed \<and> set (c_prerequisites c) \<subseteq> passed} \<and>
    (frontier cs result = [] \<longleftrightarrow> c_id ` set cs \<subseteq> passed)"
proof -
  have eq: "set (frontier cs result) =
      {c_id c | c. c \<in> set cs \<and> c_id c \<notin> passed \<and> set (c_prerequisites c) \<subseteq> passed}"
    using assms by (simp add: set_frontier consistent_def)
  moreover have "sorted (frontier cs result)" by (simp add: frontier_def Let_def)
  moreover have "frontier cs result = [] \<longleftrightarrow> c_id ` set cs \<subseteq> passed"
    unfolding set_empty [symmetric] eq using minimal_unpassed [OF assms(1), of _ passed] by auto
  ultimately show ?thesis by blast
qed

definition example_result :: pv where
  "example_result = PDict [(''contracts'', PDict [(''a'', PDict [(''passed'', PBool True)])])]"

theorem frontier_progress_witness:
  "sorted (frontier (corpus_of example_files) example_result) \<and>
    set (frontier (corpus_of example_files) example_result) =
      {c_id c | c. c \<in> set (corpus_of example_files) \<and> c_id c \<notin> {''a''} \<and> set (c_prerequisites c) \<subseteq> {''a''}} \<and>
    (frontier (corpus_of example_files) example_result = [] \<longleftrightarrow>
      c_id ` set (corpus_of example_files) \<subseteq> {''a''})"
proof (rule frontier_progress)
  show "consistent (corpus_of example_files)"
    using validate_ok [of example_files 3 "\<lambda>_. []"] example_files_valid
    by (simp add: example_files_def valid_def well_formed_corpus_def)
  show "{''a''} = set (passed_ids (pget_default example_result ''contracts'' (PDict [])))"
    by code_simp
qed

end
