(* ===== verification/TopologyFacts.thy ===== *)
theory TopologyFacts
  imports GraphFacts
begin

text \<open>
  Kahn's algorithm as \<open>_topology\<close> runs it: the invariant between the indegree dictionary, the
  queue and the order, the exact meaning of the acyclic flag, and the order's correctness. The
  last part composes the validator, \<open>build_graph\<close> and \<open>_topology\<close>.
\<close>

section \<open>Counting edges\<close>

text \<open>Edges into \<open>v\<close> from nodes outside \<open>done_nodes\<close>, and the initial indegrees.\<close>

definition open_edges :: "(string \<times> string) list \<Rightarrow> string set \<Rightarrow> string \<Rightarrow> nat" where
  "open_edges edges done_nodes v =
     length (filter (\<lambda>e. snd e = v \<and> fst e \<notin> done_nodes) edges)"

lemma open_edges_step:
  "v \<notin> D \<Longrightarrow> open_edges edges D x =
     open_edges edges (insert v D) x + count_list (map snd (filter (\<lambda>e. fst e = v) edges)) x"
  by (induction edges) (auto simp: open_edges_def)

lemma open_edges_0_iff: "open_edges edges D v = 0 \<longleftrightarrow> (\<forall>u. (u, v) \<in> set edges \<longrightarrow> u \<in> D)"
  by (auto simp: open_edges_def filter_empty_conv)

lemma count_indegrees_ok:
  "snd ` set edges \<subseteq> fst ` set d \<Longrightarrow>
     \<exists>d'. count_indegrees edges d = Inr d' \<and> map fst d' = map fst d \<and>
       (\<forall>v. map_of d' v = map_option (\<lambda>n. n + int (open_edges edges {} v)) (map_of d v))"
proof (induction edges d rule: count_indegrees.induct)
  case (1 d)
  then show ?case by (auto simp: open_edges_def option.map_ident)
next
  case (2 u v edges d)
  then obtain n where n: "map_of d v = Some n"
    by (cases "map_of d v") (auto simp: map_of_eq_None_iff)
  have keys: "map fst (AList.update v (n + 1) d) = map fst d"
    using n by (simp add: update_keys) (force dest: map_of_SomeD)
  have "snd ` set edges \<subseteq> fst ` set (AList.update v (n + 1) d)"
    using "2.prems" by (simp add: dict_simps) blast
  from "2.IH" [OF n this] obtain d' where d': "count_indegrees edges (AList.update v (n + 1) d) = Inr d'"
      "map fst d' = map fst d"
      "\<And>x. map_of d' x = map_option (\<lambda>m. m + int (open_edges edges {} x)) (map_of (AList.update v (n + 1) d) x)"
    using keys by auto
  have "map_of d' x = map_option (\<lambda>m. m + int (open_edges ((u, v) # edges) {} x)) (map_of d x)" for x
    using n by (simp add: d'(3) dict_simps open_edges_def)
  then show ?case using n d' by simp
qed

section \<open>The inner loop\<close>

text \<open>
  \<open>level_ok nodes c Q d\<close>: the dictionary holds \<open>c v\<close> for every node, and the nodes of \<open>Q\<close>
  are those whose count is zero.
\<close>

definition level_ok :: "string set \<Rightarrow> (string \<Rightarrow> nat) \<Rightarrow> string set \<Rightarrow> (string, int) dict \<Rightarrow> bool" where
  "level_ok nodes c Q d \<longleftrightarrow>
     (\<forall>v\<in>nodes. map_of d v = Some (int (c v)) \<and> (v \<in> Q \<longleftrightarrow> c v = 0)) \<and> Q \<subseteq> nodes"

lemma relax_ok:
  "level_ok nodes (\<lambda>v. c v + count_list children v) (set order \<union> set queue) d \<Longrightarrow>
   set children \<subseteq> nodes \<Longrightarrow> distinct (order @ queue) \<Longrightarrow>
     \<exists>d' queue'. relax children d queue = Inr (d', queue') \<and>
       level_ok nodes c (set order \<union> set queue') d' \<and> distinct (order @ queue')"
proof (induction children d queue rule: relax.induct)
  case (2 child children d queue)
  let ?n = "int (c child + count_list (child # children) child)"
  let ?queue = "if c child + count_list children child = 0 then queue @ [child] else queue"
  have n: "map_of d child = Some ?n" and notin: "child \<notin> set order \<union> set queue"
    using "2.prems"(1,2) by (auto simp: level_ok_def)
  have "?n - 1 = 0 \<longleftrightarrow> c child + count_list children child = 0" by (simp, presburger)
  then have queue: "(if ?n - 1 = 0 then queue @ [child] else queue) = ?queue" by simp
  have "level_ok nodes (\<lambda>v. c v + count_list children v) (set order \<union> set ?queue)
      (AList.update child (?n - 1) d)"
    using "2.prems"(1,2) notin by (auto simp: level_ok_def dict_simps)
  moreover have "distinct (order @ ?queue)" using "2.prems"(3) notin by auto
  ultimately show ?case
    using "2.IH" [OF n] "2.prems"(2) unfolding relax.simps n option.case queue by simp
qed simp

section \<open>The outer loop\<close>

text \<open>Every edge ends at a node whose predecessors stand before it in the order.\<close>

definition topological :: "(string \<times> string) set \<Rightarrow> string list \<Rightarrow> bool" where
  "topological E order \<longleftrightarrow>
     (\<forall>i<length order. \<forall>u. (u, order ! i) \<in> E \<longrightarrow> u \<in> set (take i order))"

lemma topological_snoc:
  "topological E (order @ [v]) \<longleftrightarrow> topological E order \<and> (\<forall>u. (u, v) \<in> E \<longrightarrow> u \<in> set order)"
  by (auto simp: topological_def nth_append less_Suc_eq)

lemma topo_loop_ok:
  "level_ok nodes (open_edges edges (set order)) (set order \<union> set queue) d \<Longrightarrow>
   snd ` set edges \<subseteq> nodes \<Longrightarrow> distinct (order @ queue) \<Longrightarrow> topological (set edges) order \<Longrightarrow>
     \<exists>order'. topo_loop (group_by fst snd edges) d queue order = Inr order' \<and> distinct order' \<and>
       topological (set edges) order' \<and> set order' \<subseteq> nodes \<and>
       (\<forall>v\<in>nodes. v \<in> set order' \<longleftrightarrow> (\<forall>u. (u, v) \<in> set edges \<longrightarrow> u \<in> set order'))"
proof (induction "group_by fst snd edges" d queue order rule: topo_loop.induct)
  case (1 d order)
  then show ?case by (auto simp: level_ok_def open_edges_0_iff)
next
  case (2 d v queue order)
  let ?children = "sort (dict_get (group_by fst snd edges) v [])"
  have v: "v \<in> nodes" "v \<notin> set order" "open_edges edges (set order) v = 0"
    using "2.prems"(1,3) by (auto simp: level_ok_def)
  have count: "count_list ?children x = count_list (map snd (filter (\<lambda>e. fst e = v) edges)) x" for x
    by (simp add: dict_simps flip: count_mset)
  have sub: "set ?children \<subseteq> nodes" using "2.prems"(2) by (auto simp: dict_simps)
  have "level_ok nodes (\<lambda>x. open_edges edges (set (order @ [v])) x + count_list ?children x)
      (set (order @ [v]) \<union> set queue) d"
    using "2.prems"(1) open_edges_step [OF v(2), of edges] by (simp add: count level_ok_def)
  from relax_ok [OF this sub] "2.prems"(3) obtain d' queue' where
    r: "relax ?children d queue = Inr (d', queue')"
      "level_ok nodes (open_edges edges (set (order @ [v]))) (set (order @ [v]) \<union> set queue') d'"
      "distinct ((order @ [v]) @ queue')"
    by auto
  have "topological (set edges) (order @ [v])"
    using "2.prems"(4) v(3) by (simp add: topological_snoc open_edges_0_iff)
  from "2.hyps" [OF r(1) refl r(2) "2.prems"(2) r(3) this] r(1) show ?case by simp
qed

lemma topological_acyclic:
  assumes "topological E order" and "snd ` E \<subseteq> set order"
  shows "acyclic E"
proof -
  have step: "\<exists>j<i. order ! j = x" if "(x, order ! i) \<in> E" "i < length order" for x i
    using assms(1) that unfolding topological_def by (fastforce simp: in_set_conv_nth)
  have "\<exists>j<i. order ! j = x" if "(x, y) \<in> E\<^sup>+" "y = order ! i" "i < length order" for x y i
    using that
  proof (induction arbitrary: i rule: converse_trancl_induct)
    case (base y)
    then show ?case using step by blast
  next
    case (step y z)
    then obtain j where "j < i" "order ! j = z" by blast
    then show ?case using step.hyps(1) step.prems(2) \<open>\<And>x i. _ \<Longrightarrow> _ \<Longrightarrow> \<exists>j<i. order ! j = x\<close> [of y j]
      by (metis less_trans)
  qed
  note before = this
  have "(x, x) \<notin> E\<^sup>+" for x
  proof
    assume x: "(x, x) \<in> E\<^sup>+"
    then have "x \<in> set order" using assms(2) by (metis image_eqI in_mono snd_conv tranclD2)
    then have ex: "\<exists>i. i < length order \<and> order ! i = x" by (auto simp: in_set_conv_nth)
    define i where "i = (LEAST i. i < length order \<and> order ! i = x)"
    have "i < length order" "order ! i = x" using LeastI_ex [OF ex] by (simp_all add: i_def)
    then obtain j where "j < i" "order ! j = x" using before [OF x, of i] by auto
    then show False
      using not_less_Least [of j "\<lambda>i. i < length order \<and> order ! i = x"] \<open>i < length order\<close>
      by (simp add: i_def)
  qed
  then show ?thesis by (simp add: acyclic_def)
qed

lemma acyclic_all_done:
  assumes "acyclic E" and "finite E" and "fst ` E \<subseteq> nodes"
    and forced: "\<And>v. v \<in> nodes \<Longrightarrow> (\<forall>u. (u, v) \<in> E \<longrightarrow> u \<in> D) \<Longrightarrow> v \<in> D"
  shows "nodes \<subseteq> D"
proof
  fix v
  have "wf E" using assms(2,1) by (rule finite_acyclic_wf)
  then show "v \<in> nodes \<Longrightarrow> v \<in> D"
  proof (induction v rule: wf_induct_rule)
    case (less v)
    have "u \<in> D" if "(u, v) \<in> E" for u
      using less.IH [OF that] that assms(3) by force
    then show ?case using forced less.prems by blast
  qed
qed

section \<open>The topological sort\<close>

definition graph_ok :: "graph \<Rightarrow> bool" where
  "graph_ok g \<longleftrightarrow> distinct (map fst (g_nodes g)) \<and>
     fst ` set (g_edges g) \<subseteq> fst ` set (g_nodes g) \<and> snd ` set (g_edges g) \<subseteq> fst ` set (g_nodes g)"

lemma initial_level:
  assumes "graph_ok g"
  shows "\<exists>d. count_indegrees (g_edges g) (map (\<lambda>(i, _). (i, 0)) (g_nodes g)) = Inr d \<and>
    map fst d = map fst (g_nodes g) \<and>
    (\<forall>v\<in>fst ` set (g_nodes g). map_of d v = Some (int (open_edges (g_edges g) {} v)))"
proof -
  let ?zero = "map (\<lambda>(i, _). (i, 0)) (g_nodes g) :: (string, int) dict"
  have keys: "map fst ?zero = map fst (g_nodes g)" by (simp add: comp_def case_prod_unfold)
  have zero: "map_of (map (\<lambda>(i, _). (i, 0::int)) kvs) v = (if v \<in> fst ` set kvs then Some 0 else None)"
    for v and kvs :: "(string \<times> node_meta) list"
    by (induction kvs) auto
  have "fst ` set ?zero = fst ` set (g_nodes g)" by (metis keys list.set_map)
  with assms have "snd ` set (g_edges g) \<subseteq> fst ` set ?zero" by (simp add: graph_ok_def)
  from count_indegrees_ok [OF this] show ?thesis
    unfolding zero keys by fastforce
qed

lemma topology_ok:
  assumes "graph_ok g"
  shows "\<exists>roots order. topology g = Inr (acyclic (set (g_edges g)), roots, order) \<and>
    sorted roots \<and>
    set roots = {v \<in> fst ` set (g_nodes g). \<nexists>u. (u, v) \<in> set (g_edges g)} \<and>
    distinct order \<and> set order \<subseteq> fst ` set (g_nodes g) \<and> topological (set (g_edges g)) order \<and>
    (acyclic (set (g_edges g)) \<longrightarrow> set order = fst ` set (g_nodes g))"
proof -
  let ?nodes = "fst ` set (g_nodes g)" and ?E = "set (g_edges g)"
  obtain d where d: "count_indegrees (g_edges g) (map (\<lambda>(i, _). (i, 0)) (g_nodes g)) = Inr d"
      "map fst d = map fst (g_nodes g)"
      "\<And>v. v \<in> ?nodes \<Longrightarrow> map_of d v = Some (int (open_edges (g_edges g) {} v))"
    using initial_level [OF assms] by blast
  define roots where "roots = sort (map fst (filter (\<lambda>(_, n). n = 0) d))"
  have dd: "distinct (map fst d)" "fst ` set d = ?nodes"
    using assms d(2) by (simp add: graph_ok_def, metis list.set_map)
  have zero_iff: "v \<in> set roots \<longleftrightarrow> map_of d v = Some 0" for v
  proof -
    have "v \<in> set roots \<longleftrightarrow> (v, 0) \<in> set d" by (auto simp: roots_def image_iff)
    also have "\<dots> \<longleftrightarrow> map_of d v = Some 0" using dd(1) by simp
    finally show ?thesis .
  qed
  have outside: "v \<notin> ?nodes \<Longrightarrow> map_of d v = None" for v
    using dd(2) by (simp add: map_of_eq_None_iff)
  have roots: "v \<in> set roots \<longleftrightarrow> v \<in> ?nodes \<and> open_edges (g_edges g) {} v = 0" for v
    using d(3) [of v] outside [of v] zero_iff [of v] by (cases "v \<in> ?nodes") simp_all
  have "distinct roots"
    unfolding roots_def using dd(1) by (simp add: distinct_map_filter)
  have start: "level_ok ?nodes (open_edges (g_edges g) (set [])) (set [] \<union> set roots) d"
    using d(3) roots by (auto simp: level_ok_def)
  have ends: "snd ` ?E \<subseteq> ?nodes" "fst ` ?E \<subseteq> ?nodes" using assms by (auto simp: graph_ok_def)
  have "topological ?E []" by (simp add: topological_def)
  with topo_loop_ok [OF start ends(1)] \<open>distinct roots\<close> obtain order where
    order: "topo_loop (group_by fst snd (g_edges g)) d roots [] = Inr order"
      "distinct order" "topological ?E order" "set order \<subseteq> ?nodes"
      "\<And>v. v \<in> ?nodes \<Longrightarrow> v \<in> set order \<longleftrightarrow> (\<forall>u. (u, v) \<in> ?E \<longrightarrow> u \<in> set order)"
    by auto
  have all: "set order = ?nodes" if "acyclic ?E"
    using acyclic_all_done [OF that _ ends(2), of "set order"] order(4,5) by auto
  have "length order = length d \<longleftrightarrow> set order = ?nodes"
    using order(2,4) dd by (metis card_subset_eq distinct_card finite_imageI List.finite_set length_map list.set_map)
  also have "\<dots> \<longleftrightarrow> acyclic ?E"
    using all topological_acyclic [OF order(3)] ends(1) by auto
  finally have flag: "(length order = length d) = acyclic ?E" .
  have "topology g = Inr (acyclic ?E, roots, order)"
    using d(1) order(1) flag by (simp add: topology_def Let_def roots_def)
  moreover have "sorted roots" by (simp add: roots_def)
  moreover have "set roots = {v \<in> ?nodes. \<nexists>u. (u, v) \<in> ?E}"
    using roots by (auto simp: open_edges_0_iff)
  ultimately show ?thesis using order(2,3,4) all by blast
qed

section \<open>From the validator to the topological order\<close>

lemma set_edge_list: "set (edge_list cs) = (prereq_rel cs)\<inverse>"
  by (auto simp: edge_list_def prereq_rel_def)

lemma prereq_rel_Image:
  "distinct (map c_id cs) \<Longrightarrow> c \<in> set cs \<Longrightarrow> prereq_rel cs `` {c_id c} = set (c_prerequisites c)"
  by (auto simp: prereq_rel_def distinct_map dest: inj_onD)

lemma graph_of_consistent:
  assumes "consistent cs"
  shows "graph_ok \<lparr>g_nodes = dict_of c_id node_of cs, g_edges = sort (edge_list cs)\<rparr>"
  using assms
  by (force simp: graph_ok_def set_edge_list prereq_rel_def keys_dict_of distinct_dict_of
        consistent_def references_ok_def)

lemma valid_build_graph:
  assumes "length files < limit" and "validate_contracts limit ie files = Inr r" and "valid r"
  shows "r_contracts r = corpus_of files" and "consistent (r_contracts r)"
    and "build_graph r = Inr \<lparr>g_nodes = dict_of c_id node_of (r_contracts r),
                              g_edges = sort (edge_list (r_contracts r))\<rparr>"
proof -
  show eq: "r_contracts r = corpus_of files" and "consistent (r_contracts r)"
    using validate_ok [OF assms(1), of ie] assms(2,3) by (auto simp: well_formed_corpus_def)
qed (use assms(3) in \<open>simp add: build_graph_def\<close>)

text \<open>
  C35. For every corpus the validator accepts, \<open>build_graph\<close> and the topological sort succeed
  with the acyclic flag set: the order lists every Contract once and after all of its
  prerequisites, and the roots are the Contracts without prerequisites.
\<close>

theorem valid_corpus_topology:
  assumes "length files < limit" and "validate_contracts limit iter_errors files = Inr r" and "valid r"
  shows "\<exists>g roots order. build_graph r = Inr g \<and> topology g = Inr (True, roots, order) \<and>
    distinct order \<and> set order = c_id ` set (r_contracts r) \<and>
    topological ((prereq_rel (r_contracts r))\<inverse>) order \<and>
    set roots = {c_id c | c. c \<in> set (r_contracts r) \<and> c_prerequisites c = []}"
proof -
  let ?cs = "r_contracts r"
  let ?g = "\<lparr>g_nodes = dict_of c_id node_of ?cs, g_edges = sort (edge_list ?cs)\<rparr>"
  note vb = valid_build_graph [OF assms]
  have "acyclic ((prereq_rel ?cs)\<inverse>)" and d: "distinct (map c_id ?cs)"
    using vb(2) by (simp_all add: consistent_def acyclic_converse)
  with topology_ok [OF graph_of_consistent [OF vb(2)]] obtain roots order where
    t: "topology ?g = Inr (True, roots, order)" "distinct order" "set order = c_id ` set ?cs"
      "topological ((prereq_rel ?cs)\<inverse>) order"
      "set roots = {v \<in> c_id ` set ?cs. \<nexists>u. (u, v) \<in> (prereq_rel ?cs)\<inverse>}"
    by (auto simp: set_edge_list keys_dict_of)
  have "c_prerequisites c = [] \<longleftrightarrow> (\<forall>u. (c_id c, u) \<notin> prereq_rel ?cs)" if "c \<in> set ?cs" for c
    using prereq_rel_Image [OF d that] by (auto simp: Image_def)
  then have "set roots = {c_id c | c. c \<in> set ?cs \<and> c_prerequisites c = []}"
    unfolding t(5) by auto
  with t vb(3) show ?thesis by blast
qed

theorem valid_corpus_topology_witness:
  "\<exists>g roots order. build_graph \<lparr>r_contracts = corpus_of example_files, r_issues = []\<rparr> = Inr g \<and>
     topology g = Inr (True, roots, order) \<and>
     distinct order \<and> set order = c_id ` set (corpus_of example_files) \<and>
     topological ((prereq_rel (corpus_of example_files))\<inverse>) order \<and>
     set roots = {c_id c | c. c \<in> set (corpus_of example_files) \<and> c_prerequisites c = []}"
  using valid_corpus_topology [OF _ example_files_valid]
  by (simp add: example_files_def valid_def)

end
