(* ===== verification/Effects.thy ===== *)
theory Effects
  imports Prelude
begin

text \<open>
  Computations that update a state and may raise: explicit state passing with the exceptions of
  the prelude, \<open>try\<close>/\<open>except\<close> and \<open>finally\<close>. A handler or a clean-up runs on the state the
  raising computation left behind. A triple states what holds after a computation that starts
  in given states, whether it returns or raises; triples compose along these operations.
\<close>

named_theorems triple_intros "composition rules for triples"

type_synonym ('s, 'a) eff = "'s \<Rightarrow> 'a result \<times> 's"

definition eret :: "'a \<Rightarrow> ('s, 'a) eff" where
  "eret x s = (Inr x, s)"

definition eraise :: "exn \<Rightarrow> ('s, 'a) eff" where
  "eraise e s = (Inl e, s)"

definition elift :: "'a result \<Rightarrow> ('s, 'a) eff" where
  "elift r s = (r, s)"

definition emodify :: "('s \<Rightarrow> 's) \<Rightarrow> ('s, unit) eff" where
  "emodify f s = (Inr (), f s)"

definition ebind :: "('s, 'a) eff \<Rightarrow> ('a \<Rightarrow> ('s, 'b) eff) \<Rightarrow> ('s, 'b) eff" where
  "ebind m f s = (case m s of (Inl e, t) \<Rightarrow> (Inl e, t) | (Inr x, t) \<Rightarrow> f x t)"

definition eseq :: "('s, 'a) eff \<Rightarrow> ('s, 'b) eff \<Rightarrow> ('s, 'b) eff" where
  "eseq m n = ebind m (\<lambda>_. n)"

text \<open>\<open>for x in xs: body(x)\<close>.\<close>

fun efor :: "'a list \<Rightarrow> ('a \<Rightarrow> ('s, unit) eff) \<Rightarrow> ('s, unit) eff" where
  "efor [] body = eret ()"
| "efor (x # xs) body = eseq (body x) (efor xs body)"

text \<open>\<open>try: m; except BaseException as exc: h(exc); raise\<close>, and \<open>try: m; finally: c\<close>.\<close>

definition eexcept_reraise :: "('s, 'a) eff \<Rightarrow> (exn \<Rightarrow> ('s, unit) eff) \<Rightarrow> ('s, 'a) eff" where
  "eexcept_reraise m h s =
     (case m s of (Inl e, t) \<Rightarrow> eseq (h e) (eraise e) t | (Inr x, t) \<Rightarrow> (Inr x, t))"

definition efinally :: "('s, 'a) eff \<Rightarrow> ('s, unit) eff \<Rightarrow> ('s, 'a) eff" where
  "efinally m c s =
     (case m s of (r, t) \<Rightarrow>
        (case c t of (Inl e, u) \<Rightarrow> (Inl e, u) | (Inr _, u) \<Rightarrow> (r, u)))"

lemma eff_simps [simp]:
  "eret x s = (Inr x, s)" "eraise e s = (Inl e, s)" "elift r s = (r, s)" "emodify f s = (Inr (), f s)"
  by (simp_all add: eret_def eraise_def elift_def emodify_def)

lemma ebind_eq: "ebind m f s = (case m s of (Inl e, t) \<Rightarrow> (Inl e, t) | (Inr x, t) \<Rightarrow> f x t)"
  by (simp add: ebind_def)

lemma eseq_eq: "eseq m n s = (case m s of (Inl e, t) \<Rightarrow> (Inl e, t) | (Inr x, t) \<Rightarrow> n t)"
  by (simp add: eseq_def ebind_def)

lemma ebind_InrE:
  assumes "ebind m f s = (Inr y, u)"
  obtains x t where "m s = (Inr x, t)" and "f x t = (Inr y, u)"
  using assms by (auto simp: ebind_def split: prod.splits sum.splits)

lemma eseq_InrE:
  assumes "eseq m n s = (Inr y, u)"
  obtains x t where "m s = (Inr x, t)" and "n t = (Inr y, u)"
  using assms by (auto simp: eseq_def elim: ebind_InrE)

section \<open>Triples\<close>

definition triple ::
  "('s \<Rightarrow> bool) \<Rightarrow> ('s, 'a) eff \<Rightarrow> ('a \<Rightarrow> 's \<Rightarrow> bool) \<Rightarrow> (exn \<Rightarrow> 's \<Rightarrow> bool) \<Rightarrow> bool" where
  "triple P m Q E \<longleftrightarrow>
     (\<forall>s. P s \<longrightarrow> (case m s of (Inr x, t) \<Rightarrow> Q x t | (Inl e, t) \<Rightarrow> E e t))"

lemma tripleI:
  assumes "\<And>s x t. P s \<Longrightarrow> m s = (Inr x, t) \<Longrightarrow> Q x t" and "\<And>s e t. P s \<Longrightarrow> m s = (Inl e, t) \<Longrightarrow> E e t"
  shows "triple P m Q E"
  using assms by (auto simp: triple_def split: prod.split sum.split)

lemma triple_Inr: "triple P m Q E \<Longrightarrow> P s \<Longrightarrow> m s = (Inr x, t) \<Longrightarrow> Q x t"
  by (auto simp: triple_def dest!: spec [where x = s])

lemma triple_Inl: "triple P m Q E \<Longrightarrow> P s \<Longrightarrow> m s = (Inl e, t) \<Longrightarrow> E e t"
  by (auto simp: triple_def dest!: spec [where x = s])

lemma triple_modify [triple_intros]: "(\<And>s. P s \<Longrightarrow> Q () (f s)) \<Longrightarrow> triple P (emodify f) Q E"
  by (simp add: triple_def)

lemma triple_bind:
  assumes "triple P m R E" and "\<And>x. triple (R x) (f x) Q E"
  shows "triple P (ebind m f) Q E"
  using triple_Inr [OF assms(1)] triple_Inl [OF assms(1)] triple_Inr [OF assms(2)] triple_Inl [OF assms(2)]
  by (intro tripleI; simp add: ebind_eq split: prod.splits sum.splits; blast)

lemma triple_seq: "triple P m (\<lambda>_. R) E \<Longrightarrow> triple R n Q E \<Longrightarrow> triple P (eseq m n) Q E"
  unfolding eseq_def by (rule triple_bind)

lemma triple_option:
  assumes "triple P g Q E" and "\<And>x. triple P (f x) Q E"
  shows "triple P (\<lambda>s. case sel s of Some x \<Rightarrow> f x s | None \<Rightarrow> g s) Q E"
  unfolding triple_def
proof (intro allI impI)
  fix s assume "P s"
  then show "case (case sel s of Some x \<Rightarrow> f x s | None \<Rightarrow> g s) of
      (Inr x, t) \<Rightarrow> Q x t | (Inl e, t) \<Rightarrow> E e t"
    using assms unfolding triple_def by (cases "sel s") simp_all
qed

text \<open>A loop with an invariant that counts the passes.\<close>

lemma triple_for:
  assumes "\<And>n. n < length xs \<Longrightarrow> triple (I n) (body (xs ! n)) (\<lambda>_. I (Suc n)) E"
  shows "triple (I 0) (efor xs body) (\<lambda>_. I (length xs)) E"
  using assms
proof (induction xs arbitrary: I)
  case (Cons x xs)
  have "triple (I 0) (body x) (\<lambda>_. I 1) E" using Cons.prems [of 0] by simp
  moreover have "triple (I 1) (efor xs body) (\<lambda>_. I (Suc (length xs))) E"
    using Cons.IH [of "\<lambda>n. I (Suc n)"] Cons.prems [of "Suc n" for n] by simp
  ultimately show ?case by (simp add: triple_seq)
qed (simp add: triple_def)

lemma triple_except:
  assumes "triple P m Q E" and "\<And>e. triple (E e) (h e) (\<lambda>_. F e) F"
  shows "triple P (eexcept_reraise m h) Q F"
  using triple_Inr [OF assms(1)] triple_Inl [OF assms(1)] triple_Inr [OF assms(2)] triple_Inl [OF assms(2)]
  by (intro tripleI; simp add: eexcept_reraise_def eseq_eq split: prod.splits sum.splits; blast)

lemma triple_finally:
  assumes "triple P m Q E" and "\<And>x. triple (Q x) c (\<lambda>_. Q' x) E'" and "\<And>e. triple (E e) c (\<lambda>_. E' e) E'"
  shows "triple P (efinally m c) Q' E'"
proof -
  have "case efinally m c s of (Inr x, u) \<Rightarrow> Q' x u | (Inl e, u) \<Rightarrow> E' e u" if "P s" for s
  proof (cases "m s")
    case (Pair r t)
    obtain r' u where c: "c t = (r', u)" by (cases "c t")
    show ?thesis
    proof (cases r)
      case (Inl e)
      have t: "E e t" using triple_Inl [OF assms(1) that] Pair Inl by simp
      show ?thesis
        using Pair Inl c triple_Inr [OF assms(3) t] triple_Inl [OF assms(3) t]
        by (cases r') (simp_all add: efinally_def)
    next
      case (Inr x)
      have t: "Q x t" using triple_Inr [OF assms(1) that] Pair Inr by simp
      show ?thesis
        using Pair Inr c triple_Inr [OF assms(2) t] triple_Inl [OF assms(2) t]
        by (cases r') (simp_all add: efinally_def)
    qed
  qed
  then show ?thesis by (simp add: triple_def)
qed

lemma triple_weaken:
  "triple P m Q E \<Longrightarrow> (\<And>s. P' s \<Longrightarrow> P s) \<Longrightarrow> (\<And>x s. Q x s \<Longrightarrow> Q' x s) \<Longrightarrow> (\<And>e s. E e s \<Longrightarrow> E' e s) \<Longrightarrow>
     triple P' m Q' E'"
  unfolding triple_def by (fastforce split: prod.splits sum.splits)

end
