(* ===== verification/Selection.thy ===== *)
theory Selection
  imports Contracts
begin

text \<open>
  The case selection of \<open>oracle.py\<close>: the shard of a case, one representative case per Contract,
  the cut-off, and the aggregation of case results per Contract. The SHA-256 digest of a text
  is the argument \<open>digest\<close>, as a list of bytes. The shards of a corpus partition it.
\<close>

section \<open>Cases\<close>

record bench_case =
  k_id :: string
  k_contract :: string
  k_domain :: string
  k_level :: string
  k_family :: string
  k_case_family :: string
  k_clean_snapshot :: bool
  k_probe :: "string option"
  k_transport :: "string option"
  k_setup_transport :: "string option"
  k_seed :: int
  k_timeout :: real

definition opt_str_field :: "pv \<Rightarrow> string \<Rightarrow> string option" where
  "opt_str_field d k = (case pget d k of Some (PStr s) \<Rightarrow> Some s | _ \<Rightarrow> None)"

text \<open>The fields the evaluator reads of a case document, with the defaults it reads them with.\<close>

definition case_of_doc :: "pv \<Rightarrow> bench_case" where
  "case_of_doc d =
     (let setup = pget_default d ''setup'' (PDict []) in
      \<lparr>k_id = str_field d ''case_id'',
       k_contract = str_field d ''contract'',
       k_domain = str_field d ''domain'',
       k_level = str_field d ''level'',
       k_family = str_field d ''family'',
       k_case_family = str_field d ''case_family'',
       k_clean_snapshot = truthy (pget_default setup ''clean_snapshot'' (PBool True)),
       k_probe = opt_str_field (pget_default d ''generator'' (PDict [])) ''probe'',
       k_transport = opt_str_field d ''transport'',
       k_setup_transport = opt_str_field setup ''transport'',
       k_seed = (case pget_default d ''seed'' (PInt 1) of PInt i \<Rightarrow> i | _ \<Rightarrow> 1),
       k_timeout = (case num_of (pget_default d ''timeout_seconds'' (PInt 30)) of
                      Some r \<Rightarrow> r | None \<Rightarrow> 30)\<rparr>)"

section \<open>Shards\<close>

text \<open>\<open>int.from_bytes(bytes, "big")\<close>.\<close>

definition from_bytes :: "nat list \<Rightarrow> nat" where
  "from_bytes bs = foldl (\<lambda>n b. 256 * n + b) 0 bs"

definition case_shard :: "(string \<Rightarrow> nat list) \<Rightarrow> string \<Rightarrow> nat \<Rightarrow> nat" where
  "case_shard digest case_id shard_count = from_bytes (take 8 (digest case_id)) mod shard_count"

section \<open>Selection\<close>

definition representative_key :: "bench_case \<Rightarrow> bool \<times> string \<times> string" where
  "representative_key c = (k_clean_snapshot c, k_case_family c, k_id c)"

text \<open>\<open>min(group, key = ...)\<close> of each group; the groups of a \<open>setdefault\<close> are not empty.\<close>

definition representatives :: "bench_case list \<Rightarrow> bench_case list" where
  "representatives cases =
     map (\<lambda>(_, grp). first_min representative_key (hd grp) (tl grp))
       (sorted_items (group_by k_contract (\<lambda>c. c) cases))"

text \<open>The selection loop: skip other shards, append, stop when the cut-off is reached.\<close>

fun selection_loop ::
  "(bench_case \<Rightarrow> bool) \<Rightarrow> int option \<Rightarrow> bench_case list \<Rightarrow> bench_case list \<Rightarrow> bench_case list" where
  "selection_loop mine max_cases [] selected = selected"
| "selection_loop mine max_cases (c # cases) selected =
     (if \<not> mine c then selection_loop mine max_cases cases selected
      else
        (let selected' = selected @ [c] in
         if (case max_cases of None \<Rightarrow> False | Some m \<Rightarrow> m \<le> int (length selected')) then selected'
         else selection_loop mine max_cases cases selected'))"

definition select_cases ::
  "(string \<Rightarrow> nat list) \<Rightarrow> bool \<Rightarrow> int option \<Rightarrow> int \<Rightarrow> int \<Rightarrow> bench_case list \<Rightarrow> bench_case list result" where
  "select_cases digest one_per_contract max_cases shard_count shard_index cases =
     (if shard_count < 1 then Inl (ValueError ''shard_count must be at least 1'')
      else if shard_index < 0 \<or> shard_count \<le> shard_index then
        Inl (ValueError ''shard_index must satisfy 0 <= shard_index < shard_count'')
      else if (case max_cases of None \<Rightarrow> False | Some m \<Rightarrow> m < 1) then
        Inl (ValueError ''max_cases must be at least 1'')
      else
        (let corpus = (if one_per_contract then representatives cases else cases) in
         Inr (selection_loop
                (\<lambda>c. int (case_shard digest (k_id c) (nat shard_count)) = shard_index)
                max_cases corpus [])))"

section \<open>Aggregation\<close>

record case_result =
  r_case_id :: string
  r_contract :: string
  r_domain :: string
  r_level :: string
  r_family :: string
  r_passed :: bool
  r_difference :: "pv option"
  r_reference_status :: pv
  r_candidate_status :: pv
  r_ratio :: "real option"

record aggregate =
  a_passed :: bool
  a_pass_rate :: real
  a_case_count :: nat
  a_failed_cases :: "string list"

definition aggregate_of :: "case_result list \<Rightarrow> aggregate" where
  "aggregate_of results =
     (let passed_count = length (filter r_passed results) in
      \<lparr>a_passed = (passed_count = length results),
       a_pass_rate = real passed_count / real (length results),
       a_case_count = length results,
       a_failed_cases = map r_case_id (filter (\<lambda>r. \<not> r_passed r) results)\<rparr>)"

definition aggregate_contract_results :: "case_result list \<Rightarrow> (string, aggregate) dict" where
  "aggregate_contract_results results =
     map (\<lambda>(i, rs). (i, aggregate_of rs)) (sorted_items (group_by r_contract (\<lambda>r. r) results))"

section \<open>Partition by shard\<close>

text \<open>What the selection needs of the function that places a case in one of \<open>n\<close> shards.\<close>

locale sharding =
  fixes shard :: "'a \<Rightarrow> nat \<Rightarrow> nat"
  assumes shard_in_range: "0 < n \<Longrightarrow> shard x n < n"
begin

definition slice :: "nat \<Rightarrow> nat \<Rightarrow> 'a list \<Rightarrow> 'a list" where
  "slice n i xs = filter (\<lambda>x. shard x n = i) xs"

lemma slices_cover:
  "0 < n \<Longrightarrow> (\<Sum>i<n. mset (slice n i xs)) = mset xs"
  unfolding slice_def by (rule filter_partition_mset) (rule shard_in_range)

lemma slices_disjoint:
  "i \<noteq> j \<Longrightarrow> set (slice n i xs) \<inter> set (slice n j xs) = {}"
  by (auto simp: slice_def)

end

interpretation digest_shards: sharding "\<lambda>c n. case_shard digest (k_id c) n" for digest
  by unfold_locales (simp add: case_shard_def)

lemma selection_loop_eq:
  "(case max_cases of None \<Rightarrow> True | Some m \<Rightarrow> int (length selected) < m) \<Longrightarrow>
     selection_loop mine max_cases cases selected =
       selected @ (case max_cases of None \<Rightarrow> filter mine cases
                   | Some m \<Rightarrow> take (nat m - length selected) (filter mine cases))"
proof (induction mine max_cases cases selected rule: selection_loop.induct)
  case (2 mine max_cases c cases selected)
  show ?case
  proof (cases "mine c")
    case True
    show ?thesis
    proof (cases max_cases)
      case (Some m)
      with "2.prems" have m: "int (length selected) < m" by simp
      show ?thesis
      proof (cases "m \<le> int (Suc (length selected))")
        case True
        with m have "m = int (Suc (length selected))" by simp
        then have "nat m - length selected = Suc 0" and "m \<le> int (length (selected @ [c]))" by simp_all
        then show ?thesis using \<open>mine c\<close> Some by (simp add: Let_def)
      next
        case False
        then have "nat m - length selected = Suc (nat m - Suc (length selected))" by linarith
        then show ?thesis
          using 2 \<open>mine c\<close> Some False by (simp add: Let_def)
      qed
    qed (use 2 True in \<open>simp add: Let_def\<close>)
  qed (use 2 in \<open>simp split: option.splits\<close>)
qed (simp split: option.split)

definition corpus_slice :: "bool \<Rightarrow> bench_case list \<Rightarrow> bench_case list" where
  "corpus_slice one_per_contract cases = (if one_per_contract then representatives cases else cases)"

lemma select_cases_eq:
  assumes "i < n"
  shows "select_cases digest one_per_contract None (int n) (int i) cases =
    Inr (digest_shards.slice digest n i (corpus_slice one_per_contract cases))"
  using assms
  by (simp add: select_cases_def selection_loop_eq corpus_slice_def digest_shards.slice_def Let_def)

lemma select_cases_max:
  assumes "i < n" and "1 \<le> m"
  shows "select_cases digest one_per_contract (Some m) (int n) (int i) cases =
    Inr (take (nat m) (digest_shards.slice digest n i (corpus_slice one_per_contract cases)))"
  using assms
  by (simp add: select_cases_def selection_loop_eq corpus_slice_def digest_shards.slice_def Let_def)

section \<open>Representatives\<close>

lemma set_group_by:
  "set (group_by key val xs) = (\<lambda>i. (i, map val (filter (\<lambda>x. key x = i) xs))) ` key ` set xs"
  by (auto simp: in_group_by_iff)

lemma set_representatives:
  "set (representatives cases) =
     (\<lambda>i. let grp = filter (\<lambda>c. k_contract c = i) cases
          in first_min representative_key (hd grp) (tl grp)) ` k_contract ` set cases"
  by (simp add: representatives_def set_group_by image_image Let_def)

lemma representative_of_group:
  assumes "i \<in> k_contract ` set cases" and "grp = filter (\<lambda>c. k_contract c = i) cases"
    and "r = first_min representative_key (hd grp) (tl grp)"
  shows "r \<in> set cases" and "k_contract r = i"
    and "c \<in> set cases \<Longrightarrow> k_contract c = i \<Longrightarrow> representative_key r \<le> representative_key c"
proof -
  have "grp \<noteq> []" using assms(1,2) by (auto simp: filter_empty_conv)
  then have g: "hd grp # tl grp = grp" by simp
  have "r \<in> set grp" using first_min_in [of representative_key "hd grp" "tl grp"] g assms(3) by simp
  then show "r \<in> set cases" "k_contract r = i" using assms(2) by auto
  show "representative_key r \<le> representative_key c" if "c \<in> set cases" "k_contract c = i"
  proof -
    have "c \<in> set (hd grp # tl grp)" using that assms(2) unfolding g by simp
    then show ?thesis unfolding assms(3) by (rule first_min_le)
  qed
qed

lemma map_contract_representatives:
  "map k_contract (representatives cases) =
     map fst (sorted_items (group_by k_contract (\<lambda>c. c) cases))"
proof -
  have "k_contract (first_min representative_key (hd g) (tl g)) = i"
    if "(i, g) \<in> set (group_by k_contract (\<lambda>c. c) cases)" for i g
    using that by (intro representative_of_group(2)) (simp_all add: in_group_by_iff)
  then show ?thesis by (auto simp: representatives_def)
qed

text \<open>
  C31. The shards of a corpus cover it and do not overlap: for every shard count of at least
  one, each shard index yields the cases of that shard in corpus order; together they hold
  every case (or every representative) as often as the corpus does, and no case is in two.
\<close>

theorem shards_partition:
  assumes "0 < n"
  shows "\<exists>slices. length slices = n \<and>
    list_all2 (\<lambda>i s. select_cases digest one None (int n) (int i) cases = Inr s \<and> subseq s (corpus_slice one cases))
      [0..<n] slices \<and>
    mset (concat slices) = mset (corpus_slice one cases) \<and>
    (\<forall>i<n. \<forall>j<n. i \<noteq> j \<longrightarrow> set (slices ! i) \<inter> set (slices ! j) = {})"
proof (intro exI conjI)
  let ?slice = "\<lambda>i. digest_shards.slice digest n i (corpus_slice one cases)"
  show "length (map ?slice [0..<n]) = n" by simp
  show "list_all2 (\<lambda>i s. select_cases digest one None (int n) (int i) cases = Inr s \<and>
      subseq s (corpus_slice one cases)) [0..<n] (map ?slice [0..<n])"
    by (simp add: list_all2_conv_all_nth select_cases_eq digest_shards.slice_def)
  have "mset (concat (map ?slice [0..<k])) = (\<Sum>i<k. mset (?slice i))" for k
    by (induction k) (simp_all add: lessThan_Suc)
  then show "mset (concat (map ?slice [0..<n])) = mset (corpus_slice one cases)"
    using digest_shards.slices_cover [OF assms] by metis
  show "\<forall>i<n. \<forall>j<n. i \<noteq> j \<longrightarrow> set (map ?slice [0..<n] ! i) \<inter> set (map ?slice [0..<n] ! j) = {}"
    by (simp add: digest_shards.slices_disjoint)
qed

definition example_case :: "string \<Rightarrow> string \<Rightarrow> bool \<Rightarrow> bench_case" where
  "example_case i c clean =
     \<lparr>k_id = i, k_contract = c, k_domain = ''process'', k_level = ''boot'', k_family = ''primitive'',
      k_case_family = ''primitive'', k_clean_snapshot = clean, k_probe = None,
      k_transport = Some ''host'', k_setup_transport = None, k_seed = 1, k_timeout = 10\<rparr>"

definition example_cases :: "bench_case list" where
  "example_cases =
     [example_case ''b:1'' ''b'' True, example_case ''a:1'' ''a'' True, example_case ''a:2'' ''a'' False]"

definition example_digest :: "string \<Rightarrow> nat list" where
  "example_digest s = map of_char s"

theorem shards_partition_witness:
  "\<exists>slices. length slices = 2 \<and>
    list_all2 (\<lambda>i s. select_cases example_digest False None (int 2) (int i) example_cases = Inr s \<and>
      subseq s (corpus_slice False example_cases)) [0..<2] slices \<and>
    mset (concat slices) = mset (corpus_slice False example_cases)"
  using shards_partition [of 2 example_digest False example_cases] by auto

text \<open>
  Selecting one case per Contract takes, in the order of the Contract ids and once for
  each Contract of the corpus, a case of that Contract that no other case of it precedes in
  the order (clean snapshot last, then case family, then case id).
\<close>

theorem representatives_cover_contracts:
  "sorted (map k_contract (representatives cases)) \<and> distinct (map k_contract (representatives cases)) \<and>
   k_contract ` set (representatives cases) = k_contract ` set cases \<and>
   set (representatives cases) \<subseteq>
     {r \<in> set cases. {c \<in> set cases. k_contract c = k_contract r \<and>
        representative_key c < representative_key r} = {}}"
proof (intro conjI subsetI)
  show "sorted (map k_contract (representatives cases))"
    "distinct (map k_contract (representatives cases))"
    by (simp_all add: map_contract_representatives sorted_sorted_items distinct_sorted_items distinct_group_by)
  have "fst ` set (sorted_items (group_by k_contract (\<lambda>c. c) cases)) = k_contract ` set cases"
    by (simp add: dict_simps)
  then show "k_contract ` set (representatives cases) = k_contract ` set cases"
    using map_contract_representatives [of cases] by (metis list.set_map)
  fix r assume "r \<in> set (representatives cases)"
  then obtain i where i: "i \<in> k_contract ` set cases"
    and r: "r = first_min representative_key (hd (filter (\<lambda>c. k_contract c = i) cases))
                  (tl (filter (\<lambda>c. k_contract c = i) cases))"
    by (auto simp: set_representatives Let_def)
  note rep = representative_of_group [OF i refl r]
  show "r \<in> {r \<in> set cases. {c \<in> set cases. k_contract c = k_contract r \<and>
      representative_key c < representative_key r} = {}}"
    using rep(1,2) rep(3) by (auto simp: leD)
qed

text \<open>
  The selection raises \<open>ValueError\<close> exactly for a shard count below one, an index outside
  the shard count or a cut-off below one; otherwise a cut-off of \<open>m\<close> keeps the first \<open>m\<close> of
  the cases that the same selection without a cut-off returns.
\<close>

theorem selection_errors_and_cutoff:
  "(\<exists>e. select_cases digest one limit n i cases = Inl e) =
     (n < 1 \<or> i < 0 \<or> n \<le> i \<or> (\<exists>m. limit = Some m \<and> m < 1)) \<and>
   (select_cases digest one limit n i cases =
     (case (select_cases digest one None n i cases, limit) of
        (Inr all, Some m) \<Rightarrow>
          if m < 1 then Inl (ValueError ''max_cases must be at least 1'') else Inr (take (nat m) all)
      | (r, _) \<Rightarrow> r))"
proof (cases limit)
  case (Some m)
  then show ?thesis
    by (auto simp: select_cases_def selection_loop_eq Let_def)
qed (auto simp: select_cases_def)

section \<open>Aggregates\<close>

lemma map_of_map_values: "map_of (map (\<lambda>(k, v). (k, f v)) d) k = map_option f (map_of d k)"
  by (induction d) auto

lemma map_of_aggregates:
  "map_of (aggregate_contract_results results) i =
     (if i \<in> r_contract ` set results
      then Some (aggregate_of (filter (\<lambda>r. r_contract r = i) results)) else None)"
  by (simp add: aggregate_contract_results_def map_of_map_values map_of_sorted_items distinct_group_by
      dict_simps)

lemma aggregate_of_eq:
  assumes "rs \<noteq> []"
  shows "aggregate_of rs =
    (let failed = filter (\<lambda>r. \<not> r_passed r) rs
     in \<lparr>a_passed = (failed = []), a_pass_rate = 1 - real (length failed) / real (length rs),
         a_case_count = length rs, a_failed_cases = map r_case_id failed\<rparr>)"
proof -
  have len: "length (filter r_passed rs) + length (filter (\<lambda>r. \<not> r_passed r) rs) = length rs"
    by (rule sum_length_filter_compl)
  have "length (filter r_passed rs) = length rs \<longleftrightarrow> filter (\<lambda>r. \<not> r_passed r) rs = []"
    using len by (metis add.right_neutral add_left_cancel length_0_conv)
  moreover have "real (length (filter r_passed rs)) = real (length rs) - real (length (filter (\<lambda>r. \<not> r_passed r) rs))"
    using len by linarith
  ultimately show ?thesis using assms by (simp add: aggregate_of_def Let_def diff_divide_distrib)
qed

text \<open>
  A Contract is aggregated as passed exactly when it has results and every one of them
  passed, its failed cases are those that did not, in order, and its rate is their complement.
\<close>

theorem aggregate_correct:
  "map_of (aggregate_contract_results results) i =
     (let rs = filter (\<lambda>r. r_contract r = i) results;
          failed = filter (\<lambda>r. \<not> r_passed r) rs
      in if rs = [] then None
         else Some \<lparr>a_passed = (failed = []),
                    a_pass_rate = 1 - real (length failed) / real (length rs),
                    a_case_count = length rs,
                    a_failed_cases = map r_case_id failed\<rparr>)"
proof -
  let ?rs = "filter (\<lambda>r. r_contract r = i) results"
  have "i \<in> r_contract ` set results \<longleftrightarrow> ?rs \<noteq> []" by (auto simp: filter_empty_conv)
  then show ?thesis by (simp add: map_of_aggregates aggregate_of_eq Let_def del: filter_filter)
qed

end
