(* ===== verification/Comparators.thy ===== *)
theory Comparators
  imports Contracts
begin

text \<open>
  \<open>comparators.py\<close>: the comparison of a reference value with a candidate value under the
  equivalence a Contract declares, and the Python operations it rests on: iteration over a
  value, \<open>str\<close> and \<open>repr\<close>, and conversion to \<open>float\<close>. The text of a float (\<open>fr\<close>) and the
  parsing of a string as a float (\<open>fp\<close>) are arguments.
\<close>

section \<open>Text of values\<close>

definition hex_digit :: "nat \<Rightarrow> char" where
  "hex_digit n = (if n < 10 then char_of (48 + n) else char_of (87 + n))"

text \<open>One character inside a string literal with the quote \<open>q\<close>.\<close>

definition repr_char :: "char \<Rightarrow> char \<Rightarrow> string" where
  "repr_char q c =
     (let n = (of_char c :: nat) in
      if c = q \<or> c = CHR 0x5C then [CHR 0x5C, c]
      else if c = CHR 0x09 then [CHR 0x5C, CHR ''t'']
      else if c = CHR 0x0A then [CHR 0x5C, CHR ''n'']
      else if c = CHR 0x0D then [CHR 0x5C, CHR ''r'']
      else if n < 32 \<or> (127 \<le> n \<and> n \<le> 160) \<or> n = 173
        then [CHR 0x5C, CHR ''x'', hex_digit (n div 16), hex_digit (n mod 16)]
      else [c])"

definition repr_str :: "string \<Rightarrow> string" where
  "repr_str s =
     (let q = (if CHR 0x27 \<in> set s \<and> CHR 0x22 \<notin> set s then CHR 0x22 else CHR 0x27)
      in [q] @ concat (map (repr_char q) s) @ [q])"

fun py_repr :: "(real \<Rightarrow> string) \<Rightarrow> pv \<Rightarrow> string" where
  "py_repr fr PNone = ''None''"
| "py_repr fr (PBool b) = (if b then ''True'' else ''False'')"
| "py_repr fr (PInt i) = str_of_int i"
| "py_repr fr (PFloat r) = fr r"
| "py_repr fr (PStr s) = repr_str s"
| "py_repr fr (PList xs) = ''['' @ join '', '' (map (py_repr fr) xs) @ '']''"
| "py_repr fr (PDict kvs) =
     ''{'' @ join '', '' (map (\<lambda>(k, v). repr_str k @ '': '' @ py_repr fr v) kvs) @ ''}''"

fun py_str :: "(real \<Rightarrow> string) \<Rightarrow> pv \<Rightarrow> string" where
  "py_str fr (PStr s) = s"
| "py_str fr v = py_repr fr v"

section \<open>Iteration and numbers\<close>

text \<open>\<open>iter(value)\<close>: the keys of a dictionary, the characters of a string.\<close>

fun py_iter :: "pv \<Rightarrow> pv list result" where
  "py_iter (PList xs) = Inr xs"
| "py_iter (PDict kvs) = Inr (map (\<lambda>(k, _). PStr k) kvs)"
| "py_iter (PStr s) = Inr (map (\<lambda>c. PStr [c]) s)"
| "py_iter _ = Inl (TypeError ''object is not iterable'')"

text \<open>\<open>float(value)\<close>.\<close>

fun py_float :: "(string \<Rightarrow> real option) \<Rightarrow> pv \<Rightarrow> real result" where
  "py_float fp (PStr s) =
     (case fp s of None \<Rightarrow> Inl (ValueError (''could not convert string to float: '' @ repr_str s))
      | Some r \<Rightarrow> Inr r)"
| "py_float fp v =
     (case num_of v of None \<Rightarrow> Inl (TypeError ''float() argument must be a string or a real number'')
      | Some r \<Rightarrow> Inr r)"

section \<open>Comparison\<close>

definition mapped_strings :: "(real \<Rightarrow> string) \<Rightarrow> pv \<Rightarrow> string list result" where
  "mapped_strings fr v = rbind (py_iter v) (\<lambda>xs. Inr (map (py_str fr) xs))"

definition verdict ::
  "(real \<Rightarrow> string) \<Rightarrow> (string \<Rightarrow> real option) \<Rightarrow> string \<Rightarrow> real option \<Rightarrow> pv \<Rightarrow> pv \<Rightarrow> bool result" where
  "verdict fr fp kind tolerance reference candidate =
     (if kind \<in> {''exact'', ''semantic'', ''relation'', ''partial_order''} then Inr (py_eq reference candidate)
      else if kind = ''set'' then
        rbind (mapped_strings fr reference) (\<lambda>xs.
          rbind (mapped_strings fr candidate) (\<lambda>ys. Inr (set xs = set ys)))
      else if kind = ''multiset'' then
        rbind (mapped_strings fr reference) (\<lambda>xs.
          rbind (mapped_strings fr candidate) (\<lambda>ys. Inr (mset xs = mset ys)))
      else if kind = ''range'' then
        (let tol = (case tolerance of None \<Rightarrow> 0 | Some t \<Rightarrow> t) in
         case rbind (py_float fp reference) (\<lambda>a. rbind (py_float fp candidate) (\<lambda>b. Inr (\<bar>a - b\<bar> \<le> tol))) of
           Inl _ \<Rightarrow> Inr False
         | Inr ok \<Rightarrow> Inr ok)
      else Inr (py_eq reference candidate))"

definition eq_kind :: "equivalence \<Rightarrow> string" where
  "eq_kind e = (case eq_type e of None \<Rightarrow> ''exact'' | Some k \<Rightarrow> k)"

definition compare_values ::
  "(real \<Rightarrow> string) \<Rightarrow> (string \<Rightarrow> real option) \<Rightarrow> pv \<Rightarrow> pv \<Rightarrow> equivalence \<Rightarrow> (bool \<times> pv option) result" where
  "compare_values fr fp reference candidate e =
     rbind (verdict fr fp (eq_kind e) (eq_tolerance e) reference candidate) (\<lambda>ok.
       Inr (ok,
            if ok then None
            else Some (PDict [(''kind'', PStr ''observation_mismatch''), (''reference'', reference),
                              (''candidate'', candidate), (''equivalence'', PStr (eq_kind e))])))"

section \<open>The verdict as a relation\<close>

lemma verdict_structural:
  "kind \<notin> {''set'', ''multiset'', ''range''} \<Longrightarrow>
     verdict fr fp kind tol a b = Inr (py_eq a b)"
  by (simp add: verdict_def)

lemma mapped_strings_dict [simp]: "mapped_strings fr (PDict kvs) = Inr (map fst kvs)"
  by (simp add: mapped_strings_def comp_def case_prod_beta)

lemma verdict_set:
  "mapped_strings fr a = Inr xs \<Longrightarrow> mapped_strings fr b = Inr ys \<Longrightarrow>
     verdict fr fp ''set'' tol a b = Inr (set xs = set ys)"
  by (simp add: verdict_def)

lemma verdict_multiset:
  "mapped_strings fr a = Inr xs \<Longrightarrow> mapped_strings fr b = Inr ys \<Longrightarrow>
     verdict fr fp ''multiset'' tol a b = Inr (mset xs = mset ys)"
  by (simp add: verdict_def)

lemma verdict_collection_Inr:
  "kind = ''set'' \<or> kind = ''multiset'' \<Longrightarrow> verdict fr fp kind tol a b = Inr ok \<Longrightarrow>
     \<exists>xs ys. mapped_strings fr a = Inr xs \<and> mapped_strings fr b = Inr ys"
  by (auto simp: verdict_def result_simps)

lemma verdict_range_numbers:
  "verdict fr fp ''range'' tol a b =
     Inr (case (py_float fp a, py_float fp b) of
            (Inr x, Inr y) \<Rightarrow> \<bar>x - y\<bar> \<le> (case tol of None \<Rightarrow> 0 | Some t \<Rightarrow> t)
          | _ \<Rightarrow> False)"
  by (simp add: verdict_def Let_def rbind_def split: sum.split)

lemma verdict_sym:
  assumes "verdict fr fp kind tol a b = Inr ok" and "wf_pv a" and "wf_pv b"
  shows "verdict fr fp kind tol b a = Inr ok"
proof -
  have eq: "py_eq a b = py_eq b a" using py_eq_sym assms(2,3) by blast
  consider "kind = ''set''" | "kind = ''multiset''" | "kind = ''range''"
    | "kind \<notin> {''set'', ''multiset'', ''range''}" by blast
  then show ?thesis
  proof cases
    case 1
    with assms(1) verdict_collection_Inr [OF _ assms(1)] show ?thesis by (auto simp: verdict_set)
  next
    case 2
    with assms(1) verdict_collection_Inr [OF _ assms(1)] show ?thesis by (auto simp: verdict_multiset)
  next
    case 3
    with assms(1) show ?thesis
      by (simp add: verdict_range_numbers abs_minus_commute split: sum.splits)
  next
    case 4
    with assms(1) eq show ?thesis by (simp add: verdict_structural)
  qed
qed

lemma verdict_trans:
  assumes "verdict fr fp kind tol a b = Inr True" and "verdict fr fp kind tol b c = Inr True"
    and "kind \<noteq> ''range''" and "wf_pv a" and "wf_pv b" and "wf_pv c"
  shows "verdict fr fp kind tol a c = Inr True"
proof -
  consider "kind = ''set''" | "kind = ''multiset''" | "kind \<notin> {''set'', ''multiset'', ''range''}"
    using assms(3) by blast
  then show ?thesis
  proof cases
    case 1
    with assms(1,2) verdict_collection_Inr [OF _ assms(1)] verdict_collection_Inr [OF _ assms(2)]
    show ?thesis by (auto simp: verdict_set)
  next
    case 2
    with assms(1,2) verdict_collection_Inr [OF _ assms(1)] verdict_collection_Inr [OF _ assms(2)]
    show ?thesis by (auto simp: verdict_multiset)
  next
    case 3
    with assms show ?thesis using py_eq_trans [of a b c] by (simp add: verdict_structural)
  qed
qed

lemma verdict_refl_dict:
  assumes "wf_pv (PDict kvs)" and "kind \<noteq> ''range''"
  shows "verdict fr fp kind tol (PDict kvs) (PDict kvs) = Inr True"
proof -
  have "py_eq (PDict kvs) (PDict kvs)" using py_eq_refl [OF assms(1)] .
  then show ?thesis using assms(2) by (simp add: verdict_def del: py_eq.simps)
qed

lemma compare_values_Inr:
  "compare_values fr fp a b e = Inr (ok, d) \<Longrightarrow>
     verdict fr fp (eq_kind e) (eq_tolerance e) a b = Inr ok \<and> (d = None \<longleftrightarrow> ok)"
  by (auto simp: compare_values_def result_simps split: if_splits)

end
