(* ===== verification/Normalization.thy ===== *)
theory Normalization
  imports Comparators
begin

text \<open>
  \<open>normalization.py\<close>: the rewriting of an observation under the normalization rules of its
  Contract. Masked keys, reordered lists and temporary paths; the probe's \<open>duration_ns\<close> is
  dropped unless the Contract observes timing or resource use. The lemmas show that the
  rewriting is idempotent and what it leaves alone.
\<close>

section \<open>The rules\<close>

definition PID_KEYS :: "string list" where
  "PID_KEYS = [''pid'', ''process_id'', ''child_pid'', ''parent_pid'', ''child'', ''parent'',
     ''creator_pid'', ''target_pid'']"

definition PPID_KEYS :: "string list" where
  "PPID_KEYS = [''ppid'', ''parent_process_id'']"

definition TID_KEYS :: "string list" where
  "TID_KEYS = [''tid'', ''thread_id'', ''thread'']"

definition INODE_KEYS :: "string list" where
  "INODE_KEYS = [''inode'', ''ino'', ''st_ino'', ''inode_number'']"

definition PORT_KEYS :: "string list" where
  "PORT_KEYS = [''port'', ''local_port'', ''remote_port'', ''ephemeral_port'']"

definition HOST_KEYS :: "string list" where
  "HOST_KEYS = [''hostname'', ''kernel'', ''kernel_release'', ''platform'', ''machine'', ''nodename'']"

text \<open>\<open>str.lower\<close> on characters up to 255.\<close>

definition lower_char :: "char \<Rightarrow> char" where
  "lower_char c =
     (let n = (of_char c :: nat) in
      if (65 \<le> n \<and> n \<le> 90) \<or> (192 \<le> n \<and> n \<le> 222 \<and> n \<noteq> 215) then char_of (n + 32) else c)"

definition lower :: "string \<Rightarrow> string" where
  "lower s = map lower_char s"

text \<open>The mask a key gets under the rules, by the order of the branches.\<close>

definition mask_of :: "string set \<Rightarrow> string \<Rightarrow> string option" where
  "mask_of rules key =
     (let k = lower key in
      if ''pid'' \<in> rules \<and> (k \<in> set PID_KEYS \<or> suffix ''_pid'' k) then Some ''<PID>''
      else if ''ppid'' \<in> rules \<and> k \<in> set PPID_KEYS then Some ''<PPID>''
      else if ''tid'' \<in> rules \<and> (k \<in> set TID_KEYS \<or> suffix ''_tid'' k) then Some ''<TID>''
      else if ''inode'' \<in> rules \<and> k \<in> set INODE_KEYS then Some ''<INODE>''
      else if ''timestamps'' \<in> rules \<and>
        (sublist ''timestamp'' k \<or> suffix ''_time'' k \<or> suffix ''_time_ns'' k \<or>
         k \<in> {''atime'', ''mtime'', ''ctime'', ''btime''}) then Some ''<TIME>''
      else if ''ephemeral_port'' \<in> rules \<and> k \<in> set PORT_KEYS then Some ''<PORT>''
      else if ''addresses'' \<in> rules \<and>
        (sublist ''address'' k \<or> k \<in> {''addr'', ''pointer'', ''ptr''}) then Some ''<ADDRESS>''
      else if ''host_metadata'' \<in> rules \<and> k \<in> set HOST_KEYS then Some ''<HOST>''
      else None)"

definition reordered :: "string set \<Rightarrow> string \<Rightarrow> bool" where
  "reordered rules key \<longleftrightarrow>
     (''directory_order'' \<in> rules \<and> key \<in> {''entries'', ''directory_entries''}) \<or>
     (''scheduler_order'' \<in> rules \<and> key \<in> {''events'', ''schedule'', ''thread_order''})"

section \<open>Temporary paths\<close>

text \<open>The character class \<open>[A-Za-z0-9_.-]\<close>.\<close>

definition path_char :: "char \<Rightarrow> bool" where
  "path_char c =
     (let n = (of_char c :: nat) in
      (65 \<le> n \<and> n \<le> 90) \<or> (97 \<le> n \<and> n \<le> 122) \<or> (48 \<le> n \<and> n \<le> 57) \<or> n = 95 \<or> n = 46 \<or> n = 45)"

text \<open>A match of \<open>pre[A-Za-z0-9_.-]+\<close> at the start of \<open>s\<close>.\<close>

definition matches_at :: "string \<Rightarrow> string \<Rightarrow> bool" where
  "matches_at pre s \<longleftrightarrow>
     prefix pre s \<and> (case drop (length pre) s of [] \<Rightarrow> False | c # _ \<Rightarrow> path_char c)"

text \<open>\<open>re.sub(pre + "[A-Za-z0-9_.-]+", repl, s)\<close>: leftmost, greedy, non-overlapping.\<close>

function sub_paths :: "string \<Rightarrow> string \<Rightarrow> string \<Rightarrow> string" where
  "sub_paths pre repl [] = []"
| "sub_paths pre repl (c # s) =
     (if matches_at pre (c # s)
      then repl @ sub_paths pre repl (dropWhile path_char (drop (length pre) (c # s)))
      else c # sub_paths pre repl s)"
  by pat_completeness auto
termination
proof (relation "measure (\<lambda>(pre, repl, s). length s)")
  fix pre repl :: string and c :: char and s :: string
  assume "matches_at pre (c # s)"
  then obtain k t where "drop (length pre) (c # s) = k # t" "path_char k"
    by (auto simp: matches_at_def split: list.splits)
  then have "length (dropWhile path_char (drop (length pre) (c # s))) \<le> length t"
      "length t < length (drop (length pre) (c # s))"
    by (simp_all add: length_dropWhile_le)
  then show "((pre, repl, dropWhile path_char (drop (length pre) (c # s))), (pre, repl, c # s))
      \<in> measure (\<lambda>(pre, repl, s). length s)" by simp
qed simp_all

definition OSBENCH_PATH :: string where "OSBENCH_PATH = ''/tmp/osbench-''"
definition TMP_PATH :: string where "TMP_PATH = ''/tmp/tmp''"

definition mask_paths :: "string \<Rightarrow> string" where
  "mask_paths s = sub_paths TMP_PATH ''/tmp/<TMP>'' (sub_paths OSBENCH_PATH ''/tmp/<OSBENCH>'' s)"

section \<open>The walk\<close>

definition reorder :: "(real \<Rightarrow> string) \<Rightarrow> string set \<Rightarrow> string \<Rightarrow> pv \<Rightarrow> pv" where
  "reorder fr rules key raw =
     (case raw of
        PList xs \<Rightarrow> if reordered rules key then PList (sort_key (py_repr fr) xs) else raw
      | _ \<Rightarrow> raw)"

fun walk :: "(real \<Rightarrow> string) \<Rightarrow> string set \<Rightarrow> pv \<Rightarrow> pv" where
  "walk fr rules (PDict kvs) =
     PDict (map (\<lambda>(k, v). (k, case mask_of rules k of Some m \<Rightarrow> PStr m
                               | None \<Rightarrow> reorder fr rules k (walk fr rules v))) kvs)"
| "walk fr rules (PList xs) = PList (map (walk fr rules) xs)"
| "walk fr rules (PStr s) = PStr (if ''temporary_paths'' \<in> rules then mask_paths s else s)"
| "walk fr rules v = v"

definition active_rules :: "contract \<Rightarrow> string set" where
  "active_rules c = set (c_normalization c) - {''none''}"

text \<open>\<open>value.pop("duration_ns", None)\<close>.\<close>

definition drop_duration :: "contract \<Rightarrow> pv \<Rightarrow> pv" where
  "drop_duration c v =
     (if ''timing'' \<notin> set (c_observables c) \<and> ''resource_usage'' \<notin> set (c_observables c)
      then PDict (AList.delete ''duration_ns'' (items_of v)) else v)"

definition normalize_observation :: "(real \<Rightarrow> string) \<Rightarrow> contract \<Rightarrow> pv \<Rightarrow> pv" where
  "normalize_observation fr c observation =
     (let v = drop_duration c observation;
          rules = active_rules c
      in if rules = {} then v else walk fr rules v)"

section \<open>Substituted paths\<close>

lemma matches_at_iff: "matches_at pre s \<longleftrightarrow> (\<exists>k. path_char k \<and> prefix (pre @ [k]) s)"
proof
  assume "matches_at pre s"
  then obtain t where s: "s = pre @ t" and "case t of [] \<Rightarrow> False | c # _ \<Rightarrow> path_char c"
    by (auto simp: matches_at_def prefix_def)
  then show "\<exists>k. path_char k \<and> prefix (pre @ [k]) s" by (cases t) (auto simp: prefix_def)
qed (auto simp: matches_at_def prefix_def)

text \<open>What both substitutions have in common: pattern and replacement agree up to \<open>/tmp/\<close>.\<close>

definition tmp_pattern :: "string \<Rightarrow> string \<Rightarrow> bool" where
  "tmp_pattern pre repl \<longleftrightarrow>
     prefix ''/tmp/'' pre \<and> CHR ''/'' \<notin> set (drop 5 pre) \<and> drop 5 pre \<noteq> [] \<and> CHR ''<'' \<notin> set pre \<and>
     (\<exists>tail. repl = ''/tmp/<'' @ tail \<and> CHR ''/'' \<notin> set tail)"

lemma tmp_patterns:
  "tmp_pattern OSBENCH_PATH ''/tmp/<OSBENCH>''" "tmp_pattern TMP_PATH ''/tmp/<TMP>''"
  by (simp_all add: tmp_pattern_def OSBENCH_PATH_def TMP_PATH_def)

lemma path_char_cases [simp]: "\<not> path_char (CHR ''<'')" "\<not> path_char (CHR ''/'')"
  by (simp_all add: path_char_def)

text \<open>A word without the character \<open><\<close> that starts a substituted text starts the text itself.\<close>

lemma prefix_sub_paths:
  "tmp_pattern pre repl \<Longrightarrow> CHR ''<'' \<notin> set w \<Longrightarrow> prefix w (sub_paths pre repl s) \<Longrightarrow> prefix w s"
proof (induction pre repl s arbitrary: w rule: sub_paths.induct)
  case (2 pre repl c s)
  show ?case
  proof (cases "matches_at pre (c # s)")
    case True
    obtain tail where repl: "repl = ''/tmp/'' @ CHR ''<'' # tail"
      using "2.prems"(1) by (auto simp: tmp_pattern_def)
    let ?rest = "sub_paths pre repl (dropWhile path_char (drop (length pre) (c # s)))"
    have "prefix w (''/tmp/'' @ CHR ''<'' # tail @ ?rest)" using "2.prems"(3) True repl by simp
    then have "prefix w ''/tmp/''"
      using "2.prems"(2) by (auto simp: prefix_append prefix_Cons)
    moreover have "prefix ''/tmp/'' (c # s)"
      using "2.prems"(1) True prefix_order.trans unfolding tmp_pattern_def matches_at_def by blast
    ultimately show ?thesis by (rule prefix_order.trans)
  next
    case False
    with 2 show ?thesis by (cases w) auto
  qed
qed simp

lemma matches_sub_paths:
  assumes "tmp_pattern pre repl" and "tmp_pattern pre' repl'"
  shows "matches_at pre' (sub_paths pre repl s) \<Longrightarrow> matches_at pre' s"
proof -
  assume "matches_at pre' (sub_paths pre repl s)"
  then obtain k where k: "path_char k" "prefix (pre' @ [k]) (sub_paths pre repl s)"
    by (auto simp: matches_at_iff)
  have "CHR ''<'' \<notin> set (pre' @ [k])"
    using assms(2) k(1) path_char_cases by (auto simp: tmp_pattern_def simp del: path_char_cases)
  then show ?thesis using prefix_sub_paths [OF assms(1)] k by (auto simp: matches_at_iff)
qed

text \<open>A text in which no match starts anywhere.\<close>

definition clean :: "string \<Rightarrow> string \<Rightarrow> bool" where
  "clean pre s \<longleftrightarrow> (\<forall>t. suffix t s \<longrightarrow> \<not> matches_at pre t)"

lemma clean_Nil: "tmp_pattern pre repl \<Longrightarrow> clean pre []"
  by (auto simp: clean_def matches_at_def tmp_pattern_def)

lemma clean_Cons: "clean pre (c # s) \<longleftrightarrow> \<not> matches_at pre (c # s) \<and> clean pre s"
  by (auto simp: clean_def suffix_Cons)

lemma clean_sub_paths_id: "clean pre s \<Longrightarrow> sub_paths pre repl s = s"
  by (induction pre repl s rule: sub_paths.induct) (simp_all add: clean_Cons)

lemma clean_suffix: "clean pre s \<Longrightarrow> suffix t s \<Longrightarrow> clean pre t"
  by (auto simp: clean_def intro: suffix_order.trans)

lemma no_match_Cons: "tmp_pattern pre repl \<Longrightarrow> c \<noteq> CHR ''/'' \<Longrightarrow> \<not> matches_at pre (c # s)"
  by (auto simp: tmp_pattern_def matches_at_def prefix_def)

lemma clean_append_plain:
  "tmp_pattern pre repl \<Longrightarrow> CHR ''/'' \<notin> set u \<Longrightarrow> clean pre (u @ s) \<longleftrightarrow> clean pre s"
  by (induction u) (auto simp: clean_Cons no_match_Cons)

lemma no_match_token:
  assumes "tmp_pattern pre repl"
  shows "\<not> matches_at pre (''/tmp/<'' @ s)" "\<not> matches_at pre (''/<'' @ s)"
proof -
  obtain x xs where "pre = ''/tmp/'' @ x # xs" "x \<noteq> CHR ''<''"
    using assms by (auto simp: tmp_pattern_def prefix_def neq_Nil_conv)
  then show "\<not> matches_at pre (''/tmp/<'' @ s)" "\<not> matches_at pre (''/<'' @ s)"
    by (simp_all add: matches_at_def)
qed

lemma clean_token:
  assumes "tmp_pattern pre repl" and "tmp_pattern pre' repl'"
  shows "clean pre' (repl @ s) \<longleftrightarrow> clean pre' s"
proof -
  obtain tail where repl: "repl = ''/tmp'' @ ''/<'' @ tail" "CHR ''/'' \<notin> set tail"
    using assms(1) by (auto simp: tmp_pattern_def)
  show ?thesis
    using no_match_token [OF assms(2), of "tail @ s"]
    by (simp add: repl clean_Cons no_match_Cons [OF assms(2)] clean_append_plain [OF assms(2) repl(2)])
qed

lemma clean_sub_paths:
  "tmp_pattern pre repl \<Longrightarrow> tmp_pattern pre' repl' \<Longrightarrow> pre' = pre \<or> clean pre' s \<Longrightarrow>
     clean pre' (sub_paths pre repl s)"
proof (induction pre repl s rule: sub_paths.induct)
  case (1 pre repl)
  then show ?case using clean_Nil by auto
next
  case (2 pre repl c s)
  let ?rest = "dropWhile path_char (drop (length pre) (c # s))"
  have suff: "suffix ?rest (c # s)"
    by (meson suffix_dropWhile suffix_drop suffix_order.trans)
  show ?case
  proof (cases "matches_at pre (c # s)")
    case True
    have "clean pre' (sub_paths pre repl ?rest)"
      using 2 True clean_suffix [OF _ suff] by blast
    then show ?thesis using True clean_token [OF "2.prems"(1,2)] by simp
  next
    case False
    then have "\<not> matches_at pre' (sub_paths pre repl (c # s))"
      using matches_sub_paths [OF "2.prems"(1,2)] "2.prems"(3) clean_Cons by blast
    moreover have "clean pre' (sub_paths pre repl s)"
      using 2 False by (auto simp: clean_Cons)
    ultimately show ?thesis using False by (simp add: clean_Cons)
  qed
qed

lemma mask_paths_clean: "clean OSBENCH_PATH (mask_paths s)" "clean TMP_PATH (mask_paths s)"
  by (simp_all add: mask_paths_def clean_sub_paths [OF tmp_patterns(1) tmp_patterns(1)]
      clean_sub_paths [OF tmp_patterns(2) tmp_patterns(1)]
      clean_sub_paths [OF tmp_patterns(2) tmp_patterns(2)])

lemma mask_paths_idem [simp]: "mask_paths (mask_paths s) = mask_paths s"
proof -
  have "mask_paths t = t" if "clean OSBENCH_PATH t" "clean TMP_PATH t" for t
    using that by (simp add: mask_paths_def clean_sub_paths_id)
  then show ?thesis using mask_paths_clean by blast
qed

section \<open>The walk settles in one pass\<close>

lemma walk_mask: "walk fr rules (PStr m) = PStr m" if "mask_of rules k = Some m"
proof -
  have "CHR ''/'' \<notin> set m"
    using that by (auto simp: mask_of_def Let_def split: if_splits)
  then have "clean OSBENCH_PATH m" "clean TMP_PATH m"
    using clean_append_plain [OF tmp_patterns(1), of m "[]"] clean_append_plain [OF tmp_patterns(2), of m "[]"]
    by (simp_all add: clean_Nil [OF tmp_patterns(1)] clean_Nil [OF tmp_patterns(2)])
  then show ?thesis by (simp add: mask_paths_def clean_sub_paths_id)
qed

lemma walk_reorder:
  assumes "walk fr rules v = v"
  shows "walk fr rules (reorder fr rules k v) = reorder fr rules k v"
proof (cases v)
  case (PList xs)
  with assms have "map (walk fr rules) xs = xs" by simp
  then have "walk fr rules x = x" if "x \<in> set xs" for x
    using that by (metis in_set_conv_nth nth_map)
  then have "map (walk fr rules) (sort_key (py_repr fr) xs) = sort_key (py_repr fr) xs"
    by (intro map_idI) simp
  then show ?thesis using PList assms by (simp add: reorder_def)
qed (use assms in \<open>simp_all add: reorder_def\<close>)

lemma sort_key_idem: "sort_key f (sort_key f xs) = sort_key f xs"
  by (rule properties_for_sort_key) simp_all

lemma reorder_idem: "reorder fr rules k (reorder fr rules k v) = reorder fr rules k v"
  by (simp add: reorder_def sort_key_idem split: pv.split)

lemma walk_idem: "walk fr rules (walk fr rules v) = walk fr rules v"
proof (induction v)
  case (PDict kvs)
  have "reorder fr rules k (walk fr rules (reorder fr rules k (walk fr rules v))) =
      reorder fr rules k (walk fr rules v)" if "(k, v) \<in> set kvs" for k v
    using PDict [OF that] by (simp add: walk_reorder reorder_idem)
  then show ?case by (auto split: option.split)
qed simp_all

lemma walk_dict: "is_dict v \<Longrightarrow> is_dict (walk fr rules v)"
  by (cases v) simp_all

lemma delete_map_values:
  "AList.delete k (map (\<lambda>(x, v). (x, f x v)) kvs) = map (\<lambda>(x, v). (x, f x v)) (AList.delete k kvs)"
  by (induction kvs) (auto simp: AList.delete_eq)

lemma drop_duration_walk:
  "is_dict v \<Longrightarrow> drop_duration c (walk fr rules v) = walk fr rules (drop_duration c v)"
  by (cases v) (simp_all add: drop_duration_def delete_map_values)

lemma drop_duration_idem [simp]: "drop_duration c (drop_duration c v) = drop_duration c v"
  by (simp add: drop_duration_def delete_idem)

lemma is_dict_drop_duration [simp]: "is_dict v \<Longrightarrow> is_dict (drop_duration c v)"
  by (simp add: drop_duration_def)

text \<open>
  Normalization is idempotent: an observation that has been normalized for a Contract is
  left unchanged by normalizing it again, for every combination of rules (masks, reordered
  lists, temporary paths, dropped duration).
\<close>

theorem normalize_idempotent:
  assumes "is_dict observation"
  shows "normalize_observation fr c (normalize_observation fr c observation) =
    normalize_observation fr c observation"
  using assms by (simp add: normalize_observation_def Let_def drop_duration_walk walk_idem)

theorem normalize_idempotent_witness:
  "normalize_observation (\<lambda>_. []) (contract_of_doc (example_doc ''a'' []))
     (normalize_observation (\<lambda>_. []) (contract_of_doc (example_doc ''a'' [])) (PDict [(''pid'', PInt 3)])) =
   normalize_observation (\<lambda>_. []) (contract_of_doc (example_doc ''a'' [])) (PDict [(''pid'', PInt 3)])"
  by (rule normalize_idempotent) simp

section \<open>What normalization forgets\<close>

text \<open>
  Two values that agree up to what the rules declare nondeterministic: anything under a masked
  key, the order of a reordered list (of elements with different texts), temporary paths.
\<close>

inductive same_upto :: "(real \<Rightarrow> string) \<Rightarrow> string set \<Rightarrow> pv \<Rightarrow> pv \<Rightarrow> bool" for fr rules where
  same: "same_upto fr rules v v"
| paths: "''temporary_paths'' \<in> rules \<Longrightarrow> mask_paths s = mask_paths t \<Longrightarrow>
    same_upto fr rules (PStr s) (PStr t)"
| elements: "list_all2 (same_upto fr rules) xs ys \<Longrightarrow> same_upto fr rules (PList xs) (PList ys)"
| permuted: "list_all2 (same_upto fr rules) xs zs \<Longrightarrow> mset zs = mset ys \<Longrightarrow> reordered rules k \<Longrightarrow>
    inj_on (py_repr fr) (walk fr rules ` set ys) \<Longrightarrow>
    same_upto fr rules (PDict [(k, PList xs)]) (PDict [(k, PList ys)])"
| masked: "mask_of rules k \<noteq> None \<Longrightarrow> same_upto fr rules (PDict [(k, v)]) (PDict [(k, w)])"
| field: "same_upto fr rules v w \<Longrightarrow> same_upto fr rules (PDict [(k, v)]) (PDict [(k, w)])"
| fields: "same_upto fr rules (PDict xs) (PDict ys) \<Longrightarrow> same_upto fr rules (PDict xs') (PDict ys') \<Longrightarrow>
    same_upto fr rules (PDict (xs @ xs')) (PDict (ys @ ys'))"

lemma sort_key_mset_cong:
  assumes "mset xs = mset ys" and "inj_on f (set ys)"
  shows "sort_key f xs = sort_key f ys"
proof (rule properties_for_sort_key)
  show "mset (sort_key f ys) = mset xs" using assms(1) by simp
  show "sorted (map f (sort_key f ys))" by simp
  have eq: "replicate (count (mset zs) x) x = filter (\<lambda>y. f x = f y) zs"
    if "set zs = set ys" "x \<in> set zs" for zs x
  proof -
    have "filter (\<lambda>y. f x = f y) zs = filter (\<lambda>y. x = y) zs"
      using that assms(2) by (intro filter_cong) (auto dest: inj_onD)
    then show ?thesis by (simp add: count_mset count_list_eq_length_filter replicate_length_filter)
  qed
  have "set xs = set ys" using assms(1) mset_eq_setD by blast
  then show "filter (\<lambda>y. f x = f y) (sort_key f ys) = filter (\<lambda>y. f x = f y) xs"
    if "x \<in> set (sort_key f ys)" for x
    using eq [of xs x] eq [of "sort_key f ys" x] assms(1) that by simp
qed

lemma same_upto_walk: "same_upto fr rules v w \<Longrightarrow> walk fr rules v = walk fr rules w"
proof (induction rule: same_upto.induct)
  case (elements xs ys)
  then show ?case by (auto simp: list_all2_conv_all_nth intro: nth_equalityI)
next
  case (permuted xs zs ys k)
  then have "map (walk fr rules) xs = map (walk fr rules) zs"
    by (auto simp: list_all2_conv_all_nth intro: nth_equalityI)
  then have "sort_key (py_repr fr) (map (walk fr rules) xs) = sort_key (py_repr fr) (map (walk fr rules) ys)"
    using permuted by (intro sort_key_mset_cong) auto
  with permuted show ?case by (simp add: reorder_def split: option.split)
next
  case (masked k v w)
  then show ?case by auto
qed (auto split: option.split)

end
