(* ===== verification/Targets.thy ===== *)
theory Targets
  imports Effects Selection Normalization
begin

text \<open>
  \<open>targets.py\<close> and \<open>_target\<close> of \<open>oracle.py\<close>: the two kinds of target, which cases they support,
  how they execute a case and what closing does. The probes that run on the host and the QEMU
  controller are a record of operations on a world \<open>'w\<close>, with \<open>'r\<close> the type of a started
  machine. The locale \<open>evaluation_target\<close> is what the evaluator relies on.
\<close>

section \<open>The environment\<close>

record ('r, 'w) env =
  e_probe :: "bench_case \<Rightarrow> ('w, pv) eff"
  e_available :: "'w \<Rightarrow> bool"
  e_is_file :: "string \<Rightarrow> 'w \<Rightarrow> bool"
  e_start :: "string \<Rightarrow> int \<Rightarrow> ('w, 'r) eff"
  e_wait :: "'r \<Rightarrow> ('w, unit) eff"
  e_agent :: "'r \<Rightarrow> bench_case \<Rightarrow> real \<Rightarrow> ('w, pv) eff"
  e_stop :: "'r \<Rightarrow> ('w, unit) eff"

datatype 'r target =
    LocalTarget string
  | QemuTarget string "'r option"

fun target_name :: "'r target \<Rightarrow> string" where
  "target_name (LocalTarget name) = name"
| "target_name (QemuTarget img run) = ''qemu:'' @ img"

fun is_local :: "'r target \<Rightarrow> bool" where
  "is_local (LocalTarget _) = True"
| "is_local _ = False"

section \<open>Operations\<close>

definition local_transport :: "bench_case \<Rightarrow> string option" where
  "local_transport c =
     (case k_transport c of
        Some t \<Rightarrow> if t = [] then k_setup_transport c else Some t
      | None \<Rightarrow> k_setup_transport c)"

fun supports :: "('r, 'w) env \<Rightarrow> 'r target \<Rightarrow> bench_case \<Rightarrow> 'w \<Rightarrow> bool" where
  "supports env (LocalTarget _) c w =
     (local_transport c \<in> Some ` {''host'', ''raw_syscall'', ''shell'', ''none''})"
| "supports env (QemuTarget img _) c w = (e_available env w \<and> e_is_file env img w)"

text \<open>
  \<open>execute\<close>. A QEMU target starts its machine for the first case it executes and keeps it; the
  machine is stored before its serial console is awaited, so that closing finds it.
\<close>

fun execute :: "('r, 'w) env \<Rightarrow> bench_case \<Rightarrow> ('r target \<times> 'w, pv) eff" where
  "execute env c (LocalTarget name, w) =
     (case e_probe env c w of (r, w') \<Rightarrow> (r, LocalTarget name, w'))"
| "execute env c (QemuTarget img (Some run), w) =
     (case e_agent env run c (k_timeout c) w of (r, w') \<Rightarrow> (r, QemuTarget img (Some run), w'))"
| "execute env c (QemuTarget img None, w) =
     (case e_start env img (k_seed c) w of
        (Inl e, w') \<Rightarrow> (Inl e, QemuTarget img None, w')
      | (Inr run, w') \<Rightarrow>
          (case e_wait env run w' of
             (Inl e, w'') \<Rightarrow> (Inl e, QemuTarget img (Some run), w'')
           | (Inr _, w'') \<Rightarrow>
               (case e_agent env run c (k_timeout c) w'' of
                  (r, w3) \<Rightarrow> (r, QemuTarget img (Some run), w3))))"

fun close :: "('r, 'w) env \<Rightarrow> ('r target \<times> 'w, unit) eff" where
  "close env (LocalTarget name, w) = (Inr (), LocalTarget name, w)"
| "close env (QemuTarget img None, w) = (Inr (), QemuTarget img None, w)"
| "close env (QemuTarget img (Some run), w) =
     (case e_stop env run w of
        (Inl e, w') \<Rightarrow> (Inl e, QemuTarget img (Some run), w')
      | (Inr _, w') \<Rightarrow> (Inr (), QemuTarget img None, w'))"

section \<open>Choosing a target\<close>

text \<open>
  \<open>_target\<close>: \<open>img\<close> is the path of the pinned reference image, \<open>mode\<close> the value of
  \<open>OSBENCH_REFERENCE_MODE\<close>, \<open>resolve\<close> the expansion of a path, \<open>exists_path\<close> the file test.
\<close>

definition target_for ::
  "string \<Rightarrow> string option \<Rightarrow> (string \<Rightarrow> string) \<Rightarrow> (string \<Rightarrow> bool) \<Rightarrow> string \<Rightarrow> 'r target result" where
  "target_for img mode resolve exists_path spec =
     (if spec = ''reference'' then
        (let m = lower (case mode of None \<Rightarrow> ''qemu'' | Some m \<Rightarrow> m) in
         if m = ''local'' then Inr (LocalTarget ''reference-host-fallback'')
         else if exists_path img then Inr (QemuTarget img None)
         else if m = ''auto'' then Inr (LocalTarget ''reference-host-fallback'')
         else Inl (FileNotFoundError (''Pinned reference image is missing: '' @ img @
                ''. Run `osbench reference build`, or set OSBENCH_REFERENCE_MODE=local explicitly for host-harness validation.'')))
      else
        (let path = resolve spec in
         if exists_path path then Inr (QemuTarget path None)
         else Inl (FileNotFoundError (''Unknown target or missing image: '' @ spec))))"

section \<open>The interface\<close>

text \<open>
  What the evaluator relies on: executing a case keeps the kind and the name of a target,
  closing that returns leaves nothing running, and a target with nothing running is closed
  without effect.
\<close>

locale evaluation_target =
  fixes exec :: "'c \<Rightarrow> ('t \<times> 'w, 'o) eff"
    and shut :: "('t \<times> 'w, unit) eff"
    and running :: "'t \<Rightarrow> bool"
    and name :: "'t \<Rightarrow> string"
  assumes exec_name: "exec c (t, w) = (r, t', w') \<Longrightarrow> name t' = name t"
    and shut_name: "shut (t, w) = (v, t', w') \<Longrightarrow> name t' = name t"
    and shut_stops: "shut (t, w) = (Inr u, t', w') \<Longrightarrow> \<not> running t'"
    and shut_idle: "\<not> running t \<Longrightarrow> shut (t, w) = (Inr (), t, w)"
begin

text \<open>Executing any cases and then closing: if closing returns, nothing is left running.\<close>

lemma batch_then_shut:
  "efinally (efor cs (\<lambda>c. ebind (exec c) (\<lambda>_. eret ()))) shut (t, w) = (Inr u, t', w') \<Longrightarrow> \<not> running t'"
  by (auto simp: efinally_def split: prod.splits sum.splits dest: shut_stops)

lemma shut_twice: "shut (t, w) = (Inr u, t', w') \<Longrightarrow> shut (t', w') = (Inr (), t', w')"
  using shut_stops shut_idle by blast

lemma batch_name:
  "efor cs (\<lambda>c. ebind (exec c) (\<lambda>_. eret ())) (t, w) = (r, t', w') \<Longrightarrow> name t' = name t"
proof (induction cs arbitrary: t w)
  case (Cons c cs)
  obtain r1 t1 w1 where e: "exec c (t, w) = (r1, t1, w1)" by (cases "exec c (t, w)") auto
  have "name t1 = name t" by (rule exec_name [OF e])
  then show ?case using Cons e by (cases r1) (auto simp: eseq_eq ebind_eq)
qed simp

end

fun running :: "'r target \<Rightarrow> bool" where
  "running (QemuTarget img (Some run)) = True"
| "running _ = False"

lemma execute_keeps:
  "execute env c (t, w) = (r, t', w') \<Longrightarrow> target_name t' = target_name t \<and> is_local t' = is_local t"
  by (cases "(env, c, (t, w))" rule: execute.cases) (auto split: prod.splits sum.splits)

lemma close_keeps:
  "close env (t, w) = (r, t', w') \<Longrightarrow> target_name t' = target_name t \<and> is_local t' = is_local t"
  by (cases "(env, (t, w))" rule: close.cases) (auto split: prod.splits sum.splits)

interpretation evaluator: evaluation_target "execute env" "close env" running target_name
  for env :: "('r, 'w) env"
proof
  fix c and t t' :: "'r target" and w w' :: 'w and r v u
  show "execute env c (t, w) = (r, t', w') \<Longrightarrow> target_name t' = target_name t"
    by (drule execute_keeps) simp
  show "close env (t, w) = (v, t', w') \<Longrightarrow> target_name t' = target_name t"
    by (drule close_keeps) simp
  show "close env (t, w) = (Inr u, t', w') \<Longrightarrow> \<not> running t'"
    by (cases "(env, (t, w))" rule: close.cases) (auto split: prod.splits sum.splits)
  show "\<not> running t \<Longrightarrow> close env (t, w) = (Inr (), t, w)"
    by (cases "(env, (t, w))" rule: close.cases) auto
qed

lemma target_for_kind:
  "target_for img mode resolve exists_path spec = Inr t \<Longrightarrow>
     \<not> running t \<and> (is_local t \<longrightarrow> spec = ''reference'')"
  by (auto simp: target_for_def Let_def split: if_splits)

end
