(* ===== verification/Observations.thy ===== *)
theory Observations
  imports Normalization
begin

text \<open>
  \<open>_compare_observations\<close> of \<open>oracle.py\<close>: a failed execution on either side fails the case,
  otherwise the normalized observations are compared under the equivalence of the Contract.
\<close>

definition status_ok :: "pv \<Rightarrow> bool" where
  "status_ok observation \<longleftrightarrow> py_eq (pget_default observation ''status'' PNone) (PStr ''ok'')"

definition invalid_observation :: "string \<Rightarrow> pv \<Rightarrow> pv" where
  "invalid_observation side observation =
     PDict [(''kind'', PStr (''invalid_'' @ side @ ''_observation'')),
            (side @ ''_status'', pget_default observation ''status'' PNone),
            (side @ ''_stderr'', pget_default observation ''stderr'' (PStr []))]"

definition compare_observations ::
  "(real \<Rightarrow> string) \<Rightarrow> (string \<Rightarrow> real option) \<Rightarrow> pv \<Rightarrow> pv \<Rightarrow> contract \<Rightarrow> (bool \<times> pv option) result" where
  "compare_observations fr fp reference candidate c =
     (if \<not> status_ok reference then Inr (False, Some (invalid_observation ''reference'' reference))
      else if \<not> status_ok candidate then Inr (False, Some (invalid_observation ''candidate'' candidate))
      else compare_values fr fp (normalize_observation fr c reference)
             (normalize_observation fr c candidate) (c_equivalence c))"

section \<open>Well-formed observations\<close>

lemma fst_comp_pair [simp]: "fst \<circ> (\<lambda>(k, v). (k, f k v)) = fst"
  by auto

lemma wf_reorder: "wf_pv v \<Longrightarrow> wf_pv (reorder fr rules k v)"
  by (cases v) (auto simp: reorder_def list_all_iff)

lemma wf_walk: "wf_pv v \<Longrightarrow> wf_pv (walk fr rules v)"
proof (induction v)
  case (PDict kvs)
  have "wf_pv (case mask_of rules k of Some m \<Rightarrow> PStr m | None \<Rightarrow> reorder fr rules k (walk fr rules v))"
    if "(k, v) \<in> set kvs" for k v
    using PDict.IH [OF that] PDict.prems that
    by (auto simp: list_all_iff wf_reorder split: option.split)
  then show ?case using PDict.prems by (auto simp: list_all_iff)
qed (auto simp: list_all_iff)

lemma wf_drop_duration: "wf_pv v \<Longrightarrow> wf_pv (drop_duration c v)"
  by (cases v) (auto simp: drop_duration_def list_all_iff distinct_delete AList.delete_eq
    intro: distinct_delete [unfolded AList.delete_eq])

lemma wf_normalize: "wf_pv v \<Longrightarrow> wf_pv (normalize_observation fr c v)"
  by (simp add: normalize_observation_def Let_def wf_walk wf_drop_duration)

lemma normalize_dict: "is_dict v \<Longrightarrow> is_dict (normalize_observation fr c v)"
  by (simp add: normalize_observation_def Let_def walk_dict)

lemma compare_values_equal:
  assumes "wf_pv v" and "is_dict v" and "eq_kind e \<noteq> ''range''"
  shows "compare_values fr fp v v e = Inr (True, None)"
proof (cases v)
  case (PDict kvs)
  then show ?thesis
    using verdict_refl_dict [of kvs "eq_kind e" fr fp "eq_tolerance e"] assms
    by (simp add: compare_values_def)
qed (use assms in simp_all)

text \<open>
  C33. The comparison fails closed: whatever the Contract, a case passes only if both
  executions report status \<open>ok\<close>; a failed case always carries a difference and a passed one
  none; an execution failure is reported for the reference first.
\<close>

theorem compare_fails_closed:
  assumes "compare_observations fr fp reference candidate c = Inr (passed, difference)"
  shows "(passed \<longleftrightarrow> difference = None) \<and>
    (passed \<longrightarrow> status_ok reference \<and> status_ok candidate) \<and>
    (\<not> status_ok reference \<longrightarrow> difference = Some (invalid_observation ''reference'' reference)) \<and>
    (status_ok reference \<longrightarrow> \<not> status_ok candidate \<longrightarrow>
       difference = Some (invalid_observation ''candidate'' candidate))"
  using assms compare_values_Inr
  by (auto simp: compare_observations_def split: if_splits)

text \<open>
  C34. Nondeterminism the Contract declares never fails a case: two successful observations
  that agree up to masked keys, the order of reordered lists, temporary paths and the dropped
  duration pass under every equivalence except \<open>range\<close>.
\<close>

theorem declared_nondeterminism_passes:
  assumes "status_ok reference" and "status_ok candidate" and "wf_pv reference"
    and "is_dict reference" and "eq_kind (c_equivalence c) \<noteq> ''range''"
    and "active_rules c \<noteq> {}"
    and "same_upto fr (active_rules c) (drop_duration c reference) (drop_duration c candidate)"
  shows "compare_observations fr fp reference candidate c = Inr (True, None)"
proof -
  have "normalize_observation fr c candidate = normalize_observation fr c reference"
    using same_upto_walk [OF assms(7)] assms(6) by (simp add: normalize_observation_def Let_def)
  then show ?thesis
    using assms by (simp add: compare_observations_def compare_values_equal wf_normalize normalize_dict)
qed

lemma identical_observations_pass:
  assumes "status_ok observation" and "wf_pv observation" and "is_dict observation"
    and "eq_kind (c_equivalence c) \<noteq> ''range''"
  shows "compare_observations fr fp observation observation c = Inr (True, None)"
  using assms by (simp add: compare_observations_def compare_values_equal wf_normalize normalize_dict)

definition ok_observation :: "(string \<times> pv) list \<Rightarrow> pv" where
  "ok_observation kvs = PDict ((''status'', PStr ''ok'') # kvs)"

definition example_contract :: "string list \<Rightarrow> string \<Rightarrow> contract" where
  "example_contract rules kind =
     (contract_of_doc (example_doc ''a'' []))
       \<lparr>c_normalization := rules, c_equivalence := \<lparr>eq_type = Some kind, eq_tolerance = None\<rparr>\<rparr>"

theorem compare_fails_closed_witness:
  "(False \<longleftrightarrow> Some (invalid_observation ''candidate'' (PDict [])) = None) \<and>
   Some (invalid_observation ''candidate'' (PDict [])) = Some (invalid_observation ''candidate'' (PDict []))"
  using compare_fails_closed [of "\<lambda>_. []" "\<lambda>_. None" "ok_observation []" "PDict []"
      "example_contract [] ''exact''" False "Some (invalid_observation ''candidate'' (PDict []))"]
  by (simp add: compare_observations_def status_ok_def ok_observation_def pget_default_def pget_def)

theorem declared_nondeterminism_passes_witness:
  "compare_observations (\<lambda>_. []) (\<lambda>_. None)
     (ok_observation [(''pid'', PInt 7), (''duration_ns'', PInt 3)])
     (ok_observation [(''pid'', PInt 9), (''duration_ns'', PInt 5)]) (example_contract [''pid''] ''exact'')
   = Inr (True, None)"
proof (rule declared_nondeterminism_passes)
  have rules: "active_rules (example_contract [''pid''] ''exact'') = {''pid''}"
    by (simp add: active_rules_def example_contract_def)
  have drop: "drop_duration (example_contract [''pid''] ''exact'')
      (ok_observation [(''pid'', PInt p), (''duration_ns'', PInt d)]) =
      PDict ([(''status'', PStr ''ok'')] @ [(''pid'', PInt p)])" for p d
    by (simp add: drop_duration_def example_contract_def contract_of_doc_def example_doc_def
        strs_field_def pget_default_def pget_def ok_observation_def)
  have "mask_of {''pid''} ''pid'' \<noteq> None"
    by (simp add: mask_of_def lower_def lower_char_def PID_KEYS_def Let_def)
  then show "same_upto (\<lambda>_. []) (active_rules (example_contract [''pid''] ''exact''))
      (drop_duration (example_contract [''pid''] ''exact'')
        (ok_observation [(''pid'', PInt 7), (''duration_ns'', PInt 3)]))
      (drop_duration (example_contract [''pid''] ''exact'')
        (ok_observation [(''pid'', PInt 9), (''duration_ns'', PInt 5)]))"
    unfolding rules drop by (intro same_upto.intros)
  show "active_rules (example_contract [''pid''] ''exact'') \<noteq> {}" by (simp add: rules)
qed (simp_all add: ok_observation_def status_ok_def pget_default_def pget_def example_contract_def eq_kind_def)

section \<open>Collections and ranges\<close>

definition compared_fields :: "contract \<Rightarrow> pv \<Rightarrow> string set" where
  "compared_fields c v = fst ` set (items_of (drop_duration c v))"

lemma normalize_fields:
  assumes "is_dict v"
  obtains kvs where "normalize_observation fr c v = PDict kvs"
    and "map fst kvs = map fst (items_of (drop_duration c v))"
proof -
  obtain ds where "drop_duration c v = PDict ds"
    using is_dict_drop_duration [OF assms, of c] by (cases "drop_duration c v") auto
  then show ?thesis
    using that by (cases "active_rules c = {}") (simp_all add: normalize_observation_def Let_def)
qed

text \<open>
  The verdict on two successful observations under \<open>set\<close> or \<open>multiset\<close> equivalence looks
  only at the names of their top-level fields: they pass exactly when they have the same
  fields, whatever the values. Under \<open>range\<close> no pair of observations passes, not even a pair
  of identical ones.
\<close>

theorem collections_compare_field_names:
  assumes "status_ok reference" and "status_ok candidate" and "is_dict reference" and "is_dict candidate"
    and "wf_pv reference" and "wf_pv candidate"
    and "eq_kind (c_equivalence c) \<in> {''set'', ''multiset'', ''range''}"
  shows "\<exists>difference. compare_observations fr fp reference candidate c =
    Inr (eq_kind (c_equivalence c) \<noteq> ''range'' \<and> compared_fields c reference = compared_fields c candidate,
         difference)"
proof -
  obtain xs where xs: "normalize_observation fr c reference = PDict xs"
    "map fst xs = map fst (items_of (drop_duration c reference))"
    using normalize_fields assms(3) .
  obtain ys where ys: "normalize_observation fr c candidate = PDict ys"
    "map fst ys = map fst (items_of (drop_duration c candidate))"
    using normalize_fields assms(4) .
  have "wf_pv (PDict xs)" "wf_pv (PDict ys)" using wf_normalize assms(5,6) xs(1) ys(1) by metis+
  then have d: "distinct (map fst xs)" "distinct (map fst ys)" by simp_all
  have flds: "compared_fields c reference = set (map fst xs)" "compared_fields c candidate = set (map fst ys)"
    by (simp_all only: compared_fields_def xs(2) ys(2) set_map)
  have "compare_observations fr fp reference candidate c =
      compare_values fr fp (PDict xs) (PDict ys) (c_equivalence c)"
    using assms(1,2) xs(1) ys(1) by (simp add: compare_observations_def)
  moreover have "verdict fr fp (eq_kind (c_equivalence c)) tol (PDict xs) (PDict ys) =
      Inr (eq_kind (c_equivalence c) \<noteq> ''range'' \<and> set (map fst xs) = set (map fst ys))" for tol
    using assms(7) set_eq_iff_mset_eq_distinct [OF d]
    by (elim insertE; simp add: verdict_set [OF mapped_strings_dict mapped_strings_dict]
        verdict_multiset [OF mapped_strings_dict mapped_strings_dict] verdict_range_numbers del: set_map mset_map)
  ultimately show ?thesis by (auto simp: compare_values_def flds)
qed

theorem collections_compare_field_names_witness:
  "\<exists>difference. compare_observations (\<lambda>_. []) (\<lambda>_. None)
     (ok_observation [(''value'', PInt 1)]) (ok_observation [(''value'', PInt 2)])
     (example_contract [] ''set'') = Inr (True, difference)"
proof -
  have "compared_fields (example_contract [] ''set'') (ok_observation [(''value'', PInt v)]) =
      {''status'', ''value''}" for v
    by (simp add: compared_fields_def drop_duration_def ok_observation_def)
  then show ?thesis
    using collections_compare_field_names [of "ok_observation [(''value'', PInt 1)]"
        "ok_observation [(''value'', PInt 2)]" "example_contract [] ''set''" "\<lambda>_. []" "\<lambda>_. None"]
    by (simp add: status_ok_def pget_default_def pget_def example_contract_def eq_kind_def ok_observation_def)
qed

end
