(* ===== verification/Scoring.thy ===== *)
theory Scoring
  imports Selection
begin

text \<open>
  \<open>scoring.py\<close>: the weighted geometric score with its boot gate, the depth of the contiguous
  capability prefix, the native workload fractions and the coverage figures. Floats are real
  numbers; \<open>math.log\<close> of a number that is not positive raises \<open>ValueError\<close>. The text of a
  threshold (\<open>{:g}\<close>) is the argument \<open>fg\<close>.
\<close>

section \<open>The geometric mean\<close>

definition positive_log :: "real \<Rightarrow> real result" where
  "positive_log x = (if x \<le> 0 then Inl (ValueError ''math domain error'') else Inr (ln x))"

fun log_sum :: "real \<Rightarrow> (real \<times> real) list \<Rightarrow> real result" where
  "log_sum eps [] = Inr 0"
| "log_sum eps ((v, w) # vs) =
     rbind (positive_log (max v eps)) (\<lambda>l. rbind (log_sum eps vs) (\<lambda>s. Inr (w * l + s)))"

definition geometric :: "(real \<times> real) list \<Rightarrow> real \<Rightarrow> real result" where
  "geometric values eps =
     (let weight_sum = sum_list (map snd values) in
      if values = [] then Inr 0
      else if weight_sum \<le> 0 then Inr 0
      else rbind (log_sum eps values) (\<lambda>s. Inr (exp (s / weight_sum))))"

section \<open>Contract and level scores\<close>

type_synonym corpus = "(string, contract) dict"
type_synonym scores = "(string, real) dict"

definition pass_fraction :: "bool list \<Rightarrow> real" where
  "pass_fraction ps = real (length (filter (\<lambda>b. b) ps)) / real (length ps)"

definition contract_scores :: "case_result list \<Rightarrow> scores" where
  "contract_scores results =
     map (\<lambda>(i, ps). (i, pass_fraction ps)) (group_by r_contract r_passed results)"

definition unknown_contract :: "corpus \<Rightarrow> case_result list \<Rightarrow> string option" where
  "unknown_contract contracts results =
     map_option r_contract (find (\<lambda>r. r_contract r \<notin> fst ` set contracts) results)"

definition ids_at :: "corpus \<Rightarrow> (string \<Rightarrow> bool) \<Rightarrow> string list" where
  "ids_at contracts level_ok = sort (map fst (filter (\<lambda>(_, c). level_ok (c_level c)) contracts))"

definition mean :: "real list \<Rightarrow> real" where
  "mean xs = sum_list xs / real (length xs)"

definition level_score :: "scores \<Rightarrow> string list \<Rightarrow> real" where
  "level_score cs ids = (if ids = [] then 0 else mean (map (\<lambda>i. dict_get cs i 0) ids))"

definition observed_ids :: "scores \<Rightarrow> string list \<Rightarrow> string list" where
  "observed_ids cs ids = filter (\<lambda>i. i \<in> fst ` set cs) ids"

definition observed_level_score :: "scores \<Rightarrow> string list \<Rightarrow> real option" where
  "observed_level_score cs ids =
     (let observed = map (\<lambda>i. dict_get cs i 0) (observed_ids cs ids)
      in if observed = [] then None else Some (mean observed))"

definition level_coverage :: "scores \<Rightarrow> string list \<Rightarrow> real" where
  "level_coverage cs ids =
     (if ids = [] then 0 else real (length (observed_ids cs ids)) / real (length ids))"

definition boot_gate :: "scores \<Rightarrow> string list \<Rightarrow> real" where
  "boot_gate cs boot_ids =
     (if boot_ids \<noteq> [] \<and> list_all (\<lambda>i. i \<in> fst ` set cs \<and> 1 \<le> dict_get cs i 0) boot_ids then 1 else 0)"

text \<open>\<open>[(score[level], weights[level]) for level in LEVELS]\<close>; a level without weight is a \<open>KeyError\<close>.\<close>

fun weigh :: "(string, real) dict \<Rightarrow> (string \<times> real) list \<Rightarrow> (real \<times> real) list result" where
  "weigh weights [] = Inr []"
| "weigh weights ((level, v) # rest) =
     (case map_of weights level of
        None \<Rightarrow> Inl (KeyError level)
      | Some w \<Rightarrow> rbind (weigh weights rest) (\<lambda>vs. Inr ((v, w) # vs)))"

section \<open>Depth\<close>

text \<open>
  The loop of \<open>_depth\<close> over the levels with the cumulative list of passed flags and the depth
  reached so far.
\<close>

fun depth_loop ::
  "scores \<Rightarrow> corpus \<Rightarrow> real \<Rightarrow> bool \<Rightarrow> string list \<Rightarrow> bool list \<Rightarrow> string option \<Rightarrow> string option" where
  "depth_loop cs contracts threshold observed_only [] cumulative d = d"
| "depth_loop cs contracts threshold observed_only (level # levels) cumulative d =
     (let ids = ids_at contracts (\<lambda>l. l = level);
          ids = (if observed_only then observed_ids cs ids else ids);
          cumulative' = cumulative @ map (\<lambda>i. 1 \<le> dict_get cs i 0) ids
      in if ids = [] then d
         else if pass_fraction cumulative' < threshold then d
         else depth_loop cs contracts threshold observed_only levels cumulative' (Some level))"

definition depth :: "scores \<Rightarrow> corpus \<Rightarrow> real \<Rightarrow> bool \<Rightarrow> string option" where
  "depth cs contracts threshold observed_only =
     depth_loop cs contracts threshold observed_only LEVELS [] None"

section \<open>Native workloads\<close>

definition workload_level :: "string \<Rightarrow> bool" where
  "workload_level l \<longleftrightarrow> l \<in> {''real_workloads'', ''full_reconstruction''}"

definition qualifies :: "case_result list \<Rightarrow> real \<Rightarrow> bool" where
  "qualifies results threshold \<longleftrightarrow>
     results \<noteq> [] \<and> list_all r_passed results \<and>
     list_all (\<lambda>r. case r_ratio r of None \<Rightarrow> False | Some q \<Rightarrow> q \<le> threshold) results"

definition native_fraction :: "corpus \<Rightarrow> case_result list \<Rightarrow> real \<Rightarrow> real" where
  "native_fraction contracts results threshold =
     (let ids = ids_at contracts workload_level in
      if ids = [] then 0
      else real (length (filter (\<lambda>i. qualifies (filter (\<lambda>r. r_contract r = i) results) threshold) ids))
             / real (length ids))"

section \<open>The score document\<close>

record scoring_config =
  sc_epsilon :: real
  sc_threshold :: real
  sc_weights :: "(string, real) dict"
  sc_native :: "real list"
  sc_official :: "(string, bool) dict"

record score_document =
  s_oscorrect :: real
  s_observed_correct :: real
  s_depth90 :: "string option"
  s_observed_depth90 :: "string option"
  s_native :: "(string, real option) dict"
  s_boot_gate :: real
  s_observed_boot_gate :: real
  s_level_scores :: "(string, real) dict"
  s_observed_level_scores :: "(string, real option) dict"
  s_level_coverage :: "(string, real) dict"
  s_contract_scores :: scores
  s_evaluated_contracts :: nat
  s_passed_contracts :: nat
  s_corpus_contracts :: nat
  s_contract_coverage :: real
  s_evaluated_cases :: nat
  s_official :: bool
  s_native_workloads :: nat

definition score_results ::
  "(real \<Rightarrow> string) \<Rightarrow> scoring_config \<Rightarrow> case_result list \<Rightarrow> corpus \<Rightarrow> string \<Rightarrow> score_document result" where
  "score_results fg conf results contracts profile =
     (case unknown_contract contracts results of
        Some i \<Rightarrow> Inl (KeyError (''Result references unknown Contract: '' @ i))
      | None \<Rightarrow>
         (let cs = contract_scores results;
              ids = (\<lambda>level. ids_at contracts (\<lambda>l. l = level));
              level_scores = map (\<lambda>l. (l, level_score cs (ids l))) LEVELS;
              observed_scores = map (\<lambda>l. (l, observed_level_score cs (ids l))) LEVELS;
              gate = boot_gate cs (ids ''boot'');
              observed_gate = boot_gate cs (observed_ids cs (ids ''boot''));
              official = dict_get (sc_official conf) profile False
          in rbind (weigh (sc_weights conf) level_scores) (\<lambda>weighted.
             rbind (weigh (sc_weights conf)
                      (map (\<lambda>(l, v). (l, the v)) (filter (\<lambda>(_, v). v \<noteq> None) observed_scores)))
               (\<lambda>observed_weighted.
             rbind (geometric weighted (sc_epsilon conf)) (\<lambda>geo.
             rbind (geometric observed_weighted (sc_epsilon conf)) (\<lambda>observed_geo.
             Inr \<lparr>s_oscorrect = gate * geo,
                  s_observed_correct = observed_gate * observed_geo,
                  s_depth90 = depth cs contracts (sc_threshold conf) False,
                  s_observed_depth90 = depth cs contracts (sc_threshold conf) True,
                  s_native = dict_of (\<lambda>t. ''Native_'' @ fg t)
                    (\<lambda>t. if official then Some (native_fraction contracts results t) else None)
                    (sc_native conf),
                  s_boot_gate = gate,
                  s_observed_boot_gate = observed_gate,
                  s_level_scores = level_scores,
                  s_observed_level_scores = observed_scores,
                  s_level_coverage = map (\<lambda>l. (l, level_coverage cs (ids l))) LEVELS,
                  s_contract_scores = cs,
                  s_evaluated_contracts = length cs,
                  s_passed_contracts = length (filter (\<lambda>(_, s). 1 \<le> s) cs),
                  s_corpus_contracts = length contracts,
                  s_contract_coverage =
                    (if contracts = [] then 0 else real (length cs) / real (length contracts)),
                  s_evaluated_cases = length results,
                  s_official = official,
                  s_native_workloads = length (ids_at contracts workload_level)\<rparr>))))))"

end
