(* ===== verification/Evaluation.thy ===== *)
theory Evaluation
  imports Targets Observations Scoring
begin

text \<open>
  \<open>evaluate\<close> of \<open>oracle.py\<close>: the run state with its journal, progress files and persisted
  documents, the loop over the selected cases, the error path and the closing of the targets,
  and the result document. Times, the run id and the text of documents are left out of the
  state; files are values of the state; writing them does not fail.
\<close>

section \<open>Selection document\<close>

record selection =
  sel_corpus_cases :: nat
  sel_requested :: nat
  sel_evaluated :: nat
  sel_unsupported :: nat
  sel_one_per_contract :: bool
  sel_max_cases :: "int option"
  sel_shard_count :: int
  sel_shard_index :: int
  sel_complete :: bool
  sel_reused :: bool
  sel_dataset_sha256 :: string
  sel_dataset_file_sha256 :: string
  sel_contract_sha256 :: string

record run_config =
  cf_reference_spec :: string
  cf_target_spec :: string
  cf_one_per_contract :: bool
  cf_max_cases :: "int option"
  cf_shard_count :: int
  cf_shard_index :: int
  cf_corpus_cases :: nat
  cf_selected :: "bench_case list"
  cf_contracts :: corpus
  cf_dataset_sha256 :: string
  cf_dataset_file_sha256 :: string
  cf_contract_sha256 :: string
  cf_checkpoint :: int
  cf_profile :: string

definition selection_document :: "run_config \<Rightarrow> nat \<Rightarrow> nat \<Rightarrow> bool \<Rightarrow> selection" where
  "selection_document cf evaluated unsupported reuse =
     \<lparr>sel_corpus_cases = cf_corpus_cases cf,
      sel_requested = length (cf_selected cf),
      sel_evaluated = evaluated,
      sel_unsupported = unsupported,
      sel_one_per_contract = cf_one_per_contract cf,
      sel_max_cases = cf_max_cases cf,
      sel_shard_count = cf_shard_count cf,
      sel_shard_index = cf_shard_index cf,
      sel_complete = (cf_shard_count cf = 1),
      sel_reused = reuse,
      sel_dataset_sha256 = cf_dataset_sha256 cf,
      sel_dataset_file_sha256 = cf_dataset_file_sha256 cf,
      sel_contract_sha256 = cf_contract_sha256 cf\<rparr>"

section \<open>State\<close>

datatype event =
    RunStarted nat
  | CaseStarted nat string string "string option"
  | CaseUnsupported nat string string
  | ReferenceObserved nat string pv
  | CandidateObserved nat string pv bool
  | CaseCompleted nat string bool
  | RunFailed nat "string option" string string
  | RunCompleted nat nat nat

record progress_row =
  p_case_id :: string
  p_contract :: string
  p_position :: nat
  p_observation :: pv

record state_file =
  f_status :: string
  f_position :: nat
  f_total :: nat
  f_current :: "string option"
  f_evaluated :: nat
  f_unsupported :: nat
  f_error :: "(string \<times> string) option"

record partial_file =
  g_status :: string
  g_reference :: string
  g_candidate :: string
  g_selection :: selection
  g_position :: nat
  g_current :: "string option"
  g_contracts :: "(string, aggregate) dict"
  g_cases :: "case_result list"
  g_unsupported :: "(string \<times> string) list"
  g_error :: "(string \<times> string) option"
  g_raw_reference :: "(string, pv) dict"
  g_raw_candidate :: "(string, pv) dict"

record ('r, 'w) run_state =
  v_world :: 'w
  v_reference :: "'r target option"
  v_candidate :: "'r target option"
  v_reference_name :: string
  v_candidate_name :: string
  v_reuse :: bool
  v_position :: nat
  v_current :: "string option"
  v_results :: "case_result list"
  v_unsupported :: "(string \<times> string) list"
  v_raw_reference :: "(string, pv) dict"
  v_raw_candidate :: "(string, pv) dict"
  v_queries :: nat
  v_journal :: "event list"
  v_reference_rows :: "progress_row list"
  v_candidate_rows :: "progress_row list"
  v_state_file :: "state_file option"
  v_partial_file :: "partial_file option"

definition run_init :: "run_config \<Rightarrow> 'w \<Rightarrow> ('r, 'w) run_state" where
  "run_init cf w =
     \<lparr>v_world = w, v_reference = None, v_candidate = None,
      v_reference_name = cf_reference_spec cf, v_candidate_name = cf_target_spec cf,
      v_reuse = False, v_position = 0, v_current = None, v_results = [], v_unsupported = [],
      v_raw_reference = [], v_raw_candidate = [], v_queries = 0, v_journal = [],
      v_reference_rows = [], v_candidate_rows = [], v_state_file = None, v_partial_file = None\<rparr>"

definition log_event :: "event \<Rightarrow> (('r, 'w) run_state, unit) eff" where
  "log_event e = emodify (\<lambda>s. s\<lparr>v_journal := v_journal s @ [e]\<rparr>)"

text \<open>\<open>persist\<close>: the state file always, the partial result at checkpoints and on errors.\<close>

definition state_doc :: "run_config \<Rightarrow> string \<Rightarrow> exn option \<Rightarrow> ('r, 'w) run_state \<Rightarrow> state_file" where
  "state_doc cf status error s =
     \<lparr>f_status = status, f_position = v_position s, f_total = length (cf_selected cf),
      f_current = v_current s, f_evaluated = length (v_results s),
      f_unsupported = length (v_unsupported s),
      f_error = map_option (\<lambda>e. (exn_name e, exn_message e)) error\<rparr>"

definition partial_doc :: "run_config \<Rightarrow> string \<Rightarrow> exn option \<Rightarrow> ('r, 'w) run_state \<Rightarrow> partial_file" where
  "partial_doc cf status error s =
     \<lparr>g_status = status, g_reference = v_reference_name s, g_candidate = v_candidate_name s,
      g_selection = selection_document cf (length (v_results s)) (length (v_unsupported s)) (v_reuse s),
      g_position = v_position s, g_current = v_current s,
      g_contracts = aggregate_contract_results (v_results s), g_cases = v_results s,
      g_unsupported = v_unsupported s,
      g_error = map_option (\<lambda>e. (exn_name e, exn_message e)) error,
      g_raw_reference = v_raw_reference s, g_raw_candidate = v_raw_candidate s\<rparr>"

definition persisted ::
  "run_config \<Rightarrow> string \<Rightarrow> exn option \<Rightarrow> bool \<Rightarrow> ('r, 'w) run_state \<Rightarrow> ('r, 'w) run_state" where
  "persisted cf status error checkpoint s =
     (let every = max 1 (cf_checkpoint cf);
          s' = s\<lparr>v_state_file := Some (state_doc cf status error s)\<rparr>
      in if checkpoint \<or> error \<noteq> None \<or> int (v_position s) mod every = 0
         then s'\<lparr>v_partial_file := Some (partial_doc cf status error s)\<rparr> else s')"

definition persist ::
  "run_config \<Rightarrow> string \<Rightarrow> exn option \<Rightarrow> bool \<Rightarrow> (('r, 'w) run_state, unit) eff" where
  "persist cf status error checkpoint = emodify (persisted cf status error checkpoint)"

section \<open>One case\<close>

text \<open>A call on one of the two targets.\<close>

definition missing_target :: exn where
  "missing_target = AttributeError ''NoneType object has no attribute execute''"

definition on_reference ::
  "('r target \<times> 'w, 'a) eff \<Rightarrow> (('r, 'w) run_state, 'a) eff" where
  "on_reference op s =
     (case v_reference s of
        None \<Rightarrow> (Inl missing_target, s)
      | Some t \<Rightarrow> (case op (t, v_world s) of (r, t', w') \<Rightarrow>
          (r, s\<lparr>v_reference := Some t', v_world := w'\<rparr>)))"

definition on_candidate ::
  "('r target \<times> 'w, 'a) eff \<Rightarrow> (('r, 'w) run_state, 'a) eff" where
  "on_candidate op s =
     (case v_candidate s of
        None \<Rightarrow> (Inl missing_target, s)
      | Some t \<Rightarrow> (case op (t, v_world s) of (r, t', w') \<Rightarrow>
          (r, s\<lparr>v_candidate := Some t', v_world := w'\<rparr>)))"

definition start_case :: "run_config \<Rightarrow> nat \<Rightarrow> bench_case \<Rightarrow> (('r, 'w) run_state, unit) eff" where
  "start_case cf pos c =
     eseq (emodify (\<lambda>s. s\<lparr>v_position := pos, v_current := Some (k_id c)\<rparr>))
       (eseq (log_event (CaseStarted pos (k_id c) (k_contract c) (k_probe c)))
          (persist cf ''running'' None False))"

definition unsupported_reason ::
  "('r, 'w) env \<Rightarrow> bench_case \<Rightarrow> ('r, 'w) run_state \<Rightarrow> string option" where
  "unsupported_reason env c s =
     (case (v_reference s, v_candidate s) of
        (Some ref, Some cand) \<Rightarrow>
          if \<not> supports env ref c (v_world s) then Some ''reference transport unsupported''
          else if \<not> supports env cand c (v_world s) then Some ''candidate transport unsupported''
          else None
      | _ \<Rightarrow> None)"

definition record_unsupported ::
  "run_config \<Rightarrow> nat \<Rightarrow> bench_case \<Rightarrow> string \<Rightarrow> (('r, 'w) run_state, unit) eff" where
  "record_unsupported cf pos c reason =
     eseq (emodify (\<lambda>s. s\<lparr>v_unsupported := v_unsupported s @ [(k_id c, reason)]\<rparr>))
       (eseq (log_event (CaseUnsupported pos (k_id c) reason)) (persist cf ''running'' None False))"

definition status_of :: "pv \<Rightarrow> pv" where
  "status_of observation = pget_default observation ''status'' PNone"

definition observe_reference ::
  "('r, 'w) env \<Rightarrow> run_config \<Rightarrow> nat \<Rightarrow> bench_case \<Rightarrow> (('r, 'w) run_state, pv) eff" where
  "observe_reference env cf pos c =
     ebind (on_reference (execute env c)) (\<lambda>obs.
       eseq (emodify (\<lambda>s. s\<lparr>v_queries := v_queries s + 1,
               v_raw_reference := AList.update (k_id c) obs (v_raw_reference s),
               v_reference_rows := v_reference_rows s @
                 [\<lparr>p_case_id = k_id c, p_contract = k_contract c, p_position = pos, p_observation = obs\<rparr>]\<rparr>))
         (eseq (log_event (ReferenceObserved pos (k_id c) (status_of obs)))
           (eseq (persist cf ''running'' None False) (eret obs))))"

definition observe_candidate ::
  "('r, 'w) env \<Rightarrow> nat \<Rightarrow> bench_case \<Rightarrow> pv \<Rightarrow> (('r, 'w) run_state, pv) eff" where
  "observe_candidate env pos c reference_obs =
     ebind (\<lambda>s. if v_reuse s then (Inr reference_obs, s)
                else ebind (on_candidate (execute env c)) (\<lambda>obs t.
                       (Inr obs, t\<lparr>v_queries := v_queries t + 1\<rparr>)) s) (\<lambda>obs.
       eseq (emodify (\<lambda>s. s\<lparr>v_raw_candidate := AList.update (k_id c) obs (v_raw_candidate s),
               v_candidate_rows := v_candidate_rows s @
                 [\<lparr>p_case_id = k_id c, p_contract = k_contract c, p_position = pos, p_observation = obs\<rparr>],
               v_journal := v_journal s @ [CandidateObserved pos (k_id c) (status_of obs) (v_reuse s)]\<rparr>))
         (eret obs))"

definition performance_ratio :: "pv \<Rightarrow> pv \<Rightarrow> real option" where
  "performance_ratio reference candidate =
     (case (num_of (pget_default reference ''duration_ns'' PNone),
            num_of (pget_default candidate ''duration_ns'' PNone)) of
        (Some r, Some c) \<Rightarrow> if 0 < r then Some (c / r) else None
      | _ \<Rightarrow> None)"

definition case_result_of :: "bench_case \<Rightarrow> pv \<Rightarrow> pv \<Rightarrow> bool \<Rightarrow> pv option \<Rightarrow> case_result" where
  "case_result_of c reference candidate passed difference =
     \<lparr>r_case_id = k_id c, r_contract = k_contract c, r_domain = k_domain c, r_level = k_level c,
      r_family = k_family c, r_passed = passed, r_difference = difference,
      r_reference_status = status_of reference, r_candidate_status = status_of candidate,
      r_ratio = performance_ratio reference candidate\<rparr>"

definition complete_case ::
  "(real \<Rightarrow> string) \<Rightarrow> (string \<Rightarrow> real option) \<Rightarrow> run_config \<Rightarrow> nat \<Rightarrow> bench_case \<Rightarrow> contract \<Rightarrow> pv \<Rightarrow> pv \<Rightarrow>
     (('r, 'w) run_state, unit) eff" where
  "complete_case fr fp cf pos c contract reference candidate =
     ebind (elift (compare_observations fr fp reference candidate contract)) (\<lambda>(passed, difference).
       eseq (emodify (\<lambda>s. s\<lparr>v_results := v_results s @ [case_result_of c reference candidate passed difference]\<rparr>))
         (eseq (log_event (CaseCompleted pos (k_id c) passed)) (persist cf ''running'' None False)))"

definition lookup_contract :: "corpus \<Rightarrow> string \<Rightarrow> contract result" where
  "lookup_contract contracts i =
     (case map_of contracts i of None \<Rightarrow> Inl (KeyError i) | Some c \<Rightarrow> Inr c)"

definition run_case ::
  "('r, 'w) env \<Rightarrow> (real \<Rightarrow> string) \<Rightarrow> (string \<Rightarrow> real option) \<Rightarrow> run_config \<Rightarrow> nat \<times> bench_case \<Rightarrow>
     (('r, 'w) run_state, unit) eff" where
  "run_case env fr fp cf = (\<lambda>(pos, c).
     eseq (start_case cf pos c) (\<lambda>s.
       case unsupported_reason env c s of
         Some reason \<Rightarrow> record_unsupported cf pos c reason s
       | None \<Rightarrow>
           ebind (elift (lookup_contract (cf_contracts cf) (k_contract c))) (\<lambda>contract.
             ebind (observe_reference env cf pos c) (\<lambda>reference.
               ebind (observe_candidate env pos c reference) (\<lambda>candidate.
                 complete_case fr fp cf pos c contract reference candidate))) s))"

section \<open>The run\<close>

definition open_targets ::
  "(string \<Rightarrow> 'r target result) \<Rightarrow> run_config \<Rightarrow> (('r, 'w) run_state, unit) eff" where
  "open_targets mk cf =
     ebind (elift (mk (cf_reference_spec cf))) (\<lambda>ref.
       eseq (emodify (\<lambda>s. s\<lparr>v_reference := Some ref\<rparr>))
         (ebind (elift (mk (cf_target_spec cf))) (\<lambda>cand.
           emodify (\<lambda>s. s\<lparr>v_candidate := Some cand,
             v_reference_name := target_name ref, v_candidate_name := target_name cand,
             v_reuse := (cf_target_spec cf = cf_reference_spec cf \<and> is_local ref \<and> is_local cand)\<rparr>))))"

definition run_body ::
  "('r, 'w) env \<Rightarrow> (real \<Rightarrow> string) \<Rightarrow> (string \<Rightarrow> real option) \<Rightarrow> (string \<Rightarrow> 'r target result) \<Rightarrow> run_config \<Rightarrow>
     (('r, 'w) run_state, unit) eff" where
  "run_body env fr fp mk cf =
     eseq (open_targets mk cf)
       (eseq (persist cf ''running'' None False)
          (efor (enumerate 1 (cf_selected cf)) (run_case env fr fp cf)))"

definition run_failed :: "run_config \<Rightarrow> exn \<Rightarrow> (('r, 'w) run_state, unit) eff" where
  "run_failed cf e =
     eseq (\<lambda>s. log_event (RunFailed (v_position s) (v_current s) (exn_name e) (exn_message e)) s)
       (persist cf ''failed'' (Some e) True)"

definition close_target :: "'r target option \<Rightarrow> (('r, 'w) run_state, unit) eff \<Rightarrow> (('r, 'w) run_state, unit) eff" where
  "close_target t act = (if t = None then eret () else act)"

definition close_targets :: "('r, 'w) env \<Rightarrow> (('r, 'w) run_state, unit) eff" where
  "close_targets env =
     eseq (\<lambda>s. close_target (v_reference s) (on_reference (close env)) s)
       (\<lambda>s. close_target (v_candidate s) (on_candidate (close env)) s)"

record metrics =
  m_evaluated :: nat
  m_queries :: nat
  m_passed :: nat
  m_target :: string

text \<open>\<open>result_metrics\<close> of \<open>trajectory.py\<close>, without the clock and the fields that are always null.\<close>

definition result_metrics :: "(string, aggregate) dict \<Rightarrow> nat \<Rightarrow> nat \<Rightarrow> string \<Rightarrow> metrics" where
  "result_metrics contract_results evaluated queries target_spec =
     \<lparr>m_evaluated = evaluated, m_queries = queries,
      m_passed = length (filter (\<lambda>(_, a). a_passed a) contract_results), m_target = target_spec\<rparr>"

record result_document =
  d_reference :: string
  d_candidate :: string
  d_profile :: string
  d_selection :: selection
  d_scores :: score_document
  d_metrics :: metrics
  d_contracts :: "(string, aggregate) dict"
  d_cases :: "case_result list"
  d_unsupported :: "(string \<times> string) list"

definition result_of ::
  "run_config \<Rightarrow> score_document \<Rightarrow> ('r, 'w) run_state \<Rightarrow> result_document" where
  "result_of cf scores s =
     (let aggregates = aggregate_contract_results (v_results s) in
      \<lparr>d_reference = v_reference_name s, d_candidate = v_candidate_name s, d_profile = cf_profile cf,
       d_selection = selection_document cf (length (v_results s)) (length (v_unsupported s)) (v_reuse s),
       d_scores = scores,
       d_metrics = result_metrics aggregates (length (v_results s)) (v_queries s) (cf_target_spec cf),
       d_contracts = aggregates, d_cases = v_results s, d_unsupported = v_unsupported s\<rparr>)"

text \<open>What follows the loop: scoring, the result document, \<open>run_completed\<close>.\<close>

definition finish_run ::
  "(real \<Rightarrow> string) \<Rightarrow> scoring_config \<Rightarrow> run_config \<Rightarrow> (('r, 'w) run_state, result_document) eff" where
  "finish_run fg conf cf =
     eseq (emodify (\<lambda>s. s\<lparr>v_current := None\<rparr>)) (\<lambda>s.
       ebind (elift (score_results fg conf (v_results s) (cf_contracts cf) (cf_profile cf))) (\<lambda>scores.
         eseq (log_event (RunCompleted (v_position s) (length (v_results s)) (length (v_unsupported s))))
           (eseq (persist cf ''completed'' None True) (eret (result_of cf scores s)))) s)"

definition begin_run :: "run_config \<Rightarrow> (('r, 'w) run_state, unit) eff" where
  "begin_run cf =
     eseq (log_event (RunStarted (length (cf_selected cf)))) (persist cf ''starting'' None True)"

definition evaluate_run ::
  "('r, 'w) env \<Rightarrow> (real \<Rightarrow> string) \<Rightarrow> (string \<Rightarrow> real option) \<Rightarrow> (real \<Rightarrow> string) \<Rightarrow> scoring_config \<Rightarrow>
     (string \<Rightarrow> 'r target result) \<Rightarrow> run_config \<Rightarrow> (('r, 'w) run_state, result_document) eff" where
  "evaluate_run env fr fp fg conf mk cf =
     eseq (begin_run cf)
       (eseq (efinally (eexcept_reraise (run_body env fr fp mk cf) (run_failed cf)) (close_targets env))
          (finish_run fg conf cf))"

end
