(* ===== verification/EvaluationFacts.thy ===== *)
theory EvaluationFacts
  imports Evaluation
begin

text \<open>
  What an evaluation run guarantees: its journal follows a protocol, the books balance (every
  selected case is evaluated or unsupported, the queries are counted, each verdict is the one
  the recorded observations give), a failure is recorded before it is raised again, and the
  targets are closed on every path.
\<close>

section \<open>The journal protocol\<close>

datatype phase =
    Fresh
  | Idle nat
  | Started nat string
  | HalfObserved nat string
  | FullyObserved nat string
  | Failed
  | Completed

fun open_at :: "nat \<Rightarrow> phase \<Rightarrow> bool" where
  "open_at n (Idle m) = (m = n)"
| "open_at n (Started m i) = (m = n)"
| "open_at n (HalfObserved m i) = (m = n)"
| "open_at n (FullyObserved m i) = (m = n)"
| "open_at n _ = False"

inductive journal_step :: "phase \<Rightarrow> event \<Rightarrow> phase \<Rightarrow> bool" where
  run_started: "journal_step Fresh (RunStarted k) (Idle 0)"
| case_started: "journal_step (Idle n) (CaseStarted (Suc n) i c p) (Started (Suc n) i)"
| case_unsupported: "journal_step (Started n i) (CaseUnsupported n i reason) (Idle n)"
| reference_observed: "journal_step (Started n i) (ReferenceObserved n i st) (HalfObserved n i)"
| candidate_observed: "journal_step (HalfObserved n i) (CandidateObserved n i st reused) (FullyObserved n i)"
| case_completed: "journal_step (FullyObserved n i) (CaseCompleted n i passed) (Idle n)"
| run_failed: "open_at n ph \<Longrightarrow> journal_step ph (RunFailed n i name msg) Failed"
| run_completed: "journal_step (Idle n) (RunCompleted n evaluated unsupported) Completed"

inductive journal_run :: "event list \<Rightarrow> phase \<Rightarrow> bool" where
  empty: "journal_run [] Fresh"
| step: "journal_run es ph \<Longrightarrow> journal_step ph e ph' \<Longrightarrow> journal_run (es @ [e]) ph'"

inductive_cases journal_run_snocE: "journal_run (es @ [e]) ph"

inductive_simps journal_step_Failed [simp]: "journal_step Failed e ph"
inductive_simps journal_step_Completed [simp]: "journal_step Completed e ph"
inductive_simps journal_step_Idle: "journal_step (Idle n) e ph"

lemmas journal_appends =
  journal_run.step [OF _ journal_step.run_started]
  journal_run.step [OF _ journal_step.case_started]
  journal_run.step [OF _ journal_step.case_unsupported]
  journal_run.step [OF _ journal_step.reference_observed]
  journal_run.step [OF _ journal_step.candidate_observed]
  journal_run.step [OF _ journal_step.case_completed]
  journal_run.step [OF _ journal_step.run_completed]

text \<open>Nothing is written to the journal after \<open>run_failed\<close> or \<open>run_completed\<close>.\<close>

lemma terminal_last:
  assumes "journal_run (es @ [e]) ph"
  shows "\<exists>ph'. journal_run es ph' \<and> ph' \<noteq> Failed \<and> ph' \<noteq> Completed"
  using assms by (auto elim!: journal_run_snocE)

section \<open>The books\<close>

definition verdict_recorded ::
  "(real \<Rightarrow> string) \<Rightarrow> (string \<Rightarrow> real option) \<Rightarrow> corpus \<Rightarrow> bool \<Rightarrow> case_result \<Rightarrow> progress_row \<times> progress_row \<Rightarrow> bool" where
  "verdict_recorded fr fp contracts reuse r = (\<lambda>(ref, cand).
     p_case_id ref = r_case_id r \<and> p_case_id cand = r_case_id r \<and>
     (reuse \<longrightarrow> p_observation cand = p_observation ref) \<and>
     (\<exists>c. map_of contracts (r_contract r) = Some c \<and>
        compare_observations fr fp (p_observation ref) (p_observation cand) c =
          Inr (r_passed r, r_difference r)))"

definition books ::
  "(real \<Rightarrow> string) \<Rightarrow> (string \<Rightarrow> real option) \<Rightarrow> run_config \<Rightarrow> nat \<Rightarrow> bool \<Rightarrow> case_result list \<Rightarrow>
     (string \<times> string) list \<Rightarrow> nat \<Rightarrow> progress_row list \<Rightarrow> progress_row list \<Rightarrow> bool" where
  "books fr fp cf n reuse results unsupported queries rrows crows \<longleftrightarrow>
     subseq (map r_case_id results) (map k_id (take n (cf_selected cf))) \<and>
     subseq (map fst unsupported) (map k_id (take n (cf_selected cf))) \<and>
     mset (map r_case_id results) + mset (map fst unsupported) = mset (map k_id (take n (cf_selected cf))) \<and>
     queries = (if reuse then 1 else 2) * length results \<and>
     length rrows = length crows \<and>
     list_all2 (verdict_recorded fr fp (cf_contracts cf) reuse) results (zip rrows crows)"

lemma books_init: "books fr fp cf 0 reuse [] [] 0 [] []"
  by (simp add: books_def)

lemma take_Suc_id:
  "n < length xs \<Longrightarrow> map k_id (take (Suc n) xs) = map k_id (take n xs) @ [k_id (xs ! n)]"
  by (simp add: take_Suc_conv_app_nth)

lemma books_unsupported:
  assumes "books fr fp cf n reuse results unsupported queries rrows crows"
    and "n < length (cf_selected cf)"
  shows "books fr fp cf (Suc n) reuse results (unsupported @ [(k_id (cf_selected cf ! n), reason)])
    queries rrows crows"
  using assms unfolding books_def take_Suc_id [OF assms(2)]
  by (auto simp: list_emb_append_mono list_emb_prefix)

lemma books_result:
  assumes "books fr fp cf n reuse results unsupported queries rrows crows"
    and "n < length (cf_selected cf)" and "r_case_id r = k_id (cf_selected cf ! n)"
    and "verdict_recorded fr fp (cf_contracts cf) reuse r (ref, cand)"
  shows "books fr fp cf (Suc n) reuse (results @ [r]) unsupported
    (queries + (if reuse then 1 else 2)) (rrows @ [ref]) (crows @ [cand])"
  using assms unfolding books_def take_Suc_id [OF assms(2)]
  by (auto simp: list_emb_append_mono list_all2_appendI)

section \<open>States between and within cases\<close>

lemma persisted_fields [simp]:
  "v_world (persisted cf st e ck s) = v_world s"
  "v_reference (persisted cf st e ck s) = v_reference s"
  "v_candidate (persisted cf st e ck s) = v_candidate s"
  "v_reference_name (persisted cf st e ck s) = v_reference_name s"
  "v_candidate_name (persisted cf st e ck s) = v_candidate_name s"
  "v_reuse (persisted cf st e ck s) = v_reuse s"
  "v_position (persisted cf st e ck s) = v_position s"
  "v_current (persisted cf st e ck s) = v_current s"
  "v_results (persisted cf st e ck s) = v_results s"
  "v_unsupported (persisted cf st e ck s) = v_unsupported s"
  "v_raw_reference (persisted cf st e ck s) = v_raw_reference s"
  "v_raw_candidate (persisted cf st e ck s) = v_raw_candidate s"
  "v_queries (persisted cf st e ck s) = v_queries s"
  "v_journal (persisted cf st e ck s) = v_journal s"
  "v_reference_rows (persisted cf st e ck s) = v_reference_rows s"
  "v_candidate_rows (persisted cf st e ck s) = v_candidate_rows s"
  "v_state_file (persisted cf st e ck s) = Some (state_doc cf st e s)"
  by (simp_all add: persisted_def Let_def)

definition at_phase :: "phase \<Rightarrow> nat \<Rightarrow> ('r, 'w) run_state \<Rightarrow> bool" where
  "at_phase ph n s \<longleftrightarrow> journal_run (v_journal s) ph \<and> v_position s = n"

definition kept ::
  "(real \<Rightarrow> string) \<Rightarrow> (string \<Rightarrow> real option) \<Rightarrow> run_config \<Rightarrow> nat \<Rightarrow> nat \<Rightarrow> progress_row list \<Rightarrow>
     progress_row list \<Rightarrow> ('r, 'w) run_state \<Rightarrow> bool" where
  "kept fr fp cf n queries rrows crows s \<longleftrightarrow>
     books fr fp cf n (v_reuse s) (v_results s) (v_unsupported s) queries rrows crows"

definition idle ::
  "(real \<Rightarrow> string) \<Rightarrow> (string \<Rightarrow> real option) \<Rightarrow> run_config \<Rightarrow> nat \<Rightarrow> ('r, 'w) run_state \<Rightarrow> bool" where
  "idle fr fp cf n s \<longleftrightarrow>
     at_phase (Idle n) n s \<and> kept fr fp cf n (v_queries s) (v_reference_rows s) (v_candidate_rows s) s"

definition started ::
  "(real \<Rightarrow> string) \<Rightarrow> (string \<Rightarrow> real option) \<Rightarrow> run_config \<Rightarrow> nat \<Rightarrow> bench_case \<Rightarrow> ('r, 'w) run_state \<Rightarrow> bool" where
  "started fr fp cf n c s \<longleftrightarrow>
     at_phase (Started (Suc n) (k_id c)) (Suc n) s \<and>
     kept fr fp cf n (v_queries s) (v_reference_rows s) (v_candidate_rows s) s"

definition row :: "nat \<Rightarrow> bench_case \<Rightarrow> pv \<Rightarrow> progress_row" where
  "row pos c obs =
     \<lparr>p_case_id = k_id c, p_contract = k_contract c, p_position = pos, p_observation = obs\<rparr>"

definition half ::
  "(real \<Rightarrow> string) \<Rightarrow> (string \<Rightarrow> real option) \<Rightarrow> run_config \<Rightarrow> nat \<Rightarrow> bench_case \<Rightarrow> pv \<Rightarrow> ('r, 'w) run_state \<Rightarrow> bool" where
  "half fr fp cf n c ref s \<longleftrightarrow>
     at_phase (HalfObserved (Suc n) (k_id c)) (Suc n) s \<and>
     (\<exists>queries rrows. v_queries s = queries + 1 \<and> v_reference_rows s = rrows @ [row (Suc n) c ref] \<and>
        kept fr fp cf n queries rrows (v_candidate_rows s) s)"

definition full ::
  "(real \<Rightarrow> string) \<Rightarrow> (string \<Rightarrow> real option) \<Rightarrow> run_config \<Rightarrow> nat \<Rightarrow> bench_case \<Rightarrow> pv \<Rightarrow> pv \<Rightarrow> ('r, 'w) run_state \<Rightarrow> bool" where
  "full fr fp cf n c ref cand s \<longleftrightarrow>
     at_phase (FullyObserved (Suc n) (k_id c)) (Suc n) s \<and> (v_reuse s \<longrightarrow> cand = ref) \<and>
     (\<exists>queries rrows crows. v_queries s = queries + (if v_reuse s then 1 else 2) \<and>
        v_reference_rows s = rrows @ [row (Suc n) c ref] \<and>
        v_candidate_rows s = crows @ [row (Suc n) c cand] \<and>
        kept fr fp cf n queries rrows crows s)"

text \<open>What every raising computation within the loop leaves behind.\<close>

definition broken :: "exn \<Rightarrow> ('r, 'w) run_state \<Rightarrow> bool" where
  "broken e s \<longleftrightarrow> (\<exists>ph. journal_run (v_journal s) ph \<and> open_at (v_position s) ph)"

lemmas case_states = idle_def started_def half_def full_def at_phase_def kept_def

lemma at_phase_broken: "journal_run (v_journal s) ph \<Longrightarrow> open_at (v_position s) ph \<Longrightarrow> broken e s"
  by (auto simp: broken_def)

lemma idle_broken: "idle fr fp cf n s \<Longrightarrow> broken e s"
  by (auto simp: case_states intro: at_phase_broken)

lemma started_broken: "started fr fp cf n c s \<Longrightarrow> broken e s"
  by (auto simp: case_states intro: at_phase_broken)

lemma half_broken: "half fr fp cf n c ref s \<Longrightarrow> broken e s"
  by (auto simp: case_states intro: at_phase_broken)

lemma full_broken: "full fr fp cf n c ref cand s \<Longrightarrow> broken e s"
  by (auto simp: case_states intro: at_phase_broken)

section \<open>The steps of a case\<close>

lemma start_case_triple:
  "triple (idle fr fp cf n) (start_case cf (Suc n) c) (\<lambda>_. started fr fp cf n c) broken"
  by (auto simp: triple_def start_case_def eseq_eq log_event_def persist_def case_states
      intro: journal_appends)

lemma record_unsupported_triple:
  assumes "n < length (cf_selected cf)" and "c = cf_selected cf ! n"
  shows "triple (started fr fp cf n c) (record_unsupported cf (Suc n) c reason)
    (\<lambda>_. idle fr fp cf (Suc n)) broken"
  using assms
  by (auto simp: triple_def record_unsupported_def eseq_eq log_event_def persist_def case_states
      intro: journal_appends books_unsupported)

lemma on_reference_keeps:
  "on_reference op s = (r, t) \<Longrightarrow>
     \<exists>ref w. t = s\<lparr>v_reference := ref, v_world := w\<rparr>"
  by (auto simp: on_reference_def split: option.splits prod.splits)
     (metis run_state.surjective run_state.update_convs(1,2))

lemma on_candidate_keeps:
  "on_candidate op s = (r, t) \<Longrightarrow>
     \<exists>cand w. t = s\<lparr>v_candidate := cand, v_world := w\<rparr>"
  by (auto simp: on_candidate_def split: option.splits prod.splits)
     (metis run_state.surjective run_state.update_convs(1,3))

lemma on_reference_started:
  "triple (started fr fp cf n c) (on_reference op) (\<lambda>_. started fr fp cf n c) broken"
  by (intro tripleI; drule on_reference_keeps; elim exE)
     (auto simp: case_states broken_def intro: exI [of _ "Started (Suc n) (k_id c)"])

lemma on_candidate_half:
  "triple (half fr fp cf n c ref) (on_candidate op) (\<lambda>_. half fr fp cf n c ref) broken"
  by (intro tripleI; drule on_candidate_keeps; elim exE)
     (auto simp: case_states broken_def intro: exI [of _ "HalfObserved (Suc n) (k_id c)"])

lemma observe_reference_triple:
  "triple (started fr fp cf n c) (observe_reference env cf (Suc n) c) (half fr fp cf n c) broken"
proof -
  have "triple (started fr fp cf n c)
     (eseq (emodify (\<lambda>s. s\<lparr>v_queries := v_queries s + 1,
               v_raw_reference := AList.update (k_id c) obs (v_raw_reference s),
               v_reference_rows := v_reference_rows s @
                 [\<lparr>p_case_id = k_id c, p_contract = k_contract c, p_position = Suc n, p_observation = obs\<rparr>]\<rparr>))
         (eseq (log_event (ReferenceObserved (Suc n) (k_id c) (status_of obs)))
           (eseq (persist cf ''running'' None False) (eret obs)))) (half fr fp cf n c) broken" for obs
    by (auto simp: triple_def eseq_eq log_event_def persist_def case_states row_def
        intro: journal_appends)
  then show ?thesis
    unfolding observe_reference_def by (intro triple_bind [OF on_reference_started])
qed

lemma observe_candidate_triple:
  "triple (half fr fp cf n c ref) (observe_candidate env (Suc n) c ref) (full fr fp cf n c ref) broken"
proof (rule tripleI)
  fix s cand t assume h: "half fr fp cf n c ref s"
    and o: "observe_candidate env (Suc n) c ref s = (Inr cand, t)"
  show "full fr fp cf n c ref cand t"
  proof (cases "v_reuse s")
    case True
    then show ?thesis
      using h o by (auto simp: observe_candidate_def ebind_eq eseq_eq case_states row_def
          intro: journal_appends)
  next
    case False
    then obtain t1 where e: "on_candidate (execute env c) s = (Inr cand, t1)"
      and t: "t = t1\<lparr>v_queries := v_queries t1 + 1,
               v_raw_candidate := AList.update (k_id c) cand (v_raw_candidate t1),
               v_candidate_rows := v_candidate_rows t1 @ [row (Suc n) c cand],
               v_journal := v_journal t1 @ [CandidateObserved (Suc n) (k_id c) (status_of cand) (v_reuse t1)]\<rparr>"
      using o by (auto simp: observe_candidate_def ebind_eq eseq_eq row_def split: prod.splits sum.splits)
    have "half fr fp cf n c ref t1" by (rule triple_Inr [OF on_candidate_half h e])
    moreover have "\<not> v_reuse t1" using on_candidate_keeps [OF e] False by auto
    ultimately show ?thesis
      unfolding t by (auto simp: case_states intro: journal_appends)
  qed
next
  fix s e t assume h: "half fr fp cf n c ref s"
    and o: "observe_candidate env (Suc n) c ref s = (Inl e, t)"
  then have "on_candidate (execute env c) s = (Inl e, t)"
    by (auto simp: observe_candidate_def ebind_eq eseq_eq split: prod.splits sum.splits if_splits)
  then show "broken e t" by (rule triple_Inl [OF on_candidate_half h])
qed

lemma complete_case_triple:
  assumes "n < length (cf_selected cf)" and "c = cf_selected cf ! n"
    and "map_of (cf_contracts cf) (k_contract c) = Some contract"
  shows "triple (full fr fp cf n c ref cand) (complete_case fr fp cf (Suc n) c contract ref cand)
    (\<lambda>_. idle fr fp cf (Suc n)) broken"
proof (rule tripleI)
  fix s u t assume f: "full fr fp cf n c ref cand s"
    and o: "complete_case fr fp cf (Suc n) c contract ref cand s = (Inr u, t)"
  then obtain passed difference where v: "compare_observations fr fp ref cand contract = Inr (passed, difference)"
    and t: "t = persisted cf ''running'' None False
      (s\<lparr>v_results := v_results s @ [case_result_of c ref cand passed difference],
         v_journal := v_journal s @ [CaseCompleted (Suc n) (k_id c) passed]\<rparr>)"
    by (auto simp: complete_case_def ebind_eq eseq_eq log_event_def persist_def split: sum.splits prod.splits)
  have "verdict_recorded fr fp (cf_contracts cf) (v_reuse s) (case_result_of c ref cand passed difference)
      (row (Suc n) c ref, row (Suc n) c cand)"
    using f v assms(3) by (auto simp: verdict_recorded_def case_result_of_def row_def full_def)
  obtain queries rrows crows where k: "v_queries s = queries + (if v_reuse s then 1 else 2)"
    "v_reference_rows s = rrows @ [row (Suc n) c ref]" "v_candidate_rows s = crows @ [row (Suc n) c cand]"
    "books fr fp cf n (v_reuse s) (v_results s) (v_unsupported s) queries rrows crows"
    using f by (auto simp: full_def kept_def)
  have "r_case_id (case_result_of c ref cand passed difference) = k_id (cf_selected cf ! n)"
    by (simp add: case_result_of_def assms(2))
  from books_result [OF k(4) assms(1) this \<open>verdict_recorded _ _ _ _ _ _\<close>]
  show "idle fr fp cf (Suc n) t"
    using f k(1-3) unfolding t by (auto simp: case_states intro: journal_appends)
next
  fix s e t assume f: "full fr fp cf n c ref cand s"
    and o: "complete_case fr fp cf (Suc n) c contract ref cand s = (Inl e, t)"
  then have "t = s"
    by (auto simp: complete_case_def ebind_eq eseq_eq log_event_def persist_def split: sum.splits prod.splits)
  then show "broken e t" using f full_broken by blast
qed

lemma ebind_lift: "ebind (elift (Inr x)) f = f x"
  by (simp add: fun_eq_iff ebind_eq)

lemma run_case_triple:
  assumes "n < length (cf_selected cf)" and "c = cf_selected cf ! n"
  shows "triple (idle fr fp cf n) (run_case env fr fp cf (Suc n, c)) (\<lambda>_. idle fr fp cf (Suc n)) broken"
proof -
  have known: "triple (started fr fp cf n c)
     (ebind (elift (lookup_contract (cf_contracts cf) (k_contract c))) (\<lambda>contract.
             ebind (observe_reference env cf (Suc n) c) (\<lambda>ref.
               ebind (observe_candidate env (Suc n) c ref) (\<lambda>cand.
                 complete_case fr fp cf (Suc n) c contract ref cand))))
     (\<lambda>_. idle fr fp cf (Suc n)) broken"
  proof (cases "map_of (cf_contracts cf) (k_contract c)")
    case None
    then show ?thesis
      by (auto simp: triple_def ebind_eq lookup_contract_def intro: started_broken)
  next
    case (Some contract)
    show ?thesis
      unfolding lookup_contract_def Some option.case ebind_lift
      by (rule triple_bind [OF observe_reference_triple
          triple_bind [OF observe_candidate_triple complete_case_triple [OF assms Some]]])
  qed
  show ?thesis
    unfolding run_case_def prod.case
    by (rule triple_seq [OF start_case_triple triple_option [OF known record_unsupported_triple [OF assms]]])
qed

end
