(* ===== verification/ScoringFacts.thy ===== *)
theory ScoringFacts
  imports Scoring
begin

text \<open>
  What the scores mean: the ranges of the means, when OSCorrect is one and when it is zero, its
  monotonicity in the case results, and the contiguous prefix that the depth reports.
\<close>

section \<open>Means\<close>

lemma pass_fraction_range: "0 \<le> pass_fraction ps" "pass_fraction ps \<le> 1"
  by (simp_all add: pass_fraction_def divide_le_eq_1 length_filter_le)

lemma pass_fraction_eq_1_iff: "pass_fraction ps = 1 \<longleftrightarrow> ps \<noteq> [] \<and> (\<forall>p\<in>set ps. p)"
proof -
  have "length (filter (\<lambda>b. b) ps) = length ps \<longleftrightarrow> (\<forall>p\<in>set ps. p)"
    by (metis filter_True filter_id_conv length_filter_less less_irrefl)
  then show ?thesis by (auto simp: pass_fraction_def)
qed

lemma filter_length_mono: "list_all2 (\<longrightarrow>) ps qs \<Longrightarrow> length (filter (\<lambda>b. b) ps) \<le> length (filter (\<lambda>b. b) qs)"
  by (induction rule: list_all2_induct) auto

lemma pass_fraction_mono: "list_all2 (\<longrightarrow>) ps qs \<Longrightarrow> pass_fraction ps \<le> pass_fraction qs"
  using filter_length_mono [of ps qs]
  by (auto simp: pass_fraction_def list_all2_lengthD intro: divide_right_mono)

lemma mean_range:
  assumes "\<And>x. x \<in> set xs \<Longrightarrow> 0 \<le> x \<and> x \<le> (1::real)"
  shows "0 \<le> mean xs" "mean xs \<le> 1"
  using assms sum_list_le_length [of xs "\<lambda>x. x"]
  by (auto simp: mean_def divide_le_eq_1 intro!: divide_nonneg_nonneg sum_list_nonneg)

lemma mean_eq_1_iff:
  assumes "\<And>x. x \<in> set xs \<Longrightarrow> x \<le> (1::real)" and "xs \<noteq> []"
  shows "mean xs = 1 \<longleftrightarrow> (\<forall>x\<in>set xs. x = 1)"
proof -
  have "mean xs = 1 \<longleftrightarrow> sum_list (map (\<lambda>x. x) xs) = real (length xs)" using assms(2) by (auto simp: mean_def)
  then show ?thesis using sum_list_eq_length_iff [of xs "\<lambda>x. x"] assms(1) by blast
qed

section \<open>Scores of Contracts\<close>

text \<open>A Contract is solved when it has results and all of them passed.\<close>

definition solved :: "case_result list \<Rightarrow> string \<Rightarrow> bool" where
  "solved results i \<longleftrightarrow>
     i \<in> r_contract ` set results \<and> (\<forall>r\<in>set results. r_contract r = i \<longrightarrow> r_passed r)"

lemma contract_score:
  "dict_get (contract_scores results) i 0 =
     pass_fraction (map r_passed (filter (\<lambda>r. r_contract r = i) results))"
  by (auto simp: contract_scores_def dict_get_def map_of_map_values dict_simps pass_fraction_def
      filter_empty_conv)

lemma contract_score_range:
  "0 \<le> dict_get (contract_scores results) i 0" "dict_get (contract_scores results) i 0 \<le> 1"
  by (simp_all add: contract_score pass_fraction_range)

lemma contract_score_keys: "fst ` set (contract_scores results) = r_contract ` set results"
proof -
  have "fst ` set (contract_scores results) = fst ` set (group_by r_contract r_passed results)"
    by (force simp: contract_scores_def)
  then show ?thesis by (simp add: dict_simps)
qed

lemma contract_score_eq_1_iff: "dict_get (contract_scores results) i 0 = 1 \<longleftrightarrow> solved results i"
  by (auto simp: contract_score pass_fraction_eq_1_iff solved_def filter_empty_conv)

lemma contract_score_ge_1_iff: "1 \<le> dict_get (contract_scores results) i 0 \<longleftrightarrow> solved results i"
  using contract_score_range(2) [of results i] contract_score_eq_1_iff [of results i] by linarith

lemma level_score_range:
  "0 \<le> level_score (contract_scores results) ids" "level_score (contract_scores results) ids \<le> 1"
  by (auto simp: level_score_def contract_score_range intro!: mean_range)

lemma level_score_eq_1_iff:
  "level_score (contract_scores results) ids = 1 \<longleftrightarrow> ids \<noteq> [] \<and> (\<forall>i\<in>set ids. solved results i)"
proof -
  let ?xs = "map (\<lambda>i. dict_get (contract_scores results) i 0) ids"
  have "mean ?xs = 1 \<longleftrightarrow> (\<forall>x\<in>set ?xs. x = 1)" if "ids \<noteq> []"
    using that by (intro mean_eq_1_iff) (auto simp: contract_score_range)
  then show ?thesis by (auto simp: level_score_def contract_score_eq_1_iff)
qed

lemma boot_gate_eq:
  "boot_gate (contract_scores results) ids =
     (if ids \<noteq> [] \<and> (\<forall>i\<in>set ids. solved results i) then 1 else 0)"
  by (auto simp: boot_gate_def contract_score_ge_1_iff contract_score_keys list_all_iff solved_def)

section \<open>The geometric mean\<close>

definition good_values :: "(real \<times> real) list \<Rightarrow> bool" where
  "good_values vs \<longleftrightarrow> vs \<noteq> [] \<and> (\<forall>(v, w)\<in>set vs. 0 \<le> v \<and> v \<le> 1 \<and> 0 < w)"

definition log_total :: "real \<Rightarrow> (real \<times> real) list \<Rightarrow> real" where
  "log_total eps vs = sum_list (map (\<lambda>(v, w). w * ln (max v eps)) vs)"

lemma log_total_Cons: "log_total eps ((v, w) # vs) = w * ln (max v eps) + log_total eps vs"
  by (simp add: log_total_def)

lemma log_sum_eq: "0 < eps \<Longrightarrow> log_sum eps vs = Inr (log_total eps vs)"
  by (induction vs) (auto simp: log_total_def positive_log_def)

lemma weight_sum_pos: "good_values vs \<Longrightarrow> 0 < sum_list (map snd vs)"
proof (induction vs)
  case (Cons vw vs)
  then show ?case
    by (cases "vs = []") (auto simp: good_values_def intro: add_pos_pos)
qed (simp add: good_values_def)

lemma geometric_eq:
  "good_values vs \<Longrightarrow> 0 < eps \<Longrightarrow>
     geometric vs eps = Inr (exp (log_total eps vs / sum_list (map snd vs)))"
  using weight_sum_pos [of vs] by (simp add: geometric_def log_sum_eq Let_def good_values_def not_le)

lemma log_term:
  assumes "0 \<le> v" "v \<le> 1" "0 < w" "0 < eps" "eps < (1::real)"
  shows "w * ln (max v eps) \<le> 0" and "w * ln (max v eps) = 0 \<longleftrightarrow> v = 1"
proof -
  have m: "0 < max v eps" "max v eps \<le> 1" using assms by auto
  then have "ln (max v eps) \<le> 0" by simp
  then show "w * ln (max v eps) \<le> 0" using assms by (simp add: mult_le_0_iff)
  have "ln (max v eps) = 0 \<longleftrightarrow> max v eps = 1" using m by (simp add: ln_eq_zero_iff)
  then show "w * ln (max v eps) = 0 \<longleftrightarrow> v = 1" using assms by auto
qed

lemma log_total_le_0:
  "\<forall>(v, w)\<in>set vs. 0 \<le> v \<and> v \<le> 1 \<and> 0 < w \<Longrightarrow> 0 < eps \<Longrightarrow> eps < 1 \<Longrightarrow>
     log_total eps vs \<le> 0 \<and> (log_total eps vs = 0 \<longleftrightarrow> (\<forall>(v, w)\<in>set vs. v = 1))"
proof (induction vs)
  case (Cons vw vs)
  obtain v w where [simp]: "vw = (v, w)" by (cases vw)
  have t: "w * ln (max v eps) \<le> 0" "w * ln (max v eps) = 0 \<longleftrightarrow> v = 1"
    using Cons.prems by (auto intro!: log_term)
  have IH: "log_total eps vs \<le> 0" "log_total eps vs = 0 \<longleftrightarrow> (\<forall>(v, w)\<in>set vs. v = 1)"
    using Cons by auto
  have sum: "log_total eps (vw # vs) = w * ln (max v eps) + log_total eps vs"
    by (simp add: log_total_def)
  have "log_total eps (vw # vs) = 0 \<longleftrightarrow> w * ln (max v eps) = 0 \<and> log_total eps vs = 0"
    unfolding sum using t(1) IH(1) by linarith
  moreover have "log_total eps (vw # vs) \<le> 0" unfolding sum using t(1) IH(1) by linarith
  ultimately show ?case using t(2) IH(2) by simp
qed (simp add: log_total_def)

lemma geometric_range:
  assumes "good_values vs" "0 < eps" "eps < 1"
  obtains g where "geometric vs eps = Inr g" "0 < g" "g \<le> 1" "g = 1 \<longleftrightarrow> (\<forall>(v, w)\<in>set vs. v = 1)"
proof -
  have lt: "log_total eps vs \<le> 0" "log_total eps vs = 0 \<longleftrightarrow> (\<forall>(v, w)\<in>set vs. v = 1)"
    using log_total_le_0 [of vs eps] assms by (auto simp: good_values_def)
  let ?g = "exp (log_total eps vs / sum_list (map snd vs))"
  have pos: "0 < sum_list (map snd vs)" by (rule weight_sum_pos [OF assms(1)])
  then have "log_total eps vs / sum_list (map snd vs) \<le> 0"
    using lt(1) by (simp add: divide_le_0_iff)
  moreover have "?g = 1 \<longleftrightarrow> log_total eps vs = 0" using pos by simp
  ultimately show ?thesis using that [of ?g] geometric_eq [OF assms(1,2)] lt(2) by simp
qed

lemma geometric_mono:
  assumes "list_all2 (\<lambda>(v, w) (v', w'). v \<le> v' \<and> w = w') vs vs'"
    and "good_values vs" "good_values vs'" "0 < eps"
    and "geometric vs eps = Inr g" "geometric vs' eps = Inr g'"
  shows "g \<le> g'"
proof -
  have le: "log_total eps vs \<le> log_total eps vs' \<and> map snd vs = map snd vs'"
    using assms(1,2,4)
  proof (induction rule: list_all2_induct)
    case (Cons x xs y ys)
    obtain v w v' where xy: "x = (v, w)" "y = (v', w)" "v \<le> v'" "0 < w"
      using Cons.hyps(1) Cons.prems by (cases x; cases y) (auto simp: good_values_def)
    have "ln (max v eps) \<le> ln (max v' eps)" using xy(3) Cons.prems(2) by auto
    then have "w * ln (max v eps) \<le> w * ln (max v' eps)" using xy(4) by simp
    moreover have "log_total eps xs \<le> log_total eps ys \<and> map snd xs = map snd ys"
    proof (cases "xs = []")
      case False
      then show ?thesis using Cons by (auto simp: good_values_def)
    qed (use Cons.hyps(2) in \<open>simp add: log_total_def\<close>)
    ultimately show ?case unfolding xy(1,2) log_total_Cons by (intro conjI) (linarith, simp)
  qed (simp add: log_total_def)
  then have "log_total eps vs / sum_list (map snd vs) \<le> log_total eps vs' / sum_list (map snd vs')"
    using weight_sum_pos [OF assms(3)] by (auto intro: divide_right_mono)
  then show ?thesis using assms(5,6) geometric_eq assms(2,3,4) by auto
qed

section \<open>Weighted levels\<close>

definition good_config :: "scoring_config \<Rightarrow> bool" where
  "good_config conf \<longleftrightarrow>
     0 < sc_epsilon conf \<and> sc_epsilon conf < 1 \<and>
     list_all (\<lambda>l. case map_of (sc_weights conf) l of None \<Rightarrow> False | Some w \<Rightarrow> 0 < w) LEVELS"

lemma weigh_eq:
  "\<forall>(l, v)\<in>set lvs. l \<in> dom (map_of weights) \<Longrightarrow>
     weigh weights lvs = Inr (map (\<lambda>(l, v). (v, the (map_of weights l))) lvs)"
  by (induction lvs) (auto split: option.split)

lemma good_config_weight:
  assumes "good_config conf" "l \<in> set LEVELS"
  shows "l \<in> dom (map_of (sc_weights conf))" "0 < the (map_of (sc_weights conf) l)"
proof -
  have "case map_of (sc_weights conf) l of None \<Rightarrow> False | Some w \<Rightarrow> 0 < w"
    using assms by (simp add: good_config_def list_all_iff)
  then show "l \<in> dom (map_of (sc_weights conf))" "0 < the (map_of (sc_weights conf) l)"
    by (auto split: option.splits)
qed

definition weighted_levels :: "scoring_config \<Rightarrow> corpus \<Rightarrow> case_result list \<Rightarrow> (real \<times> real) list" where
  "weighted_levels conf contracts results =
     map (\<lambda>l. (level_score (contract_scores results) (ids_at contracts (\<lambda>m. m = l)),
               the (map_of (sc_weights conf) l))) LEVELS"

lemma good_weighted_levels: "good_config conf \<Longrightarrow> good_values (weighted_levels conf contracts results)"
  using LEVELS_facts(3)
  by (auto simp: good_values_def weighted_levels_def level_score_range good_config_weight)

lemma observed_level_score_range:
  "observed_level_score (contract_scores results) ids = Some v \<Longrightarrow> 0 \<le> v \<and> v \<le> 1"
  by (auto simp: observed_level_score_def Let_def contract_score_range split: if_splits
      intro!: mean_range)

lemma geometric_total: "good_values vs \<or> vs = [] \<Longrightarrow> 0 < eps \<Longrightarrow> \<exists>g. geometric vs eps = Inr g"
  using geometric_eq by (auto simp: geometric_def)

text \<open>The score exists and its OSCorrect is the boot gate times the weighted geometric mean.\<close>

lemma score_results_ok:
  assumes "good_config conf" and "unknown_contract contracts results = None"
  shows "\<exists>s g. score_results fg conf results contracts profile = Inr s \<and>
    geometric (weighted_levels conf contracts results) (sc_epsilon conf) = Inr g \<and>
    s_boot_gate s = boot_gate (contract_scores results) (ids_at contracts (\<lambda>l. l = ''boot'')) \<and>
    s_oscorrect s = s_boot_gate s * g \<and>
    s_depth90 s = depth (contract_scores results) contracts (sc_threshold conf) False"
proof -
  let ?cs = "contract_scores results"
  let ?ids = "\<lambda>l. ids_at contracts (\<lambda>m. m = l)"
  let ?observed = "filter (\<lambda>(_, v). v \<noteq> None) (map (\<lambda>l. (l, observed_level_score ?cs (?ids l))) LEVELS)"
  let ?ow = "map (\<lambda>(l, v). (v, the (map_of (sc_weights conf) l))) (map (\<lambda>(l, v). (l, the v)) ?observed)"
  have eps: "0 < sc_epsilon conf" using assms(1) by (simp add: good_config_def)
  have w: "weigh (sc_weights conf) (map (\<lambda>l. (l, level_score ?cs (?ids l))) LEVELS) =
      Inr (weighted_levels conf contracts results)"
    using weigh_eq [of "map (\<lambda>l. (l, level_score ?cs (?ids l))) LEVELS" "sc_weights conf"]
      good_config_weight(1) [OF assms(1)]
    by (simp add: weighted_levels_def comp_def)
  have ow: "weigh (sc_weights conf) (map (\<lambda>(l, v). (l, the v)) ?observed) = Inr ?ow"
    using good_config_weight(1) [OF assms(1)] by (intro weigh_eq) force
  have "0 \<le> v \<and> v \<le> 1 \<and> 0 < w" if vw: "(v, w) \<in> set ?ow" for v w
  proof -
    obtain l where "l \<in> set LEVELS" "observed_level_score ?cs (?ids l) \<noteq> None"
      "v = the (observed_level_score ?cs (?ids l))" "w = the (map_of (sc_weights conf) l)"
      using vw by (auto dest: sym)
    then show ?thesis using observed_level_score_range good_config_weight(2) [OF assms(1)] by auto
  qed
  then have "good_values ?ow \<or> ?ow = []" unfolding good_values_def by blast
  then obtain og where og: "geometric ?ow (sc_epsilon conf) = Inr og"
    using geometric_total eps by blast
  obtain g where g: "geometric (weighted_levels conf contracts results) (sc_epsilon conf) = Inr g"
    using geometric_total good_weighted_levels [OF assms(1)] eps by blast
  show ?thesis
    unfolding score_results_def assms(2) option.case Let_def w rbind_simps ow g og by simp
qed

section \<open>OSCorrect\<close>

definition fully_correct :: "corpus \<Rightarrow> case_result list \<Rightarrow> bool" where
  "fully_correct contracts results \<longleftrightarrow>
     (\<forall>l\<in>set LEVELS. \<exists>i c. (i, c) \<in> set contracts \<and> c_level c = l) \<and>
     (\<forall>i c. (i, c) \<in> set contracts \<longrightarrow> c_level c \<in> set LEVELS \<longrightarrow> solved results i)"

definition boots :: "corpus \<Rightarrow> case_result list \<Rightarrow> bool" where
  "boots contracts results \<longleftrightarrow>
     (\<exists>i c. (i, c) \<in> set contracts \<and> c_level c = ''boot'') \<and>
     (\<forall>i c. (i, c) \<in> set contracts \<longrightarrow> c_level c = ''boot'' \<longrightarrow> solved results i)"

lemma set_ids_at: "set (ids_at contracts P) = {i | i c. (i, c) \<in> set contracts \<and> P (c_level c)}"
  by (force simp: ids_at_def)

lemma ids_at_Nil_iff: "ids_at contracts P = [] \<longleftrightarrow> (\<forall>i c. (i, c) \<in> set contracts \<longrightarrow> \<not> P (c_level c))"
  unfolding set_empty [symmetric] set_ids_at by auto

lemma unknown_contract_None_iff:
  "unknown_contract contracts results = None \<longleftrightarrow> r_contract ` set results \<subseteq> fst ` set contracts"
  by (auto simp: unknown_contract_def find_None_iff)

lemma boot_gate_boots:
  "boot_gate (contract_scores results) (ids_at contracts (\<lambda>l. l = ''boot'')) =
     (if boots contracts results then 1 else 0)"
  by (auto simp: boot_gate_eq boots_def ids_at_Nil_iff set_ids_at)

lemma weighted_levels_all_1:
  "(\<forall>(v, w)\<in>set (weighted_levels conf contracts results). v = 1) \<longleftrightarrow> fully_correct contracts results"
  by (auto simp: weighted_levels_def level_score_eq_1_iff ids_at_Nil_iff set_ids_at fully_correct_def)

lemma fully_correct_boots: "fully_correct contracts results \<Longrightarrow> boots contracts results"
  by (auto simp: fully_correct_def boots_def LEVELS_def)

lemma score_meaning:
  assumes "good_config conf" and "unknown_contract contracts results = None"
  shows "\<exists>s. score_results fg conf results contracts profile = Inr s \<and>
    0 \<le> s_oscorrect s \<and> s_oscorrect s \<le> 1 \<and>
    (s_oscorrect s = 1 \<longleftrightarrow> fully_correct contracts results) \<and>
    (s_oscorrect s = 0 \<longleftrightarrow> \<not> boots contracts results)"
proof -
  obtain s g where s: "score_results fg conf results contracts profile = Inr s"
    "geometric (weighted_levels conf contracts results) (sc_epsilon conf) = Inr g"
    "s_oscorrect s = (if boots contracts results then 1 else 0) * g"
    using score_results_ok [OF assms] unfolding boot_gate_boots by force
  obtain g' where "geometric (weighted_levels conf contracts results) (sc_epsilon conf) = Inr g'"
    "0 < g'" "g' \<le> 1" "g' = 1 \<longleftrightarrow> fully_correct contracts results"
    using geometric_range [OF good_weighted_levels [OF assms(1)]] assms(1)
    unfolding weighted_levels_all_1 good_config_def by metis
  then have g: "0 < g" "g \<le> 1" "g = 1 \<longleftrightarrow> fully_correct contracts results" using s(2) by simp_all
  show ?thesis
    using s(1,3) g fully_correct_boots by (intro exI [of _ s]) auto
qed

text \<open>
  C32. With a configuration of positive weights and an epsilon between zero and one, the score
  of results on known Contracts is defined and OSCorrect lies between zero and one. It is one
  exactly when every level has a Contract and every Contract of the levels has results that all
  passed, so an unevaluated Contract excludes a perfect score; it is zero exactly when the boot
  gate fails (a boot Contract without results or with a failure, or no boot Contract).
\<close>

theorem oscorrect_meaning:
  assumes "good_config conf" and "unknown_contract contracts results = None"
  shows "\<exists>s. score_results fg conf results contracts profile = Inr s \<and>
    0 \<le> s_oscorrect s \<and> s_oscorrect s \<le> 1 \<and>
    (s_oscorrect s = 1 \<longleftrightarrow> fully_correct contracts results) \<and>
    (s_oscorrect s = 0 \<longleftrightarrow> \<not> boots contracts results)"
  by (rule score_meaning [OF assms])

definition example_config :: scoring_config where
  "example_config =
     \<lparr>sc_epsilon = 1/1000000, sc_threshold = 9/10, sc_weights = map (\<lambda>l. (l, 1)) LEVELS,
      sc_native = [1], sc_official = [(''linux_kvm'', True)]\<rparr>"

lemma example_config_good: "good_config example_config"
  by (simp add: good_config_def example_config_def map_of_map_values comp_def LEVELS_def)

definition example_corpus :: corpus where
  "example_corpus = contracts_by_id (corpus_of example_files)"

definition example_row :: "string \<Rightarrow> bool \<Rightarrow> case_result" where
  "example_row i passed =
     \<lparr>r_case_id = i @ '':1'', r_contract = i, r_domain = ''boot'', r_level = ''boot'', r_family = ''primitive'',
      r_passed = passed, r_difference = None, r_reference_status = PStr ''ok'',
      r_candidate_status = PStr ''ok'', r_ratio = None\<rparr>"

lemma example_corpus_eq:
  "map (\<lambda>(i, c). (i, c_level c)) example_corpus = [(''a'', ''boot''), (''b'', ''boot'')]"
  by code_simp

lemma example_unknown: "unknown_contract example_corpus [example_row ''a'' p, example_row ''b'' q] = None"
proof -
  have "fst ` set example_corpus = set (map fst (map (\<lambda>(i, c). (i, c_level c)) example_corpus))" by force
  then have "fst ` set example_corpus = {''a'', ''b''}" unfolding example_corpus_eq by simp
  then show ?thesis by (simp add: unknown_contract_def example_row_def)
qed

theorem oscorrect_meaning_witness:
  "\<exists>s. score_results (\<lambda>_. []) example_config [example_row ''a'' True, example_row ''b'' False]
      example_corpus ''local'' = Inr s \<and>
    0 \<le> s_oscorrect s \<and> s_oscorrect s \<le> 1 \<and>
    (s_oscorrect s = 1 \<longleftrightarrow> fully_correct example_corpus [example_row ''a'' True, example_row ''b'' False]) \<and>
    (s_oscorrect s = 0 \<longleftrightarrow> \<not> boots example_corpus [example_row ''a'' True, example_row ''b'' False])"
  by (rule oscorrect_meaning [OF example_config_good example_unknown])

section \<open>Monotonicity\<close>

text \<open>The same results, except that some failures became passes.\<close>

definition improves :: "case_result \<Rightarrow> case_result \<Rightarrow> bool" where
  "improves r r' \<longleftrightarrow> r_contract r = r_contract r' \<and> (r_passed r \<longrightarrow> r_passed r')"

lemma improves_filter:
  "list_all2 improves rs rs' \<Longrightarrow>
     list_all2 (\<longrightarrow>) (map r_passed (filter (\<lambda>r. r_contract r = i) rs))
       (map r_passed (filter (\<lambda>r. r_contract r = i) rs'))"
  by (induction rule: list_all2_induct) (auto simp: improves_def)

lemma contract_score_mono:
  "list_all2 improves rs rs' \<Longrightarrow> dict_get (contract_scores rs) i 0 \<le> dict_get (contract_scores rs') i 0"
  unfolding contract_score by (intro pass_fraction_mono improves_filter)

lemma level_score_mono:
  "list_all2 improves rs rs' \<Longrightarrow> level_score (contract_scores rs) ids \<le> level_score (contract_scores rs') ids"
  by (auto simp: level_score_def mean_def contract_score_mono intro!: divide_right_mono sum_list_mono)

lemma boots_mono: "list_all2 improves rs rs' \<Longrightarrow> boots contracts rs \<Longrightarrow> boots contracts rs'"
proof -
  assume a: "list_all2 improves rs rs'" and b: "boots contracts rs"
  have "solved rs' i" if "solved rs i" for i
  proof -
    have "1 \<le> dict_get (contract_scores rs) i 0" using that by (simp add: contract_score_ge_1_iff)
    also have "\<dots> \<le> dict_get (contract_scores rs') i 0" by (rule contract_score_mono [OF a])
    finally show ?thesis by (simp add: contract_score_ge_1_iff)
  qed
  then show ?thesis using b by (auto simp: boots_def)
qed

text \<open>
  OSCorrect never falls when failures become passes: on results that agree except that
  some failed cases passed, the score of the improved results is at least the old one.
\<close>

theorem oscorrect_monotone:
  assumes "good_config conf" and "unknown_contract contracts results = None"
    and "list_all2 improves results results'"
    and "score_results fg conf results contracts profile = Inr s"
    and "score_results fg conf results' contracts profile = Inr s'"
  shows "s_oscorrect s \<le> s_oscorrect s'"
proof -
  have "map r_contract results = map r_contract results'"
    using assms(3) by (induction rule: list_all2_induct) (auto simp: improves_def)
  then have "r_contract ` set results = r_contract ` set results'" by (metis list.set_map)
  then have known': "unknown_contract contracts results' = None"
    using assms(2) by (simp add: unknown_contract_None_iff)
  obtain g where g: "geometric (weighted_levels conf contracts results) (sc_epsilon conf) = Inr g"
    "s_oscorrect s = (if boots contracts results then 1 else 0) * g"
    using score_results_ok [OF assms(1,2), of fg profile] assms(4) unfolding boot_gate_boots by auto
  obtain g' where g': "geometric (weighted_levels conf contracts results') (sc_epsilon conf) = Inr g'"
    "s_oscorrect s' = (if boots contracts results' then 1 else 0) * g'"
    using score_results_ok [OF assms(1) known', of fg profile] assms(5) unfolding boot_gate_boots by auto
  have eps: "0 < sc_epsilon conf" "sc_epsilon conf < 1" using assms(1) by (simp_all add: good_config_def)
  have "list_all2 (\<lambda>(v, w) (v', w'). v \<le> v' \<and> w = w')
      (weighted_levels conf contracts results) (weighted_levels conf contracts results')"
    by (simp add: weighted_levels_def list_all2_map1 list_all2_map2 list_all2_same
        level_score_mono [OF assms(3)])
  then have "g \<le> g'"
    using geometric_mono good_weighted_levels [OF assms(1)] eps(1) g(1) g'(1) by blast
  moreover have "0 < g'"
    using geometric_range [OF good_weighted_levels [OF assms(1)] eps] g'(1) by (metis sum.inject(2))
  ultimately show ?thesis using g(2) g'(2) boots_mono [OF assms(3)] by auto
qed

theorem oscorrect_monotone_witness:
  "\<exists>s s'. score_results (\<lambda>_. []) example_config [example_row ''a'' True, example_row ''b'' False]
       example_corpus ''local'' = Inr s \<and>
     score_results (\<lambda>_. []) example_config [example_row ''a'' True, example_row ''b'' True]
       example_corpus ''local'' = Inr s' \<and> s_oscorrect s \<le> s_oscorrect s'"
proof -
  have imp: "list_all2 improves [example_row ''a'' True, example_row ''b'' False]
      [example_row ''a'' True, example_row ''b'' True]"
    by (simp add: improves_def example_row_def)
  obtain s where s: "score_results (\<lambda>_. []) example_config [example_row ''a'' True, example_row ''b'' False]
      example_corpus ''local'' = Inr s"
    using score_results_ok [OF example_config_good example_unknown] by blast
  obtain s' where s': "score_results (\<lambda>_. []) example_config [example_row ''a'' True, example_row ''b'' True]
      example_corpus ''local'' = Inr s'"
    using score_results_ok [OF example_config_good example_unknown] by blast
  from oscorrect_monotone [OF example_config_good example_unknown imp s s'] s s' show ?thesis by blast
qed

section \<open>Depth\<close>

definition level_flags :: "scores \<Rightarrow> corpus \<Rightarrow> string \<Rightarrow> bool list" where
  "level_flags cs contracts level =
     map (\<lambda>i. 1 \<le> dict_get cs i 0) (ids_at contracts (\<lambda>l. l = level))"

text \<open>Level \<open>n\<close> has Contracts, and enough of those up to and including it are solved.\<close>

definition reaches :: "scores \<Rightarrow> corpus \<Rightarrow> real \<Rightarrow> nat \<Rightarrow> bool" where
  "reaches cs contracts threshold n \<longleftrightarrow>
     level_flags cs contracts (LEVELS ! n) \<noteq> [] \<and>
     threshold \<le> pass_fraction (concat (map (level_flags cs contracts) (take (Suc n) LEVELS)))"

lemma depth_loop_eq:
  assumes "n \<le> length LEVELS"
  shows "depth_loop cs contracts threshold False (drop n LEVELS)
      (concat (map (level_flags cs contracts) (take n LEVELS))) d =
    (let m = length (takeWhile (reaches cs contracts threshold) [n..<length LEVELS])
     in if m = 0 then d else Some (LEVELS ! (n + m - 1)))"
  using assms
proof (induction "length LEVELS - n" arbitrary: n d)
  case 0
  then show ?case by simp
next
  case (Suc k)
  then have n: "n < length LEVELS" by simp
  then have drop: "drop n LEVELS = LEVELS ! n # drop (Suc n) LEVELS" by (simp add: Cons_nth_drop_Suc)
  have take: "concat (map (level_flags cs contracts) (take (Suc n) LEVELS)) =
      concat (map (level_flags cs contracts) (take n LEVELS)) @ level_flags cs contracts (LEVELS ! n)"
    using n by (simp add: take_Suc_conv_app_nth)
  have upt: "[n..<length LEVELS] = n # [Suc n..<length LEVELS]" using n by (rule upt_conv_Cons)
  have IH: "depth_loop cs contracts threshold False (drop (Suc n) LEVELS)
      (concat (map (level_flags cs contracts) (take (Suc n) LEVELS))) (Some (LEVELS ! n)) =
    (let m = length (takeWhile (reaches cs contracts threshold) [Suc n..<length LEVELS])
     in if m = 0 then Some (LEVELS ! n) else Some (LEVELS ! (Suc n + m - 1)))"
    using Suc n by (intro Suc.hyps) simp_all
  have flags: "level_flags cs contracts (LEVELS ! n) =
      map (\<lambda>i. 1 \<le> dict_get cs i 0) (ids_at contracts (\<lambda>l. l = LEVELS ! n))"
    by (simp add: level_flags_def)
  show ?case
  proof (cases "reaches cs contracts threshold n")
    case True
    then have "ids_at contracts (\<lambda>l. l = LEVELS ! n) \<noteq> []"
      "\<not> pass_fraction (concat (map (level_flags cs contracts) (take n LEVELS)) @
          level_flags cs contracts (LEVELS ! n)) < threshold"
      by (simp_all add: reaches_def take flags)
    then show ?thesis
      using IH True unfolding drop upt take flags by (simp add: Let_def)
  next
    case False
    then have "ids_at contracts (\<lambda>l. l = LEVELS ! n) = [] \<or>
      pass_fraction (concat (map (level_flags cs contracts) (take n LEVELS)) @
          level_flags cs contracts (LEVELS ! n)) < threshold"
      by (auto simp: reaches_def take flags)
    then show ?thesis
      using False unfolding drop upt flags by (auto simp: Let_def)
  qed
qed

text \<open>
  Depth90 is a contiguous prefix of the levels: with \<open>m\<close> the number of leading levels that
  each have Contracts and at which the fraction of solved Contracts, cumulated from the first
  level, meets the threshold, the depth is level number \<open>m\<close>, or none if \<open>m\<close> is zero. A later
  level never makes up for one that missed.
\<close>

theorem depth_contiguous_prefix:
  "depth cs contracts threshold False =
     (let m = length (takeWhile (reaches cs contracts threshold) [0..<length LEVELS])
      in if m = 0 then None else Some (LEVELS ! (m - 1)))"
  using depth_loop_eq [of 0 cs contracts threshold None] by (simp add: depth_def)

end
