(* ===== verification/RunFacts.thy ===== *)
theory RunFacts
  imports EvaluationFacts ScoringFacts
begin

text \<open>
  The guarantees of a whole evaluation run, from opening the targets to the result document.
\<close>

section \<open>The body of the run\<close>

definition opened :: "('r, 'w) run_state \<Rightarrow> bool" where
  "opened s \<longleftrightarrow> at_phase (Idle 0) 0 s \<and> v_results s = [] \<and> v_unsupported s = [] \<and>
     v_queries s = 0 \<and> v_reference_rows s = [] \<and> v_candidate_rows s = []"

lemma opened_idle: "opened s \<Longrightarrow> idle fr fp cf 0 s"
  by (simp add: opened_def idle_def kept_def books_init)

lemma opened_broken: "opened s \<Longrightarrow> broken e s"
  by (auto simp: opened_def broken_def at_phase_def intro: exI [of _ "Idle 0"])

lemma begin_run_ok: "\<exists>s. begin_run cf (run_init cf w) = (Inr (), s) \<and> opened s"
  using journal_run.step [OF journal_run.empty journal_step.run_started]
  by (simp add: begin_run_def eseq_eq log_event_def persist_def run_init_def opened_def at_phase_def)

lemma open_targets_triple: "triple opened (open_targets mk cf) (\<lambda>_. opened) broken"
proof (rule tripleI)
  fix s u t
  assume "opened s" and "open_targets mk cf s = (Inr u, t)"
  then show "opened t"
    by (auto simp: open_targets_def ebind_eq eseq_eq opened_def at_phase_def split: sum.splits)
next
  fix s e t
  assume "opened s" and "open_targets mk cf s = (Inl e, t)"
  then have "opened t"
    by (auto simp: open_targets_def ebind_eq eseq_eq opened_def at_phase_def split: sum.splits)
  then show "broken e t" by (rule opened_broken)
qed

lemma run_loop_triple:
  "triple (idle fr fp cf 0) (efor (enumerate 1 (cf_selected cf)) (run_case env fr fp cf))
     (\<lambda>_. idle fr fp cf (length (cf_selected cf))) broken"
proof -
  have "triple (idle fr fp cf n) (run_case env fr fp cf (enumerate 1 (cf_selected cf) ! n))
      (\<lambda>_. idle fr fp cf (Suc n)) broken" if "n < length (enumerate 1 (cf_selected cf))" for n
    using that run_case_triple [of n cf "cf_selected cf ! n"] by (simp add: nth_enumerate_eq)
  from triple_for [of "enumerate 1 (cf_selected cf)", OF this] show ?thesis by simp
qed

lemma run_body_triple:
  "triple opened (run_body env fr fp mk cf) (\<lambda>_. idle fr fp cf (length (cf_selected cf))) broken"
proof -
  have "triple opened (persist cf ''running'' None False) (\<lambda>_. idle fr fp cf 0) broken"
    unfolding persist_def
    by (rule triple_modify) (simp add: opened_def idle_def at_phase_def kept_def books_init)
  then show ?thesis
    unfolding run_body_def by (intro triple_seq [OF open_targets_triple triple_seq [OF _ run_loop_triple]])
qed

section \<open>Failure and clean-up\<close>

text \<open>The journal ends with the failure, and the state file records it.\<close>

definition failure_recorded :: "exn \<Rightarrow> ('r, 'w) run_state \<Rightarrow> bool" where
  "failure_recorded e s \<longleftrightarrow>
     journal_run (v_journal s) Failed \<and>
     (\<exists>es. v_journal s = es @ [RunFailed (v_position s) (v_current s) (exn_name e) (exn_message e)]) \<and>
     map_option f_status (v_state_file s) = Some ''failed'' \<and>
     map_option f_error (v_state_file s) = Some (Some (exn_name e, exn_message e))"

lemma run_failed_triple: "triple (broken e) (run_failed cf e) (\<lambda>_. failure_recorded e) E"
  by (auto simp: triple_def run_failed_def eseq_eq log_event_def persist_def broken_def
      failure_recorded_def state_doc_def intro: journal_run.step journal_step.run_failed)

lemma run_failed_returns: "\<exists>t. run_failed cf e s = (Inr (), t)"
  by (simp add: run_failed_def eseq_eq log_event_def persist_def)

lemma close_targets_keeps:
  assumes "close_targets env s = (r, t)"
  shows "\<exists>ref cand w. t = s\<lparr>v_reference := ref, v_candidate := cand, v_world := w\<rparr>"
proof -
  have c: "\<exists>ref w. u = s\<lparr>v_reference := ref, v_world := w\<rparr>"
    if "close_target (v_reference s) (on_reference (close env)) s = (q, u)" for q u
    using that on_reference_keeps [of "close env" s q u]
    by (auto simp: close_target_def split: if_splits intro: exI [of _ "v_world s"])
       (metis run_state.surjective run_state.update_convs(1,2))
  have d: "\<exists>cand w. t = u\<lparr>v_candidate := cand, v_world := w\<rparr>"
    if "close_target (v_candidate u) (on_candidate (close env)) u = (r, t)" for u
    using that on_candidate_keeps [of "close env" u r t]
    by (auto simp: close_target_def split: if_splits)
       (metis run_state.surjective run_state.update_convs(1,3))
  obtain q u where u: "close_target (v_reference s) (on_reference (close env)) s = (q, u)"
    by (cases "close_target (v_reference s) (on_reference (close env)) s")
  obtain ref w where u': "u = s\<lparr>v_reference := ref, v_world := w\<rparr>" using c [OF u] by blast
  show ?thesis
  proof (cases q)
    case (Inl e)
    then have "t = u" using assms u by (simp add: close_targets_def eseq_eq)
    then have "t = s\<lparr>v_reference := ref, v_candidate := v_candidate s, v_world := w\<rparr>" using u' by simp
    then show ?thesis by blast
  next
    case (Inr x)
    then have "close_target (v_candidate u) (on_candidate (close env)) u = (r, t)"
      using assms u by (simp add: close_targets_def eseq_eq)
    from d [OF this] u' show ?thesis by auto
  qed
qed

lemma close_targets_phase:
  "triple (\<lambda>s. journal_run (v_journal s) ph) (close_targets env)
     (\<lambda>_ s. journal_run (v_journal s) ph) (\<lambda>_ s. journal_run (v_journal s) ph)"
  by (intro tripleI; drule close_targets_keeps) auto

lemma close_targets_idle:
  "triple (idle fr fp cf n) (close_targets env) (\<lambda>_. idle fr fp cf n) (\<lambda>_. idle fr fp cf n)"
  by (intro tripleI; drule close_targets_keeps) (auto simp: case_states)

lemma close_targets_failed:
  "triple (failure_recorded e) (close_targets env) (\<lambda>_. failure_recorded e) (\<lambda>_. failure_recorded e)"
  by (intro tripleI; drule close_targets_keeps) (auto simp: failure_recorded_def)

text \<open>Stopping a machine never raises.\<close>

definition quiet_stop :: "('r, 'w) env \<Rightarrow> bool" where
  "quiet_stop env \<longleftrightarrow> (\<forall>run w. fst (e_stop env run w) = Inr ())"

lemma close_quiet: "quiet_stop env \<Longrightarrow> fst (close env tw) = Inr ()"
  by (cases "(env, tw)" rule: close.cases) (auto simp: quiet_stop_def split: prod.splits sum.splits,
      metis fst_conv sum.simps(4))

lemma close_targets_quiet:
  assumes "quiet_stop env"
  shows "\<exists>t. close_targets env s = (Inr (), t)"
  using close_quiet [OF assms]
  by (auto simp: close_targets_def close_target_def eseq_eq on_reference_def on_candidate_def
      split: option.split prod.split sum.split) (metis fst_conv sum.distinct(1))+

lemma close_targets_failed_quiet:
  "quiet_stop env \<Longrightarrow>
     triple (failure_recorded e) (close_targets env) (\<lambda>_. failure_recorded e) (\<lambda>_ _. False)"
  using close_targets_quiet triple_Inr [OF close_targets_failed]
  by (intro tripleI) (blast, metis prod.inject sum.distinct(1))

text \<open>Neither target is left with a running machine.\<close>

definition released :: "('r, 'w) run_state \<Rightarrow> bool" where
  "released s \<longleftrightarrow> pred_option (\<lambda>t. \<not> running t) (v_reference s) \<and>
                 pred_option (\<lambda>t. \<not> running t) (v_candidate s)"

lemma close_reference_releases:
  "close_target (v_reference s) (on_reference (close env)) s = (Inr u, t) \<Longrightarrow>
     pred_option (\<lambda>x. \<not> running x) (v_reference t)"
  by (cases "v_reference s")
     (auto simp: close_target_def on_reference_def split: prod.splits dest: evaluator.shut_stops)

lemma close_candidate_releases:
  "close_target (v_candidate s) (on_candidate (close env)) s = (Inr u, t) \<Longrightarrow>
     pred_option (\<lambda>x. \<not> running x) (v_candidate t) \<and> v_reference t = v_reference s"
  by (cases "v_candidate s")
     (auto simp: close_target_def on_candidate_def split: prod.splits dest: evaluator.shut_stops)

lemma close_targets_releases: "close_targets env s = (Inr u, t) \<Longrightarrow> released t"
  unfolding close_targets_def
  by (elim eseq_InrE) (drule close_reference_releases, drule close_candidate_releases, simp add: released_def)

section \<open>The run up to its end\<close>

definition guarded_body ::
  "('r, 'w) env \<Rightarrow> (real \<Rightarrow> string) \<Rightarrow> (string \<Rightarrow> real option) \<Rightarrow> (string \<Rightarrow> 'r target result) \<Rightarrow> run_config \<Rightarrow>
     (('r, 'w) run_state, unit) eff" where
  "guarded_body env fr fp mk cf =
     efinally (eexcept_reraise (run_body env fr fp mk cf) (run_failed cf)) (close_targets env)"

text \<open>An exception that leaves the guarded part was recorded, or comes from closing a target.\<close>

definition ended :: "(real \<Rightarrow> string) \<Rightarrow> (string \<Rightarrow> real option) \<Rightarrow> run_config \<Rightarrow> ('r, 'w) run_state \<Rightarrow> bool" where
  "ended fr fp cf s \<longleftrightarrow> (\<exists>e. failure_recorded e s) \<or> idle fr fp cf (length (cf_selected cf)) s"

lemma guarded_body_triple:
  "triple opened (guarded_body env fr fp mk cf) (\<lambda>_. idle fr fp cf (length (cf_selected cf)))
     (\<lambda>_. ended fr fp cf)"
proof -
  have ex: "triple opened (eexcept_reraise (run_body env fr fp mk cf) (run_failed cf))
      (\<lambda>_. idle fr fp cf (length (cf_selected cf))) failure_recorded"
    by (rule triple_except [OF run_body_triple run_failed_triple])
  show ?thesis
    unfolding guarded_body_def
  proof (rule triple_finally [OF ex])
    show "triple (idle fr fp cf (length (cf_selected cf))) (close_targets env)
        (\<lambda>_. idle fr fp cf (length (cf_selected cf))) (\<lambda>_. ended fr fp cf)"
      by (rule triple_weaken [OF close_targets_idle]) (auto simp: ended_def)
    show "triple (failure_recorded e) (close_targets env) (\<lambda>_. ended fr fp cf) (\<lambda>_. ended fr fp cf)" for e
      by (rule triple_weaken [OF close_targets_failed]) (auto simp: ended_def)
  qed
qed

lemma guarded_body_quiet:
  assumes "quiet_stop env"
  shows "triple opened (guarded_body env fr fp mk cf) (\<lambda>_ _. True) failure_recorded"
  unfolding guarded_body_def
proof (rule triple_finally [OF triple_except [OF run_body_triple run_failed_triple]])
  show "triple (failure_recorded e) (close_targets env) (\<lambda>_. failure_recorded e) failure_recorded" for e
    by (rule triple_weaken [OF close_targets_failed_quiet [OF assms]]) auto
  show "triple (idle fr fp cf (length (cf_selected cf))) (close_targets env) (\<lambda>_ _. True) failure_recorded"
    using close_targets_quiet [OF assms] by (intro tripleI) (simp, metis prod.inject sum.distinct(1))
qed

lemma guarded_body_releases:
  assumes "quiet_stop env" and "guarded_body env fr fp mk cf s = (q, t)"
  shows "released t"
proof -
  obtain u where "close_targets env u = (Inr (), t)"
    using assms(2) close_targets_quiet [OF assms(1)]
    by (auto simp: guarded_body_def efinally_def split: prod.splits sum.splits)
       (metis prod.inject sum.distinct(1))
  then show ?thesis by (rule close_targets_releases)
qed

lemma finish_run_keeps:
  "finish_run fg conf cf s = (r, t) \<Longrightarrow> v_reference t = v_reference s \<and> v_candidate t = v_candidate s"
  by (auto simp: finish_run_def eseq_eq ebind_eq log_event_def persist_def split: sum.splits)

lemma evaluate_run_cases:
  fixes env :: "('r, 'w) env" and w :: 'w and t :: "('r, 'w) run_state"
  assumes "evaluate_run env fr fp fg conf mk cf (run_init cf w) = (r, t)"
  obtains (completed) s d where "idle fr fp cf (length (cf_selected cf)) s"
      "finish_run fg conf cf s = (Inr d, t)" "r = Inr d"
  | (unscored) s e where "idle fr fp cf (length (cf_selected cf)) s"
      "finish_run fg conf cf s = (Inl e, t)" "r = Inl e"
  | (raised) e where "r = Inl e" "ended fr fp cf t" "quiet_stop env \<Longrightarrow> failure_recorded e t"
proof -
  obtain s0 :: "('r, 'w) run_state" where s0: "begin_run cf (run_init cf w) = (Inr (), s0)" "opened s0"
    using begin_run_ok [of cf w] by metis
  obtain q s where g: "guarded_body env fr fp mk cf s0 = (q, s)"
    by (cases "guarded_body env fr fp mk cf s0")
  have run: "(case q of Inl e \<Rightarrow> (Inl e, s) | Inr _ \<Rightarrow> finish_run fg conf cf s) = (r, t)"
    using assms s0(1) g by (simp add: evaluate_run_def guarded_body_def eseq_eq split: sum.splits)
  show thesis
  proof (cases q)
    case (Inl e)
    then have "ended fr fp cf s" using triple_Inl [OF guarded_body_triple s0(2)] g by blast
    moreover have "failure_recorded e s" if "quiet_stop env"
      using triple_Inl [OF guarded_body_quiet [OF that] s0(2)] g Inl by blast
    ultimately show thesis using that(3) [of e] run Inl by simp
  next
    case (Inr u)
    then have "idle fr fp cf (length (cf_selected cf)) s"
      using triple_Inr [OF guarded_body_triple s0(2)] g by blast
    then show thesis using that(1,2) run Inr by (cases r) simp_all
  qed
qed

lemma finish_run_Inr:
  assumes "finish_run fg conf cf s = (Inr d, t)"
  obtains scores where
    "score_results fg conf (v_results s) (cf_contracts cf) (cf_profile cf) = Inr scores"
    "d = result_of cf scores (s\<lparr>v_current := None\<rparr>)"
    "v_journal t = v_journal s @ [RunCompleted (v_position s) (length (v_results s)) (length (v_unsupported s))]"
    "v_reference t = v_reference s" "v_candidate t = v_candidate s"
    "v_reference_rows t = v_reference_rows s" "v_candidate_rows t = v_candidate_rows s"
    "map_option f_status (v_state_file t) = Some ''completed''"
  using assms
  by (auto simp: finish_run_def eseq_eq ebind_eq log_event_def persist_def state_doc_def result_of_def Let_def
      split: sum.splits)

lemma finish_run_Inl:
  assumes "finish_run fg conf cf s = (Inl e, t)"
  shows "t = s\<lparr>v_current := None\<rparr>"
    and "score_results fg conf (v_results s) (cf_contracts cf) (cf_profile cf) = Inl e"
  using assms by (auto simp: finish_run_def eseq_eq ebind_eq log_event_def persist_def split: sum.splits)

section \<open>Properties of a run\<close>

text \<open>
  C3. Whatever happens, the journal of a run follows the protocol: \<open>run_started\<close>, then for
  each case in turn \<open>case_started\<close> and either \<open>case_unsupported\<close> or the reference's and the
  candidate's observation and \<open>case_completed\<close>. A run that returns ends with \<open>run_completed\<close>;
  one that raises ends with \<open>run_failed\<close>, or after its last case when closing or scoring raised.
\<close>

theorem journal_follows_protocol:
  "case evaluate_run env fr fp fg conf mk cf (run_init cf w) of
      (Inr d, t) \<Rightarrow> journal_run (v_journal t) Completed
    | (Inl e, t) \<Rightarrow> journal_run (v_journal t) Failed \<or> journal_run (v_journal t) (Idle (length (cf_selected cf)))"
proof -
  obtain r t where run: "evaluate_run env fr fp fg conf mk cf (run_init cf w) = (r, t)" by fastforce
  from run show ?thesis
  proof (cases rule: evaluate_run_cases)
    case (completed s d)
    then have "journal_run (v_journal s) (Idle (v_position s))" by (auto simp: case_states)
    then show ?thesis
      using run completed by (auto elim!: finish_run_Inr intro: journal_appends)
  next
    case (unscored s e)
    then show ?thesis using run by (auto simp: case_states dest!: finish_run_Inl(1))
  next
    case (raised e)
    then show ?thesis using run by (auto simp: ended_def failure_recorded_def case_states)
  qed
qed

lemma run_books:
  assumes "evaluate_run env fr fp fg conf mk cf (run_init cf w) = (Inr d, t)"
  shows "subseq (map r_case_id (d_cases d)) (map k_id (cf_selected cf)) \<and>
    subseq (map fst (d_unsupported d)) (map k_id (cf_selected cf)) \<and>
    mset (map r_case_id (d_cases d)) + mset (map fst (d_unsupported d)) = mset (map k_id (cf_selected cf)) \<and>
    sel_evaluated (d_selection d) = length (d_cases d) \<and>
    sel_requested (d_selection d) = length (d_cases d) + length (d_unsupported d) \<and>
    m_queries (d_metrics d) = (if sel_reused (d_selection d) then 1 else 2) * length (d_cases d) \<and>
    length (v_reference_rows t) = length (v_candidate_rows t) \<and>
    list_all2 (verdict_recorded fr fp (cf_contracts cf) (sel_reused (d_selection d))) (d_cases d)
      (zip (v_reference_rows t) (v_candidate_rows t))"
  using assms
proof (cases rule: evaluate_run_cases)
  case (completed s d')
  then have b: "books fr fp cf (length (cf_selected cf)) (v_reuse s) (v_results s) (v_unsupported s)
      (v_queries s) (v_reference_rows s) (v_candidate_rows s)"
    by (simp add: case_states)
  then have m: "mset (map r_case_id (v_results s)) + mset (map fst (v_unsupported s)) = mset (map k_id (cf_selected cf))"
    by (simp add: books_def)
  from arg_cong [OF m, of size]
  have len: "length (cf_selected cf) = length (v_results s) + length (v_unsupported s)" by simp
  show ?thesis
    using completed(2,3)
  proof (elim finish_run_Inr)
    fix scores
    assume d': "d' = result_of cf scores (s\<lparr>v_current := None\<rparr>)"
      and rows: "v_reference_rows t = v_reference_rows s" "v_candidate_rows t = v_candidate_rows s"
    have "d = d'" using completed(3) by simp
    then show ?thesis
      using b len unfolding d' rows books_def
      by (simp add: result_of_def selection_document_def result_metrics_def Let_def)
  qed
qed simp_all

text \<open>
  C2. A run that returns has balanced books: the evaluated cases and the unsupported cases are
  together exactly the selected ones, each in selection order, and the counts of the selection
  document add up; two target executions are counted per evaluated case, one if observations
  are reused; and each verdict and difference in the document is the one that the recorded
  observations of that case give under its Contract.
\<close>

theorem books_balance:
  assumes "evaluate_run env fr fp fg conf mk cf (run_init cf w) = (Inr d, t)"
  shows "subseq (map r_case_id (d_cases d)) (map k_id (cf_selected cf)) \<and>
    subseq (map fst (d_unsupported d)) (map k_id (cf_selected cf)) \<and>
    mset (map r_case_id (d_cases d)) + mset (map fst (d_unsupported d)) = mset (map k_id (cf_selected cf)) \<and>
    sel_evaluated (d_selection d) = length (d_cases d) \<and>
    sel_requested (d_selection d) = length (d_cases d) + length (d_unsupported d) \<and>
    m_queries (d_metrics d) = (if sel_reused (d_selection d) then 1 else 2) * length (d_cases d) \<and>
    length (v_reference_rows t) = length (v_candidate_rows t) \<and>
    list_all2 (verdict_recorded fr fp (cf_contracts cf) (sel_reused (d_selection d))) (d_cases d)
      (zip (v_reference_rows t) (v_candidate_rows t))"
  by (rule run_books [OF assms])


text \<open>
  C4. Both targets are closed on every path: if stopping a machine never raises, no machine is
  left running after an evaluation, whether it returned or raised and wherever it raised (a
  machine that was started but whose serial console never answered included).
\<close>

theorem targets_released:
  fixes env :: "('r, 'w) env" and w :: 'w and t :: "('r, 'w) run_state"
  assumes "quiet_stop env" and "evaluate_run env fr fp fg conf mk cf (run_init cf w) = (r, t)"
  shows "released t"
proof -
  obtain s0 :: "('r, 'w) run_state" where s0: "begin_run cf (run_init cf w) = (Inr (), s0)" "opened s0"
    using begin_run_ok [of cf w] by metis
  obtain q s where g: "guarded_body env fr fp mk cf s0 = (q, s)"
    by (cases "guarded_body env fr fp mk cf s0")
  have rel: "released s" by (rule guarded_body_releases [OF assms(1) g])
  have "(case q of Inl e \<Rightarrow> (Inl e, s) | Inr _ \<Rightarrow> finish_run fg conf cf s) = (r, t)"
    using assms(2) s0(1) g by (simp add: evaluate_run_def guarded_body_def eseq_eq split: sum.splits)
  then show ?thesis
    using rel finish_run_keeps [of fg conf cf s r t] by (auto simp: released_def split: sum.splits)
qed

text \<open>Reused observations pass.\<close>

lemma reuse_passes:
  assumes "evaluate_run env fr fp fg conf mk cf (run_init cf w) = (Inr d, t)"
    and "sel_reused (d_selection d)"
    and "list_all (\<lambda>p. status_ok (p_observation p) \<and> wf_pv (p_observation p) \<and> is_dict (p_observation p))
           (v_reference_rows t)"
    and "list_all (\<lambda>(i, c). eq_kind (c_equivalence c) \<noteq> ''range'') (cf_contracts cf)"
  shows "list_all r_passed (d_cases d)"
proof -
  have v: "list_all2 (verdict_recorded fr fp (cf_contracts cf) True) (d_cases d)
      (zip (v_reference_rows t) (v_candidate_rows t))"
    using run_books [OF assms(1)] assms(2) by simp
  have "r_passed r" if "(r, p) \<in> set (zip (d_cases d) (zip (v_reference_rows t) (v_candidate_rows t)))" for r p
  proof -
    obtain ref cand where p: "p = (ref, cand)" by (cases p)
    have "verdict_recorded fr fp (cf_contracts cf) True r p"
      using v that by (auto simp: list_all2_iff)
    then obtain c where c: "map_of (cf_contracts cf) (r_contract r) = Some c"
      "compare_observations fr fp (p_observation ref) (p_observation ref) c = Inr (r_passed r, r_difference r)"
      unfolding p by (auto simp: verdict_recorded_def)
    have "ref \<in> set (v_reference_rows t)" using that p by (auto dest: set_zip_rightD set_zip_leftD)
    then have "compare_observations fr fp (p_observation ref) (p_observation ref) c = Inr (True, None)"
      using assms(3,4) map_of_SomeD [OF c(1)]
      by (intro identical_observations_pass) (auto simp: list_all_iff)
    then show ?thesis using c(2) by simp
  qed
  then have "list_all2 (\<lambda>r p. r_passed r) (d_cases d) (zip (v_reference_rows t) (v_candidate_rows t))"
    using v by (auto simp: list_all2_iff)
  then show ?thesis by (simp add: list_all2_conv_all_nth list_all_length)
qed

end
