(* ===== verification/Completion.thy ===== *)
theory Completion
  imports RunFacts
begin

text \<open>
  An evaluation completes when its environment answers: the targets open, every execution
  returns a dictionary, stopping never raises, and the Contracts of the cases are known.
\<close>

section \<open>Comparison of dictionaries never raises\<close>

lemma compare_values_dict:
  assumes "is_dict a" and "is_dict b"
  shows "\<not> isl (compare_values fr fp a b e)"
proof -
  obtain xs ys where [simp]: "a = PDict xs" "b = PDict ys" using assms by (cases a; cases b) auto
  have "\<not> isl (verdict fr fp (eq_kind e) (eq_tolerance e) a b)"
    by (simp add: verdict_def verdict_range_numbers [unfolded verdict_def] Let_def rbind_def split: sum.split)
  then show ?thesis by (auto simp: compare_values_def rbind_def split: sum.splits)
qed

lemma compare_observations_dict:
  "is_dict a \<Longrightarrow> is_dict b \<Longrightarrow> \<not> isl (compare_observations fr fp a b c)"
  using compare_values_dict [OF normalize_dict normalize_dict]
  by (simp add: compare_observations_def)

section \<open>An environment that answers\<close>

definition answers :: "('r, 'w) env \<Rightarrow> bool" where
  "answers env \<longleftrightarrow> (\<forall>c tw. case execute env c tw of (Inr obs, _) \<Rightarrow> is_dict obs | (Inl e, _) \<Rightarrow> False)"

definition has_targets :: "('r, 'w) run_state \<Rightarrow> bool" where
  "has_targets s \<longleftrightarrow> v_reference s \<noteq> None \<and> v_candidate s \<noteq> None"

lemma answersE:
  fixes env :: "('r, 'w) env" and t :: "'r target" and w :: 'w
  assumes "answers env"
  obtains obs t' w' where "execute env c (t, w) = (Inr obs, t', w')" and "is_dict obs"
proof -
  have "case execute env c (t, w) of (Inr obs, _) \<Rightarrow> is_dict obs | (Inl e, _) \<Rightarrow> False"
    using assms unfolding answers_def by (elim allE)
  then show ?thesis using that by (auto split: prod.splits sum.splits)
qed

lemma on_reference_answers:
  fixes env :: "('r, 'w) env"
  assumes "answers env"
  shows "triple has_targets (on_reference (execute env c)) (\<lambda>obs s. has_targets s \<and> is_dict obs) (\<lambda>_ _. False)"
  unfolding triple_def
proof (intro allI impI)
  fix s :: "('r, 'w) run_state" assume "has_targets s"
  then obtain t where t: "v_reference s = Some t" "v_candidate s \<noteq> None" by (auto simp: has_targets_def)
  obtain obs t' w' where "execute env c (t, v_world s) = (Inr obs, t', w')" "is_dict obs"
    using answersE [OF assms] .
  then show "case on_reference (execute env c) s of
      (Inr x, t) \<Rightarrow> has_targets t \<and> is_dict x | (Inl e, t) \<Rightarrow> False"
    using t by (simp add: on_reference_def has_targets_def)
qed

lemma on_candidate_answers:
  fixes env :: "('r, 'w) env"
  assumes "answers env"
  shows "triple has_targets (on_candidate (execute env c)) (\<lambda>obs s. has_targets s \<and> is_dict obs) (\<lambda>_ _. False)"
  unfolding triple_def
proof (intro allI impI)
  fix s :: "('r, 'w) run_state" assume "has_targets s"
  then obtain t where t: "v_candidate s = Some t" "v_reference s \<noteq> None" by (auto simp: has_targets_def)
  obtain obs t' w' where "execute env c (t, v_world s) = (Inr obs, t', w')" "is_dict obs"
    using answersE [OF assms] .
  then show "case on_candidate (execute env c) s of
      (Inr x, t) \<Rightarrow> has_targets t \<and> is_dict x | (Inl e, t) \<Rightarrow> False"
    using t by (simp add: on_candidate_def has_targets_def)
qed

lemma observe_reference_answers:
  assumes "answers env"
  shows "triple has_targets (observe_reference env cf pos c) (\<lambda>obs s. has_targets s \<and> is_dict obs) (\<lambda>_ _. False)"
  unfolding observe_reference_def
  by (rule triple_bind [OF on_reference_answers [OF assms]])
     (auto simp: triple_def eseq_eq log_event_def persist_def has_targets_def)

lemma observe_candidate_answers:
  assumes "answers env" and "is_dict ref"
  shows "triple has_targets (observe_candidate env pos c ref) (\<lambda>obs s. has_targets s \<and> is_dict obs) (\<lambda>_ _. False)"
proof -
  have "triple has_targets (\<lambda>s. if v_reuse s then (Inr ref, s)
                else ebind (on_candidate (execute env c)) (\<lambda>obs t.
                       (Inr obs, t\<lparr>v_queries := v_queries t + 1\<rparr>)) s)
      (\<lambda>obs s. has_targets s \<and> is_dict obs) (\<lambda>_ _. False)"
  proof -
    have "triple has_targets (ebind (on_candidate (execute env c)) (\<lambda>obs t.
        (Inr obs, t\<lparr>v_queries := v_queries t + 1\<rparr>))) (\<lambda>obs s. has_targets s \<and> is_dict obs) (\<lambda>_ _. False)"
      by (rule triple_bind [OF on_candidate_answers [OF assms(1)]]) (simp add: triple_def has_targets_def)
    then show ?thesis using assms(2) by (simp add: triple_def)
  qed
  then show ?thesis
    unfolding observe_candidate_def
    by (rule triple_bind) (auto simp: triple_def eseq_eq has_targets_def)
qed

lemma run_case_answers:
  assumes "answers env" and "k_contract c \<in> dom (map_of (cf_contracts cf))"
  shows "triple has_targets (run_case env fr fp cf (pos, c)) (\<lambda>_. has_targets) (\<lambda>_ _. False)"
proof -
  obtain contract where k: "map_of (cf_contracts cf) (k_contract c) = Some contract" using assms(2) by blast
  have "triple (\<lambda>s. has_targets s \<and> is_dict cand) (complete_case fr fp cf pos c contract ref cand)
      (\<lambda>_. has_targets) (\<lambda>_ _. False)" if "is_dict ref" for ref cand
    using compare_observations_dict [OF that, of cand fr fp contract]
    by (cases "compare_observations fr fp ref cand contract") (auto simp: triple_def complete_case_def ebind_eq eseq_eq log_event_def persist_def has_targets_def)
  then have complete: "triple has_targets (ebind (observe_candidate env pos c ref) (\<lambda>cand.
         complete_case fr fp cf pos c contract ref cand)) (\<lambda>_. has_targets) (\<lambda>_ _. False)" if "is_dict ref" for ref
    using that by (intro triple_bind [OF observe_candidate_answers [OF assms(1)]]) auto
  have "triple (\<lambda>s. has_targets s \<and> is_dict ref) (ebind (observe_candidate env pos c ref) (\<lambda>cand.
         complete_case fr fp cf pos c contract ref cand)) (\<lambda>_. has_targets) (\<lambda>_ _. False)" for ref
    using complete [of ref] by (cases "is_dict ref") (auto simp: triple_def)
  then have "triple has_targets (ebind (observe_reference env cf pos c) (\<lambda>ref.
        ebind (observe_candidate env pos c ref) (\<lambda>cand.
          complete_case fr fp cf pos c contract ref cand))) (\<lambda>_. has_targets) (\<lambda>_ _. False)"
    by (rule triple_bind [OF observe_reference_answers [OF assms(1)]])
  then have "triple has_targets (\<lambda>s. case unsupported_reason env c s of
         Some reason \<Rightarrow> record_unsupported cf pos c reason s
       | None \<Rightarrow>
           ebind (elift (lookup_contract (cf_contracts cf) (k_contract c))) (\<lambda>contract.
             ebind (observe_reference env cf pos c) (\<lambda>ref.
               ebind (observe_candidate env pos c ref) (\<lambda>cand.
                 complete_case fr fp cf pos c contract ref cand))) s) (\<lambda>_. has_targets) (\<lambda>_ _. False)"
    unfolding lookup_contract_def k option.case ebind_lift
    by (rule triple_option)
       (auto simp: triple_def record_unsupported_def eseq_eq log_event_def persist_def has_targets_def)
  moreover have "triple has_targets (start_case cf pos c) (\<lambda>_. has_targets) (\<lambda>_ _. False)"
    by (auto simp: triple_def start_case_def eseq_eq log_event_def persist_def has_targets_def)
  ultimately show ?thesis unfolding run_case_def prod.case by (rule triple_seq [rotated])
qed

lemma run_body_answers:
  assumes "answers env" and "list_all (\<lambda>c. k_contract c \<in> dom (map_of (cf_contracts cf))) (cf_selected cf)"
    and "mk (cf_reference_spec cf) = Inr ref" and "mk (cf_target_spec cf) = Inr cand"
  shows "triple (\<lambda>_. True) (run_body env fr fp mk cf) (\<lambda>_. has_targets) (\<lambda>_ _. False)"
proof -
  have op: "triple (\<lambda>_. True) (open_targets mk cf) (\<lambda>_. has_targets) (\<lambda>_ _. False)"
    using assms(3,4) by (simp add: triple_def open_targets_def ebind_eq eseq_eq has_targets_def)
  have pe: "triple has_targets (persist cf ''running'' None False) (\<lambda>_. has_targets) (\<lambda>_ _. False)"
    by (simp add: triple_def persist_def has_targets_def)
  have "triple has_targets (run_case env fr fp cf (enumerate 1 (cf_selected cf) ! n)) (\<lambda>_. has_targets) (\<lambda>_ _. False)"
    if "n < length (enumerate 1 (cf_selected cf))" for n
    using that assms(2) run_case_answers [OF assms(1)] by (simp add: nth_enumerate_eq list_all_length)
  from triple_for [where I = "\<lambda>_. has_targets" and xs = "enumerate 1 (cf_selected cf)"
      and body = "run_case env fr fp cf", OF this]
  show ?thesis unfolding run_body_def by (rule triple_seq [OF op triple_seq [OF pe]])
qed

lemma run_completes:
  fixes env :: "('r, 'w) env" and w :: 'w
  assumes "answers env" and "quiet_stop env" and "good_config conf"
    and "list_all (\<lambda>c. k_contract c \<in> dom (map_of (cf_contracts cf))) (cf_selected cf)"
    and "mk (cf_reference_spec cf) = Inr ref" and "mk (cf_target_spec cf) = Inr cand"
  shows "\<exists>d t. evaluate_run env fr fp fg conf mk cf (run_init cf w) = (Inr d, t)"
proof -
  obtain s0 :: "('r, 'w) run_state" where s0: "begin_run cf (run_init cf w) = (Inr (), s0)" "opened s0"
    using begin_run_ok [of cf w] by metis
  obtain q s1 where b: "run_body env fr fp mk cf s0 = (q, s1)" by (cases "run_body env fr fp mk cf s0")
  then have q: "q = Inr ()"
    using triple_Inl [OF run_body_answers [OF assms(1,4,5,6)] TrueI] by (cases q) auto
  obtain s where "close_targets env s1 = (Inr (), s)" using close_targets_quiet [OF assms(2)] by blast
  then have g: "guarded_body env fr fp mk cf s0 = (Inr (), s)"
    using b q by (simp add: guarded_body_def efinally_def eexcept_reraise_def)
  have "idle fr fp cf (length (cf_selected cf)) s" by (rule triple_Inr [OF guarded_body_triple s0(2) g])
  then have "list_all2 (verdict_recorded fr fp (cf_contracts cf) (v_reuse s)) (v_results s)
      (zip (v_reference_rows s) (v_candidate_rows s))"
    by (simp add: case_states books_def)
  then have "r_contract r \<in> dom (map_of (cf_contracts cf))" if "r \<in> set (v_results s)" for r
    using that by (auto simp: list_all2_conv_all_nth in_set_conv_nth verdict_recorded_def split: prod.splits)
  then have "unknown_contract (cf_contracts cf) (v_results s) = None"
    by (auto simp: unknown_contract_None_iff dom_map_of_conv_image_fst)
  then obtain scores where "score_results fg conf (v_results s) (cf_contracts cf) (cf_profile cf) = Inr scores"
    using score_results_ok [OF assms(3)] by blast
  then show ?thesis
    using s0(1) g by (simp add: evaluate_run_def guarded_body_def eseq_eq finish_run_def ebind_eq
        log_event_def persist_def)
qed

text \<open>
  C6. An evaluation completes: if both targets open, every execution answers with a
  dictionary, stopping a machine never raises, the Contract of every selected case is known and
  the scoring configuration is good, then the run returns a result document.
\<close>

theorem evaluation_completes:
  assumes "answers env" and "quiet_stop env" and "good_config conf"
    and "list_all (\<lambda>c. k_contract c \<in> dom (map_of (cf_contracts cf))) (cf_selected cf)"
    and "mk (cf_reference_spec cf) = Inr ref" and "mk (cf_target_spec cf) = Inr cand"
  shows "\<exists>d t. evaluate_run env fr fp fg conf mk cf (run_init cf w) = (Inr d, t)"
  by (rule run_completes [OF assms])

section \<open>Self-tests\<close>

definition good_observation :: "pv \<Rightarrow> bool" where
  "good_observation obs \<longleftrightarrow> status_ok obs \<and> wf_pv obs \<and> is_dict obs"

text \<open>Every observation is a successful one, or the execution raises.\<close>

definition succeeds :: "('r, 'w) env \<Rightarrow> bool" where
  "succeeds env \<longleftrightarrow>
     (\<forall>c tw. case execute env c tw of (Inr obs, _) \<Rightarrow> good_observation obs | (Inl e, _) \<Rightarrow> True)"

definition reusing :: "('r, 'w) run_state \<Rightarrow> bool" where
  "reusing s \<longleftrightarrow> v_reuse s \<and> list_all (\<lambda>p. good_observation (p_observation p)) (v_reference_rows s)"

lemma on_reference_succeeds:
  fixes env :: "('r, 'w) env"
  assumes "succeeds env"
  shows "triple reusing (on_reference (execute env c)) (\<lambda>obs s. reusing s \<and> good_observation obs) (\<lambda>_ _. True)"
proof (rule tripleI)
  fix s :: "('r, 'w) run_state" and obs u assume r: "reusing s" and o: "on_reference (execute env c) s = (Inr obs, u)"
  then obtain t t' w' where e: "execute env c (t, v_world s) = (Inr obs, t', w')"
    by (auto simp: on_reference_def split: option.splits prod.splits)
  have "case execute env c (t, v_world s) of (Inr obs, _) \<Rightarrow> good_observation obs | (Inl e, _) \<Rightarrow> True"
    using assms unfolding succeeds_def by (elim allE)
  then show "reusing u \<and> good_observation obs"
    using e r on_reference_keeps [OF o] by (auto simp: reusing_def)
qed simp

lemma run_case_reusing:
  assumes "succeeds env"
  shows "triple reusing (run_case env fr fp cf (pos, c)) (\<lambda>_. reusing) (\<lambda>_ _. True)"
proof -
  have obs: "triple reusing (observe_reference env cf pos c) (\<lambda>_. reusing) (\<lambda>_ _. True)"
    unfolding observe_reference_def
    by (rule triple_bind [OF on_reference_succeeds [OF assms]])
       (auto simp: triple_def eseq_eq log_event_def persist_def reusing_def)
  have cand: "triple reusing (observe_candidate env pos c ref) (\<lambda>_. reusing) (\<lambda>_ _. True)" for ref
    by (auto simp: triple_def observe_candidate_def ebind_eq eseq_eq reusing_def)
  have compl: "triple reusing (complete_case fr fp cf pos c contract ref cand) (\<lambda>_. reusing) (\<lambda>_ _. True)"
    for contract ref cand
    by (auto simp: triple_def complete_case_def ebind_eq eseq_eq log_event_def persist_def reusing_def
        split: sum.split prod.split)
  have "triple reusing (ebind (elift r) (\<lambda>contract.
             ebind (observe_reference env cf pos c) (\<lambda>ref.
               ebind (observe_candidate env pos c ref) (\<lambda>cand.
                 complete_case fr fp cf pos c contract ref cand)))) (\<lambda>_. reusing) (\<lambda>_ _. True)" for r
    by (rule triple_bind [where R = "\<lambda>_. reusing"], simp add: triple_def split: sum.split)
       (rule triple_bind [OF obs triple_bind [OF cand compl]])
  moreover have "triple reusing (record_unsupported cf pos c reason) (\<lambda>_. reusing) (\<lambda>_ _. True)" for reason
    by (auto simp: triple_def record_unsupported_def eseq_eq log_event_def persist_def reusing_def)
  moreover have "triple reusing (start_case cf pos c) (\<lambda>_. reusing) (\<lambda>_ _. True)"
    by (auto simp: triple_def start_case_def eseq_eq log_event_def persist_def reusing_def)
  ultimately show ?thesis unfolding run_case_def prod.case by (intro triple_seq [OF _ triple_option])
qed

lemma run_body_reusing:
  assumes "succeeds env" and "cf_target_spec cf = cf_reference_spec cf"
    and "mk (cf_reference_spec cf) = Inr (LocalTarget name)"
  shows "triple opened (run_body env fr fp mk cf) (\<lambda>_. reusing) (\<lambda>_ _. True)"
proof -
  have op: "triple opened (open_targets mk cf) (\<lambda>_. reusing) (\<lambda>_ _. True)"
    using assms(2,3) by (simp add: triple_def open_targets_def ebind_eq eseq_eq reusing_def opened_def)
  have pe: "triple reusing (persist cf ''running'' None False) (\<lambda>_. reusing) (\<lambda>_ _. True)"
    by (simp add: triple_def persist_def reusing_def)
  have "triple reusing (run_case env fr fp cf (enumerate 1 (cf_selected cf) ! n)) (\<lambda>_. reusing) (\<lambda>_ _. True)"
    if "n < length (enumerate 1 (cf_selected cf))" for n
    using that run_case_reusing [OF assms(1)] by (simp add: nth_enumerate_eq)
  from triple_for [where I = "\<lambda>_. reusing" and xs = "enumerate 1 (cf_selected cf)"
      and body = "run_case env fr fp cf", OF this]
  show ?thesis unfolding run_body_def by (rule triple_seq [OF op triple_seq [OF pe]])
qed

lemma run_reusing:
  fixes env :: "('r, 'w) env" and w :: 'w and t :: "('r, 'w) run_state"
  assumes "succeeds env" and "cf_target_spec cf = cf_reference_spec cf"
    and "mk (cf_reference_spec cf) = Inr (LocalTarget name)"
    and "evaluate_run env fr fp fg conf mk cf (run_init cf w) = (Inr d, t)"
  shows "sel_reused (d_selection d) \<and> list_all (\<lambda>p. good_observation (p_observation p)) (v_reference_rows t)"
proof -
  obtain s0 :: "('r, 'w) run_state" where s0: "begin_run cf (run_init cf w) = (Inr (), s0)" "opened s0"
    using begin_run_ok [of cf w] by metis
  obtain s where g: "guarded_body env fr fp mk cf s0 = (Inr (), s)" and f: "finish_run fg conf cf s = (Inr d, t)"
    using assms(4) s0(1)
    by (cases "guarded_body env fr fp mk cf s0")
       (auto simp: evaluate_run_def guarded_body_def eseq_eq split: sum.splits)
  from g obtain s1 where b: "run_body env fr fp mk cf s0 = (Inr (), s1)"
    and c: "close_targets env s1 = (Inr (), s)"
    by (auto simp: guarded_body_def efinally_def eexcept_reraise_def eseq_eq split: prod.splits sum.splits)
  have "reusing s1" by (rule triple_Inr [OF run_body_reusing [where mk = mk and cf = cf, OF assms(1-3)] s0(2) b])
  then have s: "reusing s" using close_targets_keeps [OF c] by (auto simp: reusing_def)
  from f show ?thesis
    using s by (elim finish_run_Inr) (simp add: reusing_def result_of_def selection_document_def Let_def)
qed

text \<open>
  C9. A self-test passes: when reference and candidate are the same local target, every
  observation that is made is a successful, well-formed one, and no Contract asks for \<open>range\<close>
  equivalence, the observations are reused and every evaluated case passes.
\<close>

theorem selftest_passes:
  assumes "succeeds env" and "cf_target_spec cf = cf_reference_spec cf"
    and "mk (cf_reference_spec cf) = Inr (LocalTarget name)"
    and "list_all (\<lambda>(i, c). eq_kind (c_equivalence c) \<noteq> ''range'') (cf_contracts cf)"
    and "evaluate_run env fr fp fg conf mk cf (run_init cf w) = (Inr d, t)"
  shows "sel_reused (d_selection d) \<and> list_all r_passed (d_cases d)"
  using run_reusing [where mk = mk and cf = cf, OF assms(1,2,3,5)] reuse_passes [OF assms(5) _ _ assms(4)]
  by (simp add: good_observation_def)

section \<open>A run on two local targets\<close>

definition example_env :: "(unit, unit) env" where
  "example_env =
     \<lparr>e_probe = (\<lambda>c. eret (ok_observation [(''case'', PStr (k_id c))])),
      e_available = (\<lambda>_. True), e_is_file = (\<lambda>_ _. True),
      e_start = (\<lambda>_ _. eret ()), e_wait = (\<lambda>_. eret ()),
      e_agent = (\<lambda>_ c _. eret (ok_observation [])), e_stop = (\<lambda>_. eret ())\<rparr>"

definition example_run :: "string \<Rightarrow> run_config" where
  "example_run spec =
     \<lparr>cf_reference_spec = ''reference'', cf_target_spec = spec, cf_one_per_contract = False,
      cf_max_cases = None, cf_shard_count = 1, cf_shard_index = 0, cf_corpus_cases = 3,
      cf_selected = example_cases, cf_contracts = example_corpus, cf_dataset_sha256 = [],
      cf_dataset_file_sha256 = [], cf_contract_sha256 = [], cf_checkpoint = 25, cf_profile = ''local''\<rparr>"

definition example_make :: "string \<Rightarrow> unit target result" where
  "example_make = target_for ''ref.qcow2'' (Some ''local'') (\<lambda>s. s) (\<lambda>_. True)"

lemma example_env_answers: "answers example_env" "quiet_stop example_env"
proof -
  have "case execute example_env c tw of (Inr obs, _) \<Rightarrow> is_dict obs | (Inl e, _) \<Rightarrow> False" for c tw
    by (cases "(example_env, c, tw)" rule: execute.cases) (auto simp: example_env_def ok_observation_def)
  then show "answers example_env" by (simp add: answers_def)
  show "quiet_stop example_env" by (simp add: quiet_stop_def example_env_def)
qed

lemma example_run_known:
  "list_all (\<lambda>c. k_contract c \<in> dom (map_of (cf_contracts (example_run spec)))) (cf_selected (example_run spec))"
proof -
  have "fst ` set example_corpus = set (map fst (map (\<lambda>(i, c). (i, c_level c)) example_corpus))" by force
  then have "fst ` set example_corpus = {''a'', ''b''}" unfolding example_corpus_eq by simp
  then show ?thesis
    by (simp add: example_run_def example_cases_def example_case_def dom_map_of_conv_image_fst)
qed

lemma example_make_reference:
  "example_make ''reference'' = Inr (LocalTarget ''reference-host-fallback'')"
  "example_make ''os.img'' = Inr (QemuTarget ''os.img'' None)"
  by (simp_all add: example_make_def target_for_def lower_def lower_char_def)

lemma example_specs [simp]:
  "cf_reference_spec (example_run spec) = ''reference''" "cf_target_spec (example_run spec) = spec"
  by (simp_all add: example_run_def)

lemma example_completes:
  assumes "example_make spec = Inr cand"
  shows "\<exists>d t. evaluate_run example_env fr fp fg example_config example_make (example_run spec)
    (run_init (example_run spec) ()) = (Inr d, t)"
  by (rule run_completes [where mk = example_make and cf = "example_run spec"])
     (simp_all add: example_env_answers example_config_good example_run_known example_make_reference(1) assms)

theorem evaluation_completes_witness:
  "\<exists>d t. evaluate_run example_env (\<lambda>_. []) (\<lambda>_. None) (\<lambda>_. []) example_config example_make
     (example_run ''os.img'') (run_init (example_run ''os.img'') ()) = (Inr d, t)"
  by (rule evaluation_completes [where mk = example_make and cf = "example_run ''os.img''"])
     (simp_all add: example_env_answers example_config_good example_run_known example_make_reference)

lemma example_env_succeeds: "succeeds example_env"
proof -
  have "case execute example_env c tw of (Inr obs, _) \<Rightarrow> good_observation obs | (Inl e, _) \<Rightarrow> True" for c tw
    by (cases "(example_env, c, tw)" rule: execute.cases)
       (auto simp: example_env_def ok_observation_def good_observation_def status_ok_def pget_default_def pget_def)
  then show ?thesis by (simp add: succeeds_def)
qed

lemma example_kinds:
  "list_all (\<lambda>(i, c). eq_kind (c_equivalence c) \<noteq> ''range'') example_corpus"
  by code_simp

theorem selftest_passes_witness:
  "\<exists>d t. evaluate_run example_env (\<lambda>_. []) (\<lambda>_. None) (\<lambda>_. []) example_config example_make
     (example_run ''reference'') (run_init (example_run ''reference'') ()) = (Inr d, t) \<and>
     sel_reused (d_selection d) \<and> list_all r_passed (d_cases d)"
proof -
  obtain d t where run: "evaluate_run example_env (\<lambda>_. []) (\<lambda>_. None) (\<lambda>_. []) example_config example_make
     (example_run ''reference'') (run_init (example_run ''reference'') ()) = (Inr d, t)"
    using example_completes [OF example_make_reference(1)] by blast
  have "list_all (\<lambda>(i, c). eq_kind (c_equivalence c) \<noteq> ''range'') (cf_contracts (example_run ''reference''))"
    using example_kinds by (simp add: example_run_def)
  from selftest_passes [where mk = example_make and cf = "example_run ''reference''", OF example_env_succeeds _ _ this run] run show ?thesis
    by (auto simp: example_make_reference)
qed

section \<open>Witnesses of the run properties\<close>

theorem books_balance_witness:
  "\<exists>d t. evaluate_run example_env (\<lambda>_. []) (\<lambda>_. None) (\<lambda>_. []) example_config example_make
     (example_run ''reference'') (run_init (example_run ''reference'') ()) = (Inr d, t) \<and>
     sel_requested (d_selection d) = length (d_cases d) + length (d_unsupported d) \<and>
     mset (map r_case_id (d_cases d)) + mset (map fst (d_unsupported d)) =
       mset (map k_id (cf_selected (example_run ''reference'')))"
proof -
  obtain d t where run: "evaluate_run example_env (\<lambda>_. []) (\<lambda>_. None) (\<lambda>_. []) example_config example_make
     (example_run ''reference'') (run_init (example_run ''reference'') ()) = (Inr d, t)"
    using example_completes [OF example_make_reference(1)] by blast
  from books_balance [OF run] run show ?thesis by blast
qed

definition no_target :: "string \<Rightarrow> unit target result" where
  "no_target spec = Inl (FileNotFoundError spec)"

lemma example_failure:
  "\<exists>t. evaluate_run example_env (\<lambda>_. []) (\<lambda>_. None) (\<lambda>_. []) example_config no_target
     (example_run ''os.img'') (run_init (example_run ''os.img'') ()) = (Inl (FileNotFoundError ''reference''), t)"
  by (simp add: evaluate_run_def begin_run_def eseq_eq log_event_def persist_def run_body_def
      open_targets_def ebind_eq no_target_def eexcept_reraise_def efinally_def run_failed_def
      close_targets_def close_target_def run_init_def)


theorem targets_released_witness:
  "released (snd (evaluate_run example_env (\<lambda>_. []) (\<lambda>_. None) (\<lambda>_. []) example_config example_make
     (example_run ''os.img'') (run_init (example_run ''os.img'') ())))"
  by (rule targets_released [OF example_env_answers(2)]) (rule prod.collapse [symmetric])

end
