(* ===== verification/Results.thy ===== *)
theory Results
  imports Completion
begin

text \<open>
  \<open>results.py\<close>: the JSON form of a result document, its validation and summary, and the merging
  of the documents of several shards. A document read back from disk is a dynamic value; what
  an evaluation returned is a record, with the benchmark version it was written under.
\<close>

section \<open>Documents\<close>

record stored_document = result_document +
  d_version :: string

definition stored :: "result_document \<Rightarrow> stored_document" where
  "stored d = result_document.extend d \<lparr>d_version = BENCHMARK_VERSION\<rparr>"

definition p_opt :: "('a \<Rightarrow> pv) \<Rightarrow> 'a option \<Rightarrow> pv" where
  "p_opt f x = (case x of None \<Rightarrow> PNone | Some y \<Rightarrow> f y)"

definition p_nat :: "nat \<Rightarrow> pv" where
  "p_nat n = PInt (int n)"

definition p_dict :: "('a \<Rightarrow> pv) \<Rightarrow> (string, 'a) dict \<Rightarrow> pv" where
  "p_dict f d = PDict (map (\<lambda>(k, v). (k, f v)) d)"

definition case_json :: "case_result \<Rightarrow> pv" where
  "case_json r =
     PDict ([(''case_id'', PStr (r_case_id r)), (''contract'', PStr (r_contract r)),
             (''domain'', PStr (r_domain r)), (''level'', PStr (r_level r)), (''family'', PStr (r_family r)),
             (''passed'', PBool (r_passed r)), (''difference'', p_opt (\<lambda>d. d) (r_difference r)),
             (''reference_status'', r_reference_status r), (''candidate_status'', r_candidate_status r)] @
            (case r_ratio r of None \<Rightarrow> [] | Some q \<Rightarrow> [(''performance_ratio'', PFloat q)]))"

definition unsupported_json :: "string \<times> string \<Rightarrow> pv" where
  "unsupported_json = (\<lambda>(i, reason). PDict [(''case_id'', PStr i), (''reason'', PStr reason)])"

definition selection_json :: "selection \<Rightarrow> pv" where
  "selection_json s =
     PDict [(''corpus_cases'', p_nat (sel_corpus_cases s)),
            (''requested_cases'', p_nat (sel_requested s)),
            (''evaluated_cases'', p_nat (sel_evaluated s)),
            (''unsupported_cases'', p_nat (sel_unsupported s)),
            (''one_per_contract'', PBool (sel_one_per_contract s)),
            (''max_cases'', p_opt PInt (sel_max_cases s)),
            (''shard_count'', PInt (sel_shard_count s)),
            (''shard_index'', PInt (sel_shard_index s)),
            (''complete_shard_set'', PBool (sel_complete s)),
            (''reused_identical_observations'', PBool (sel_reused s)),
            (''dataset_sha256'', PStr (sel_dataset_sha256 s)),
            (''dataset_file_sha256'', PStr (sel_dataset_file_sha256 s)),
            (''contract_corpus_sha256'', PStr (sel_contract_sha256 s))]"

definition aggregate_json :: "aggregate \<Rightarrow> pv" where
  "aggregate_json a =
     PDict [(''passed'', PBool (a_passed a)), (''pass_rate'', PFloat (a_pass_rate a)),
            (''case_count'', p_nat (a_case_count a)),
            (''failed_cases'', PList (map PStr (a_failed_cases a)))]"

definition scores_json :: "score_document \<Rightarrow> pv" where
  "scores_json s =
     PDict ([(''OSCorrect'', PFloat (s_oscorrect s)),
             (''ObservedCorrect'', PFloat (s_observed_correct s)),
             (''Depth90'', p_opt PStr (s_depth90 s)),
             (''ObservedDepth90'', p_opt PStr (s_observed_depth90 s))] @
            map (\<lambda>(k, v). (k, p_opt PFloat v)) (s_native s) @
            [(''boot_gate'', PFloat (s_boot_gate s)),
             (''observed_boot_gate'', PFloat (s_observed_boot_gate s)),
             (''level_scores'', p_dict PFloat (s_level_scores s)),
             (''observed_level_scores'', p_dict (p_opt PFloat) (s_observed_level_scores s)),
             (''level_coverage'', p_dict PFloat (s_level_coverage s)),
             (''contract_scores'', p_dict PFloat (s_contract_scores s)),
             (''evaluated_contracts'', p_nat (s_evaluated_contracts s)),
             (''passed_contracts'', p_nat (s_passed_contracts s)),
             (''corpus_contracts'', p_nat (s_corpus_contracts s)),
             (''contract_coverage'', PFloat (s_contract_coverage s)),
             (''evaluated_cases'', p_nat (s_evaluated_cases s)),
             (''official_performance_profile'', PBool (s_official s)),
             (''native_workload_contracts'', p_nat (s_native_workloads s))])"

definition metrics_json :: "metrics \<Rightarrow> pv" where
  "metrics_json m =
     PDict [(''evaluated_cases'', p_nat (m_evaluated m)), (''oracle_queries'', p_nat (m_queries m)),
            (''passed_contracts'', p_nat (m_passed m)), (''target'', PStr (m_target m))]"

definition document_json :: "string \<Rightarrow> stored_document \<Rightarrow> pv" where
  "document_json run_id d =
     PDict [(''schema_version'', PStr ''osbench.results.v1''),
            (''benchmark_version'', PStr (d_version d)),
            (''reference_id'', PStr REFERENCE_ID),
            (''run_id'', PStr run_id),
            (''host'', PDict [(''profile'', PStr (d_profile d))]),
            (''reference_target'', PStr (d_reference d)),
            (''candidate_target'', PStr (d_candidate d)),
            (''selection'', selection_json (d_selection d)),
            (''scores'', scores_json (d_scores d)),
            (''trajectory'', metrics_json (d_metrics d)),
            (''contracts'', p_dict aggregate_json (d_contracts d)),
            (''cases'', PList (map case_json (d_cases d))),
            (''unsupported'', PList (map unsupported_json (d_unsupported d)))]"

section \<open>Validation\<close>

text \<open>\<open>key in value\<close>.\<close>

fun py_contains :: "pv \<Rightarrow> string \<Rightarrow> bool result" where
  "py_contains (PDict kvs) k = Inr (k \<in> fst ` set kvs)"
| "py_contains (PList xs) k = Inr (list_ex (\<lambda>x. py_eq x (PStr k)) xs)"
| "py_contains (PStr s) k = Inr (sublist k s)"
| "py_contains _ k = Inl (TypeError ''argument is not iterable'')"

text \<open>\<open>len(values) != len(set(values))\<close>; lists and dictionaries cannot be elements of a set.\<close>

fun hashable :: "pv \<Rightarrow> bool" where
  "hashable (PList _) = False"
| "hashable (PDict _) = False"
| "hashable _ = True"

fun repeats :: "pv list \<Rightarrow> bool" where
  "repeats [] = False"
| "repeats (x # xs) = (list_ex (py_eq x) xs \<or> repeats xs)"

definition has_duplicates :: "pv list \<Rightarrow> bool result" where
  "has_duplicates xs =
     (if list_all hashable xs then Inr (repeats xs) else Inl (TypeError ''unhashable type''))"

definition REQUIRED_KEYS :: "string list" where
  "REQUIRED_KEYS = [''schema_version'', ''benchmark_version'', ''run_id'', ''scores'', ''selection'',
     ''cases'', ''unsupported'']"

definition missing_issues :: "pv \<Rightarrow> string list result" where
  "missing_issues doc =
     rbind (map_result (\<lambda>k. rbind (py_contains doc k) (\<lambda>b. Inr (k, b))) REQUIRED_KEYS) (\<lambda>kbs.
       Inr (map (\<lambda>(k, _). ''missing '' @ k) (filter (\<lambda>(_, b). \<not> b) kbs)))"

fun as_int :: "pv \<Rightarrow> int option" where
  "as_int (PInt i) = Some i"
| "as_int (PBool b) = Some (of_bool b)"
| "as_int _ = None"

text \<open>
  The expression \<open>isinstance(requested, int) and requested != len(...) + len(...)\<close>: the
  lengths are only taken when the first operand holds.
\<close>

definition accounting_mismatch :: "pv \<Rightarrow> pv \<Rightarrow> bool result" where
  "accounting_mismatch doc requested =
     (case as_int requested of
        None \<Rightarrow> Inr False
      | Some n \<Rightarrow>
          rbind (py_get doc ''cases'' (PList [])) (\<lambda>cases. rbind (py_len cases) (\<lambda>a.
            rbind (py_get doc ''unsupported'' (PList [])) (\<lambda>unsup. rbind (py_len unsup) (\<lambda>b.
              Inr (n \<noteq> int (a + b)))))))"

definition summarize :: "pv \<Rightarrow> pv result" where
  "summarize doc =
     rbind (py_get doc ''scores'' (PDict [])) (\<lambda>scores.
     rbind (py_get doc ''cases'' (PList [])) (\<lambda>cases.
     rbind (py_get doc ''unsupported'' (PList [])) (\<lambda>unsup.
     rbind (py_get doc ''selection'' (PDict [])) (\<lambda>sel.
     rbind (py_get sel ''requested_cases'' PNone) (\<lambda>requested.
     rbind (py_len cases) (\<lambda>n.
     rbind (py_len unsup) (\<lambda>m.
     rbind (py_iter cases) (\<lambda>items.
     rbind (map_result (\<lambda>c. py_get c ''passed'' (PBool False)) items) (\<lambda>flags.
     rbind (py_get scores ''OSCorrect'' PNone) (\<lambda>oscorrect.
     rbind (py_get scores ''ObservedCorrect'' PNone) (\<lambda>observed.
     rbind (py_get scores ''Depth90'' PNone) (\<lambda>depth90.
     rbind (py_get scores ''ObservedDepth90'' PNone) (\<lambda>observed_depth.
       Inr (PDict [(''run_id'', pget_default doc ''run_id'' PNone),
                   (''reference'', pget_default doc ''reference_target'' PNone),
                   (''candidate'', pget_default doc ''candidate_target'' PNone),
                   (''requested'', requested),
                   (''evaluated'', p_nat n),
                   (''unsupported'', p_nat m),
                   (''failed'', p_nat (length (filter (\<lambda>p. \<not> truthy p) flags))),
                   (''OSCorrect'', oscorrect),
                   (''ObservedCorrect'', observed),
                   (''Depth90'', depth90),
                   (''ObservedDepth90'', observed_depth)]))))))))))))))"

record validation =
  w_valid :: bool
  w_issues :: "string list"
  w_summary :: "pv option"

text \<open>\<open>validate_results\<close> on what \<open>read_json\<close> returned or raised.\<close>

definition validate_results :: "pv result \<Rightarrow> validation result" where
  "validate_results input =
     (case input of
        Inl e \<Rightarrow> Inr \<lparr>w_valid = False, w_issues = [exn_message e], w_summary = None\<rparr>
      | Inr doc \<Rightarrow>
          rbind (missing_issues doc) (\<lambda>missing.
          rbind (py_get doc ''schema_version'' PNone) (\<lambda>version.
          rbind (py_get doc ''selection'' (PDict [])) (\<lambda>sel.
          rbind (py_get sel ''requested_cases'' PNone) (\<lambda>requested.
          rbind (accounting_mismatch doc requested) (\<lambda>mismatch.
          rbind (py_get doc ''cases'' (PList [])) (\<lambda>cases.
          rbind (py_iter cases) (\<lambda>items.
          rbind (map_result (\<lambda>c. py_get c ''case_id'' PNone) items) (\<lambda>ids.
          rbind (has_duplicates ids) (\<lambda>dup.
            let issues = missing @
                (if py_eq version (PStr ''osbench.results.v1'') then [] else [''unsupported schema_version'']) @
                (if mismatch then [''case accounting mismatch''] else []) @
                (if dup then [''duplicate evaluated case_id''] else [])
            in if issues = []
               then rbind (summarize doc) (\<lambda>s. Inr \<lparr>w_valid = True, w_issues = [], w_summary = Some s\<rparr>)
               else Inr \<lparr>w_valid = False, w_issues = issues, w_summary = None\<rparr>))))))))))"

section \<open>Merging\<close>

definition merge_selection :: "stored_document list \<Rightarrow> selection \<Rightarrow> selection" where
  "merge_selection docs base =
     base\<lparr>sel_requested := length (concat (map d_cases docs)) + length (concat (map d_unsupported docs)),
          sel_evaluated := length (concat (map d_cases docs)),
          sel_unsupported := length (concat (map d_unsupported docs)),
          sel_complete := True\<rparr>"

text \<open>
  \<open>merge_results\<close> on the documents of the given files: \<open>base\<close> is a copy of the first one, of
  which the fields below are replaced. The scores are computed against the current corpus.
\<close>

definition merge_results ::
  "(real \<Rightarrow> string) \<Rightarrow> scoring_config \<Rightarrow> corpus \<Rightarrow> stored_document list \<Rightarrow> stored_document result" where
  "merge_results fg conf contracts docs =
     (case docs of
        [] \<Rightarrow> Inl (ValueError ''no result files'')
      | base # _ \<Rightarrow>
          if list_ex (\<lambda>d. d_version d \<noteq> d_version base) docs
          then Inl (ValueError ''incompatible benchmark versions'')
          else
            (let cases = concat (map d_cases docs);
                 profile = (if d_profile base = [] then ''local'' else d_profile base)
             in rbind (score_results fg conf cases contracts profile) (\<lambda>scores.
                  Inr (base\<lparr>d_cases := cases,
                            d_unsupported := concat (map d_unsupported docs),
                            d_selection := merge_selection docs (d_selection base),
                            d_scores := scores,
                            d_contracts := aggregate_contract_results cases\<rparr>))))"

end
