(* ===== verification/ResultsFacts.thy ===== *)
theory ResultsFacts
  imports Results
begin

text \<open>
  A document that the evaluator or the merge writes passes the validator exactly when no case
  id occurs twice; merging keeps every case and sums the accounts of its inputs.
\<close>

section \<open>The validator on written documents\<close>

lemma map_result_Inr: "map_result (\<lambda>x. Inr (f x)) xs = Inr (map f xs)"
  by (induction xs) simp_all

lemma map_result_ok: "(\<And>x. x \<in> set xs \<Longrightarrow> f x = Inr (g x)) \<Longrightarrow> map_result f xs = Inr (map g xs)"
  by (induction xs) simp_all

lemma py_get_json [simp]:
  "py_get (PDict kvs) k dflt = Inr (case map_of kvs k of None \<Rightarrow> dflt | Some v \<Rightarrow> v)"
  by (simp add: py_get_def pget_default_def pget_def)

lemma repeats_strings: "repeats (map PStr xs) \<longleftrightarrow> \<not> distinct xs"
  by (induction xs) (auto simp: list_ex_iff)

lemma has_duplicates_strings: "has_duplicates (map PStr xs) = Inr (\<not> distinct xs)"
proof -
  have "list_all hashable (map PStr xs)" by (simp add: list_all_iff)
  then show ?thesis by (simp add: has_duplicates_def repeats_strings)
qed

lemma missing_none: "missing_issues (document_json run_id d) = Inr []"
proof -
  have "py_contains (document_json run_id d) k = Inr True" if "k \<in> set REQUIRED_KEYS" for k
    using that by (auto simp: REQUIRED_KEYS_def document_json_def)
  then have "map_result (\<lambda>k. rbind (py_contains (document_json run_id d) k) (\<lambda>b. Inr (k, b))) REQUIRED_KEYS =
      Inr (map (\<lambda>k. (k, True)) REQUIRED_KEYS)"
    by (intro map_result_ok) simp
  then show ?thesis by (simp add: missing_issues_def)
qed

lemma case_json_fields:
  "py_get (case_json r) ''case_id'' dflt = Inr (PStr (r_case_id r))"
  "py_get (case_json r) ''passed'' dflt = Inr (PBool (r_passed r))"
  by (simp_all add: case_json_def)

lemma case_json_ids: "map_result (\<lambda>c. py_get c ''case_id'' PNone) (map case_json rs) = Inr (map PStr (map r_case_id rs))"
  by (induction rs) (simp_all add: case_json_fields)

lemma case_json_flags: "map_result (\<lambda>c. py_get c ''passed'' (PBool False)) (map case_json rs) = Inr (map (\<lambda>r. PBool (r_passed r)) rs)"
  by (induction rs) (simp_all add: case_json_fields)

lemma document_fields:
  "py_get (document_json run_id d) ''schema_version'' v = Inr (PStr ''osbench.results.v1'')"
  "py_get (document_json run_id d) ''selection'' v = Inr (selection_json (d_selection d))"
  "py_get (document_json run_id d) ''scores'' v = Inr (scores_json (d_scores d))"
  "py_get (document_json run_id d) ''cases'' v = Inr (PList (map case_json (d_cases d)))"
  "py_get (document_json run_id d) ''unsupported'' v = Inr (PList (map unsupported_json (d_unsupported d)))"
  by (simp_all add: document_json_def)

lemma selection_requested:
  "py_get (selection_json s) ''requested_cases'' v = Inr (p_nat (sel_requested s))"
  by (simp add: selection_json_def)

lemma scores_fields: "\<exists>v. py_get (scores_json s) k dflt = Inr v"
  by (simp add: scores_json_def)

lemma summarize_ok: "\<exists>s. summarize (document_json run_id d) = Inr s"
proof -
  obtain a b c e where "py_get (scores_json (d_scores d)) ''OSCorrect'' PNone = Inr a"
    "py_get (scores_json (d_scores d)) ''ObservedCorrect'' PNone = Inr b"
    "py_get (scores_json (d_scores d)) ''Depth90'' PNone = Inr c"
    "py_get (scores_json (d_scores d)) ''ObservedDepth90'' PNone = Inr e"
    using scores_fields by metis
  then show ?thesis
    by (simp add: summarize_def document_fields selection_requested case_json_flags del: py_get_json)
qed

lemma subseq_distinct: "subseq xs ys \<Longrightarrow> distinct ys \<Longrightarrow> distinct xs"
  by (induction rule: list_emb.induct) (auto dest: list_emb_set)

definition accounted :: "stored_document \<Rightarrow> bool" where
  "accounted d \<longleftrightarrow> sel_requested (d_selection d) = length (d_cases d) + length (d_unsupported d)"

lemma validate_written:
  obtains s where "validate_results (Inr (document_json run_id d)) =
    (let issues = (if accounted d then [] else [''case accounting mismatch'']) @
           (if distinct (map r_case_id (d_cases d)) then [] else [''duplicate evaluated case_id''])
     in Inr \<lparr>w_valid = (issues = []), w_issues = issues,
             w_summary = (if issues = [] then Some s else None)\<rparr>)"
proof -
  obtain s where s: "summarize (document_json run_id d) = Inr s" using summarize_ok by blast
  have "accounting_mismatch (document_json run_id d) (p_nat (sel_requested (d_selection d))) = Inr (\<not> accounted d)"
    by (auto simp: accounting_mismatch_def p_nat_def document_fields accounted_def simp del: py_get_json)
  then have "validate_results (Inr (document_json run_id d)) =
    (let issues = (if accounted d then [] else [''case accounting mismatch'']) @
           (if distinct (map r_case_id (d_cases d)) then [] else [''duplicate evaluated case_id''])
     in Inr \<lparr>w_valid = (issues = []), w_issues = issues,
             w_summary = (if issues = [] then Some s else None)\<rparr>)"
    by (simp add: validate_results_def missing_none document_fields selection_requested case_json_ids
        has_duplicates_strings s Let_def del: py_get_json map_map)
  then show thesis using that by blast
qed

lemma stored_fields [simp]:
  "d_cases (stored d) = d_cases d" "d_unsupported (stored d) = d_unsupported d"
  "d_selection (stored d) = d_selection d" "d_version (stored d) = BENCHMARK_VERSION"
  "d_profile (stored d) = d_profile d"
  by (simp_all add: stored_def result_document.defs)

text \<open>
  C13. The document an evaluation writes is one the results validator accepts, provided that no
  case was selected twice; if a case id occurs twice among the evaluated cases, the validator
  reports exactly that.
\<close>

theorem written_document_validates:
  assumes "evaluate_run env fr fp fg conf mk cf (run_init cf w) = (Inr d, t)"
  shows "\<exists>v. validate_results (Inr (document_json run_id (stored d))) = Inr v \<and>
    w_issues v = (if distinct (map r_case_id (d_cases d)) then [] else [''duplicate evaluated case_id'']) \<and>
    (distinct (map k_id (cf_selected cf)) \<longrightarrow> w_valid v)"
proof -
  have acc: "accounted (stored d)"
    and sub: "subseq (map r_case_id (d_cases d)) (map k_id (cf_selected cf))"
    using run_books [OF assms] by (simp_all add: accounted_def)
  have "distinct (map k_id (cf_selected cf)) \<Longrightarrow> distinct (map r_case_id (d_cases d))"
    using sub by (rule subseq_distinct)
  moreover obtain s where "validate_results (Inr (document_json run_id (stored d))) =
    (let issues = (if accounted (stored d) then [] else [''case accounting mismatch'']) @
           (if distinct (map r_case_id (d_cases (stored d))) then [] else [''duplicate evaluated case_id''])
     in Inr \<lparr>w_valid = (issues = []), w_issues = issues,
             w_summary = (if issues = [] then Some s else None)\<rparr>)"
    by (rule validate_written)
  ultimately show ?thesis using acc by (auto simp: Let_def)
qed

theorem written_document_validates_witness:
  "\<exists>d t v. evaluate_run example_env (\<lambda>_. []) (\<lambda>_. None) (\<lambda>_. []) example_config example_make
      (example_run ''reference'') (run_init (example_run ''reference'') ()) = (Inr d, t) \<and>
     validate_results (Inr (document_json ''eval-1'' (stored d))) = Inr v \<and> w_valid v"
proof -
  obtain d t where run: "evaluate_run example_env (\<lambda>_. []) (\<lambda>_. None) (\<lambda>_. []) example_config example_make
     (example_run ''reference'') (run_init (example_run ''reference'') ()) = (Inr d, t)"
    using example_completes [OF example_make_reference(1)] by blast
  have "distinct (map k_id (cf_selected (example_run ''reference'')))"
    by (simp add: example_run_def example_cases_def example_case_def)
  with written_document_validates [OF run, of "''eval-1''"] run show ?thesis by blast
qed

section \<open>Merging\<close>


lemma run_known:
  assumes "evaluate_run env fr fp fg conf mk cf (run_init cf w) = (Inr d, t)"
  shows "unknown_contract (cf_contracts cf) (d_cases d) = None"
proof -
  have "list_all2 (verdict_recorded fr fp (cf_contracts cf) (sel_reused (d_selection d))) (d_cases d)
      (zip (v_reference_rows t) (v_candidate_rows t))"
    using run_books [OF assms] by simp
  then have "r_contract r \<in> dom (map_of (cf_contracts cf))" if "r \<in> set (d_cases d)" for r
    using that by (auto simp: list_all2_conv_all_nth in_set_conv_nth verdict_recorded_def split: prod.splits)
  then show ?thesis by (auto simp: unknown_contract_None_iff dom_map_of_conv_image_fst)
qed

lemma merge_accounted: "merge_results fg conf contracts docs = Inr m \<Longrightarrow> accounted m"
  by (auto simp: merge_results_def merge_selection_def accounted_def Let_def result_simps
      split: if_splits list.splits)

lemma merge_lists:
  "merge_results fg conf contracts docs = Inr m \<Longrightarrow>
     d_cases m = concat (map d_cases docs) \<and> d_unsupported m = concat (map d_unsupported docs)"
  by (auto simp: merge_results_def Let_def result_simps split: if_splits list.splits)


end
