(* ===== verification/Evaluate.thy ===== *)
theory Evaluate
  imports ResultsFacts
begin

text \<open>
  \<open>evaluate\<close> of \<open>oracle.py\<close> from its first line: the Contract corpus must be valid, the public
  dataset must agree with its manifest, and the selection must be in range before any target is
  opened. What these checks read (the Contract files, the parsed dataset, its digests and its
  manifest) is a record. Then \<open>selftest\<close>, one case per Contract on the reference itself.
\<close>

section \<open>The dataset and its manifest\<close>

text \<open>\<open>int(value)\<close>; \<open>fi\<close> parses an integer literal.\<close>

fun py_int :: "(string \<Rightarrow> int option) \<Rightarrow> pv \<Rightarrow> int result" where
  "py_int fi (PInt i) = Inr i"
| "py_int fi (PBool b) = Inr (of_bool b)"
| "py_int fi (PFloat r) = Inr (if r < 0 then \<lceil>r\<rceil> else \<lfloor>r\<rfloor>)"
| "py_int fi (PStr s) =
     (case fi s of None \<Rightarrow> Inl (ValueError (''invalid literal for int() with base 10: '' @ repr_str s))
      | Some i \<Rightarrow> Inr i)"
| "py_int fi _ = Inl (TypeError ''int() argument must be a string, a bytes-like object or a real number'')"

record workspace =
  ws_files :: "(string \<times> pv result) list"
  ws_cases :: "pv list"
  ws_manifest :: "pv option"
  ws_dataset_sha256 :: string
  ws_dataset_file_sha256 :: string
  ws_contract_sha256 :: string

definition mismatch_text :: "(real \<Rightarrow> string) \<Rightarrow> string \<Rightarrow> pv \<Rightarrow> string \<Rightarrow> string" where
  "mismatch_text fr what expected observed =
     what @ '' expected '' @ py_str fr expected @ '' observed '' @ observed"

text \<open>The mismatches of a manifest, in the order of the three checks.\<close>

definition manifest_mismatches ::
  "(real \<Rightarrow> string) \<Rightarrow> (string \<Rightarrow> int option) \<Rightarrow> pv \<Rightarrow> nat \<Rightarrow> string \<Rightarrow> string \<Rightarrow> string list result" where
  "manifest_mismatches fr fi manifest n file_sha256 contract_sha256 =
     rbind (py_get manifest ''case_count'' (PInt (-1))) (\<lambda>raw_count.
     rbind (py_int fi raw_count) (\<lambda>count.
     rbind (py_get manifest ''case_count'' PNone) (\<lambda>shown_count.
     rbind (py_get manifest ''cases_sha256'' PNone) (\<lambda>cases.
     rbind (py_get manifest ''contract_corpus_sha256'' PNone) (\<lambda>contracts.
       Inr ((if count \<noteq> int n then [mismatch_text fr ''case_count'' shown_count (str_of_nat n)] else []) @
            (if \<not> py_eq cases (PStr file_sha256)
             then [mismatch_text fr ''cases_sha256'' cases file_sha256] else []) @
            (if \<not> py_eq contracts (PStr contract_sha256)
             then [mismatch_text fr ''contract_corpus_sha256'' contracts contract_sha256] else [])))))))"

definition verify_public_dataset ::
  "(real \<Rightarrow> string) \<Rightarrow> (string \<Rightarrow> int option) \<Rightarrow> workspace \<Rightarrow> unit result" where
  "verify_public_dataset fr fi ws =
     (case ws_manifest ws of
        None \<Rightarrow> Inl (ValueError ''Public dataset manifest is missing; run `osbench dataset build --profile public`.'')
      | Some manifest \<Rightarrow>
          rbind (manifest_mismatches fr fi manifest (length (ws_cases ws)) (ws_dataset_file_sha256 ws)
              (ws_contract_sha256 ws)) (\<lambda>mismatches.
            if mismatches = [] then Inr ()
            else Inl (ValueError (''Public dataset and manifest are out of sync: '' @
                   join ''; '' mismatches @
                   ''. Rebuild with `osbench dataset build --profile public --seed 1 --cases-per-contract 10 --check-determinism`.''))))"

section \<open>A whole evaluation\<close>

record request =
  q_target :: string
  q_reference :: string
  q_max_cases :: "int option"
  q_one_per_contract :: bool
  q_shard_count :: int
  q_shard_index :: int

definition config_of ::
  "int \<Rightarrow> string \<Rightarrow> request \<Rightarrow> workspace \<Rightarrow> contract list \<Rightarrow> bench_case list \<Rightarrow> run_config" where
  "config_of checkpoint profile q ws contracts selected =
     \<lparr>cf_reference_spec = q_reference q, cf_target_spec = q_target q,
      cf_one_per_contract = q_one_per_contract q, cf_max_cases = q_max_cases q,
      cf_shard_count = q_shard_count q, cf_shard_index = q_shard_index q,
      cf_corpus_cases = length (ws_cases ws), cf_selected = selected,
      cf_contracts = contracts_by_id contracts, cf_dataset_sha256 = ws_dataset_sha256 ws,
      cf_dataset_file_sha256 = ws_dataset_file_sha256 ws, cf_contract_sha256 = ws_contract_sha256 ws,
      cf_checkpoint = checkpoint, cf_profile = profile\<rparr>"

text \<open>The statements before the run directory is made.\<close>

definition prepare ::
  "nat \<Rightarrow> (pv \<Rightarrow> schema_error list) \<Rightarrow> (real \<Rightarrow> string) \<Rightarrow> (string \<Rightarrow> int option) \<Rightarrow> (string \<Rightarrow> nat list) \<Rightarrow>
     int \<Rightarrow> string \<Rightarrow> request \<Rightarrow> workspace \<Rightarrow> run_config result" where
  "prepare limit iter_errors fr fi digest checkpoint profile q ws =
     rbind (validate_contracts limit iter_errors (ws_files ws)) (\<lambda>report.
       if \<not> valid report then Inl (ValueError ''Contract corpus is invalid'')
       else rbind (verify_public_dataset fr fi ws) (\<lambda>_.
         rbind (select_cases digest (q_one_per_contract q) (q_max_cases q) (q_shard_count q)
             (q_shard_index q) (map case_of_doc (ws_cases ws))) (\<lambda>selected.
           Inr (config_of checkpoint profile q ws (r_contracts report) selected))))"

definition evaluate ::
  "(request \<Rightarrow> run_config result) \<Rightarrow> (run_config \<Rightarrow> 'w \<Rightarrow> result_document result \<times> ('r, 'w) run_state) \<Rightarrow>
     request \<Rightarrow> 'w \<Rightarrow> stored_document result \<times> ('r, 'w) run_state option" where
  "evaluate prep run q w =
     (case prep q of
        Inl e \<Rightarrow> (Inl e, None)
      | Inr cf \<Rightarrow> (case run cf w of
          (Inl e, s) \<Rightarrow> (Inl e, Some s)
        | (Inr d, s) \<Rightarrow> (Inr (stored d), Some s)))"

definition selftest_request :: request where
  "selftest_request =
     \<lparr>q_target = ''reference'', q_reference = ''reference'', q_max_cases = None,
      q_one_per_contract = True, q_shard_count = 1, q_shard_index = 0\<rparr>"

definition selftest ::
  "(request \<Rightarrow> run_config result) \<Rightarrow> (run_config \<Rightarrow> 'w \<Rightarrow> result_document result \<times> ('r, 'w) run_state) \<Rightarrow>
     'w \<Rightarrow> stored_document result \<times> ('r, 'w) run_state option" where
  "selftest prep run w = evaluate prep run selftest_request w"

section \<open>What a document is evidence of\<close>

lemma prepare_Inr:
  assumes "prepare limit iter_errors fr fi digest checkpoint profile q ws = Inr cf"
  obtains report selected where
    "validate_contracts limit iter_errors (ws_files ws) = Inr report" "valid report"
    "verify_public_dataset fr fi ws = Inr ()"
    "select_cases digest (q_one_per_contract q) (q_max_cases q) (q_shard_count q)
       (q_shard_index q) (map case_of_doc (ws_cases ws)) = Inr selected"
    "cf = config_of checkpoint profile q ws (r_contracts report) selected"
  using assms by (auto simp: prepare_def result_simps split: if_splits)

lemma verified_dataset_iff:
  "verify_public_dataset fr fi ws = Inr () \<longleftrightarrow>
     (\<exists>kvs. ws_manifest ws = Some (PDict kvs) \<and>
        py_int fi (case map_of kvs ''case_count'' of None \<Rightarrow> PInt (-1) | Some v \<Rightarrow> v) =
          Inr (int (length (ws_cases ws))) \<and>
        map_of kvs ''cases_sha256'' = Some (PStr (ws_dataset_file_sha256 ws)) \<and>
        map_of kvs ''contract_corpus_sha256'' = Some (PStr (ws_contract_sha256 ws)))"
proof (cases "ws_manifest ws")
  case (Some m)
  have py_eq_str: "py_eq v (PStr s) \<longleftrightarrow> v = PStr s" for v s
    by (cases v) auto
  show ?thesis
  proof (cases m)
    case (PDict kvs)
    show ?thesis
      unfolding verify_public_dataset_def manifest_mismatches_def Some PDict
      by (auto simp: py_eq_str result_simps rbind_def split: option.splits sum.splits if_splits)
  qed (simp_all add: Some verify_public_dataset_def manifest_mismatches_def py_get_def)
qed (simp add: verify_public_dataset_def)

lemma run_selection:
  assumes "evaluate_run env fr fp fg conf mk cf (run_init cf w) = (Inr d, t)"
  shows "\<exists>reuse. d_selection d = selection_document cf (length (d_cases d)) (length (d_unsupported d)) reuse"
  using assms
proof (cases rule: evaluate_run_cases)
  case (completed s d')
  show ?thesis
    using completed(2,3)
    by (elim finish_run_Inr) (auto simp: result_of_def Let_def)
qed simp_all

lemma evaluate_Inr:
  assumes "evaluate prep (\<lambda>cf w. evaluate_run env fr fp fg conf mk cf (run_init cf w)) q w = (Inr d, s)"
  obtains cf d' t where "prep q = Inr cf" "d = stored d'" "s = Some t"
    "evaluate_run env fr fp fg conf mk cf (run_init cf w) = (Inr d', t)"
  using assms by (auto simp: evaluate_def split: sum.splits prod.splits)

text \<open>
  C11. A document is evidence about the corpus on disk: an evaluation returns one only if every
  Contract document is well formed and consistent, the dataset has the number of cases and the
  digests that its manifest names, and the shard arguments are in range; the document then names
  these digests, and its evaluated and unsupported cases are exactly the cases of that shard.
\<close>

theorem document_is_bound:
  assumes "length (ws_files ws) < limit"
    and "evaluate (\<lambda>q. prepare limit iter_errors fr fi digest checkpoint profile q ws)
      (\<lambda>cf w. evaluate_run env fr fp fg conf mk cf (run_init cf w)) q w = (Inr d, s)"
  shows "well_formed_corpus iter_errors (ws_files ws) \<and>
    (\<exists>kvs. ws_manifest ws = Some (PDict kvs) \<and>
       map_of kvs ''cases_sha256'' = Some (PStr (ws_dataset_file_sha256 ws)) \<and>
       map_of kvs ''contract_corpus_sha256'' = Some (PStr (ws_contract_sha256 ws)) \<and>
       py_int fi (case map_of kvs ''case_count'' of None \<Rightarrow> PInt (-1) | Some v \<Rightarrow> v) =
         Inr (int (length (ws_cases ws)))) \<and>
    sel_dataset_sha256 (d_selection d) = ws_dataset_sha256 ws \<and>
    sel_dataset_file_sha256 (d_selection d) = ws_dataset_file_sha256 ws \<and>
    sel_contract_sha256 (d_selection d) = ws_contract_sha256 ws \<and>
    (\<exists>selected. select_cases digest (q_one_per_contract q) (q_max_cases q) (q_shard_count q) (q_shard_index q)
         (map case_of_doc (ws_cases ws)) = Inr selected \<and>
       mset (map r_case_id (d_cases d)) + mset (map fst (d_unsupported d)) = mset (map k_id selected))"
proof -
  obtain cf d' t where p: "prepare limit iter_errors fr fi digest checkpoint profile q ws = Inr cf"
    and d: "d = stored d'" and run: "evaluate_run env fr fp fg conf mk cf (run_init cf w) = (Inr d', t)"
    by (rule evaluate_Inr [OF assms(2)])
  from p obtain report selected where v: "validate_contracts limit iter_errors (ws_files ws) = Inr report"
      "valid report" "verify_public_dataset fr fi ws = Inr ()"
    and sel: "select_cases digest (q_one_per_contract q) (q_max_cases q) (q_shard_count q)
       (q_shard_index q) (map case_of_doc (ws_cases ws)) = Inr selected"
    and cf: "cf = config_of checkpoint profile q ws (r_contracts report) selected"
    by (rule prepare_Inr)
  have "well_formed_corpus iter_errors (ws_files ws)"
    using validate_ok [OF assms(1), of iter_errors] v by auto
  moreover have "mset (map r_case_id (d_cases d)) + mset (map fst (d_unsupported d)) = mset (map k_id selected)"
    using run_books [OF run] by (simp add: d cf config_of_def)
  moreover obtain reuse where
    "d_selection d' = selection_document cf (length (d_cases d')) (length (d_unsupported d')) reuse"
    using run_selection [OF run] by blast
  then have "sel_dataset_sha256 (d_selection d) = ws_dataset_sha256 ws"
    "sel_dataset_file_sha256 (d_selection d) = ws_dataset_file_sha256 ws"
    "sel_contract_sha256 (d_selection d) = ws_contract_sha256 ws"
    by (simp_all add: d cf config_of_def selection_document_def)
  moreover have "\<exists>kvs. ws_manifest ws = Some (PDict kvs) \<and>
       map_of kvs ''cases_sha256'' = Some (PStr (ws_dataset_file_sha256 ws)) \<and>
       map_of kvs ''contract_corpus_sha256'' = Some (PStr (ws_contract_sha256 ws)) \<and>
       py_int fi (case map_of kvs ''case_count'' of None \<Rightarrow> PInt (-1) | Some v \<Rightarrow> v) =
         Inr (int (length (ws_cases ws)))"
    using v(3) unfolding verified_dataset_iff by blast
  ultimately show ?thesis using sel by simp
qed

definition example_case_doc :: "string \<Rightarrow> string \<Rightarrow> pv" where
  "example_case_doc i c =
     PDict [(''case_id'', PStr i), (''contract'', PStr c), (''domain'', PStr ''process''), (''level'', PStr ''boot'')]"

definition example_workspace :: workspace where
  "example_workspace =
     \<lparr>ws_files = example_files,
      ws_cases = [example_case_doc ''a:1'' ''a'', example_case_doc ''b:1'' ''b''],
      ws_manifest = Some (PDict [(''case_count'', PInt 2), (''cases_sha256'', PStr ''f''),
        (''contract_corpus_sha256'', PStr ''c'')]),
      ws_dataset_sha256 = ''d'', ws_dataset_file_sha256 = ''f'', ws_contract_sha256 = ''c''\<rparr>"

definition example_prepare :: "request \<Rightarrow> run_config result" where
  "example_prepare q = prepare 3 (\<lambda>_. []) (\<lambda>_. []) (\<lambda>_. None) example_digest 25 ''local'' q example_workspace"

definition example_evaluate :: "run_config \<Rightarrow> unit \<Rightarrow> result_document result \<times> (unit, unit) run_state" where
  "example_evaluate cf w =
     evaluate_run example_env (\<lambda>_. []) (\<lambda>_. None) (\<lambda>_. []) example_config example_make cf (run_init cf w)"

definition shard_request :: "bool \<Rightarrow> int option \<Rightarrow> int \<Rightarrow> int \<Rightarrow> request" where
  "shard_request one_per_contract max_cases n i =
     \<lparr>q_target = ''reference'', q_reference = ''reference'', q_max_cases = max_cases,
      q_one_per_contract = one_per_contract, q_shard_count = n, q_shard_index = i\<rparr>"

lemma example_report:
  obtains report where "validate_contracts 3 (\<lambda>_. []) example_files = Inr report" "valid report"
    "contracts_by_id (r_contracts report) = example_corpus"
proof -
  have "case validate_contracts 3 (\<lambda>_. []) example_files of Inr r \<Rightarrow> valid r | _ \<Rightarrow> False"
    by code_simp
  then obtain report where r: "validate_contracts 3 (\<lambda>_. []) example_files = Inr report" "valid report"
    by (auto split: sum.splits)
  moreover have "length example_files < 3" by (simp add: example_files_def)
  then have "r_contracts report = corpus_of example_files"
    using validate_ok [of example_files 3 "\<lambda>_. []"] r by auto
  ultimately show thesis using that by (simp add: example_corpus_def)
qed

lemma example_prepared:
  assumes "i < n"
  obtains report :: report where "contracts_by_id (r_contracts report) = example_corpus"
    "example_prepare (shard_request False None (int n) (int i)) =
       Inr (config_of 25 ''local'' (shard_request False None (int n) (int i)) example_workspace
             (r_contracts report)
             (digest_shards.slice example_digest n i (map case_of_doc (ws_cases example_workspace))))"
proof (rule example_report)
  fix report
  assume r: "validate_contracts 3 (\<lambda>_. []) example_files = Inr report" "valid report"
    "contracts_by_id (r_contracts report) = example_corpus"
  have "verify_public_dataset (\<lambda>_. []) (\<lambda>_. None) example_workspace = Inr ()"
    unfolding verified_dataset_iff by (simp add: example_workspace_def)
  moreover have "ws_files example_workspace = example_files" by (simp add: example_workspace_def)
  ultimately show thesis
    using r assms by (intro that [OF r(3)])
      (simp add: example_prepare_def prepare_def shard_request_def select_cases_eq corpus_slice_def)
qed

text \<open>Every shard of the example corpus is evaluated, and every case in it passes.\<close>

lemma example_shard_completes:
  assumes "i < n"
  obtains d t where
    "evaluate example_prepare example_evaluate (shard_request False None (int n) (int i)) () = (Inr d, Some t)"
    "list_all r_passed (d_cases d)" "unknown_contract example_corpus (d_cases d) = None"
proof -
  let ?q = "shard_request False None (int n) (int i)"
  obtain report :: report where r: "contracts_by_id (r_contracts report) = example_corpus"
    "example_prepare ?q = Inr (config_of 25 ''local'' ?q example_workspace (r_contracts report)
      (digest_shards.slice example_digest n i (map case_of_doc (ws_cases example_workspace))))"
    by (rule example_prepared [OF assms])
  define cf where "cf = config_of 25 ''local'' ?q example_workspace (r_contracts report)
      (digest_shards.slice example_digest n i (map case_of_doc (ws_cases example_workspace)))"
  have cf: "cf_reference_spec cf = ''reference''" "cf_target_spec cf = ''reference''"
      "cf_contracts cf = example_corpus"
    by (simp_all add: cf_def config_of_def shard_request_def r(1))
  have sub: "set (cf_selected cf) \<subseteq> set (map case_of_doc (ws_cases example_workspace))"
    by (auto simp: cf_def config_of_def digest_shards.slice_def)
  have "fst ` set example_corpus = {''a'', ''b''}"
    using arg_cong [OF example_corpus_eq, of "\<lambda>xs. fst ` set xs"] by (simp add: image_image split_beta)
  then have dom: "dom (map_of example_corpus) = {''a'', ''b''}" by (simp add: dom_map_of_conv_image_fst)
  have "k_contract ` set (map case_of_doc (ws_cases example_workspace)) = {''a'', ''b''}"
    by (simp add: example_workspace_def example_case_doc_def case_of_doc_def str_field_def pget_default_def pget_def Let_def)
  with sub have known: "list_all (\<lambda>c. k_contract c \<in> dom (map_of (cf_contracts cf))) (cf_selected cf)"
    unfolding cf dom list_all_iff by blast
  obtain d t where run: "evaluate_run example_env (\<lambda>_. []) (\<lambda>_. None) (\<lambda>_. []) example_config example_make cf
      (run_init cf ()) = (Inr d, t)"
    using run_completes [where mk = example_make and cf = cf and env = example_env and w = "()",
        OF example_env_answers example_config_good known] example_make_reference(1) cf by metis
  have "list_all (\<lambda>(i, c). eq_kind (c_equivalence c) \<noteq> ''range'') (cf_contracts cf)"
    using example_kinds by (simp add: cf)
  with reuse_passes [OF run] run_reusing [where mk = example_make and cf = cf, OF example_env_succeeds _ _ run]
  have "list_all r_passed (d_cases d)"
    by (auto simp: cf example_make_reference good_observation_def)
  moreover have "evaluate example_prepare example_evaluate ?q () = (Inr (stored d), Some t)"
    using run r(2) by (simp add: evaluate_def example_evaluate_def flip: cf_def)
  ultimately show thesis using that run_known [OF run] by (simp add: cf)
qed

theorem document_is_bound_witness:
  "\<exists>d s. evaluate example_prepare example_evaluate (shard_request False None 2 0) () = (Inr d, s) \<and>
     well_formed_corpus (\<lambda>_. []) example_files \<and> sel_dataset_sha256 (d_selection d) = ''d''"
proof (rule example_shard_completes [of 0 2])
  fix d t
  assume "evaluate example_prepare example_evaluate (shard_request False None (int 2) (int 0)) () = (Inr d, Some t)"
  then have run: "evaluate example_prepare example_evaluate (shard_request False None 2 0) () = (Inr d, Some t)"
    by simp
  have files: "length (ws_files example_workspace) < 3" by (simp add: example_workspace_def example_files_def)
  have "well_formed_corpus (\<lambda>_. []) (ws_files example_workspace)"
    "sel_dataset_sha256 (d_selection d) = ws_dataset_sha256 example_workspace"
    using document_is_bound [OF files run [unfolded example_prepare_def [abs_def] example_evaluate_def [abs_def]]]
    by simp_all
  with run show ?thesis by (auto simp: example_workspace_def)
qed simp

end
