(* ===== verification/FullSelftest.thy ===== *)
theory FullSelftest
  imports Evaluate
begin

text \<open>
  \<open>full_selftest.py\<close>: one evaluation of the reference against itself per shard, on a pool of
  threads; the shards are collected as they finish until the common deadline, the documents of
  those that returned are merged in the order of their file names, and the merged file is
  validated. What a shard returns or raises and when it finishes are functions of its index.
\<close>

section \<open>Collecting shards\<close>

definition pool_size :: "int option \<Rightarrow> int \<Rightarrow> int option \<Rightarrow> int" where
  "pool_size jobs shard_count cpus =
     (let cores = (case cpus of None \<Rightarrow> 2 | Some c \<Rightarrow> if c = 0 then 2 else c);
          dflt = min shard_count cores
      in case jobs of None \<Rightarrow> dflt | Some j \<Rightarrow> if j = 0 then dflt else j)"

definition deadline :: "real \<Rightarrow> int \<Rightarrow> real" where
  "deadline timeout shard_count = max timeout 1 * of_int (max 1 shard_count)"

text \<open>\<open>f"shard-{index:03d}.json"\<close>.\<close>

definition shard_name :: "nat \<Rightarrow> string" where
  "shard_name i =
     (let digits = str_of_nat i
      in ''shard-'' @ replicate (3 - length digits) (CHR ''0'') @ digits @ ''.json'')"

record collected =
  y_paths :: "(string \<times> stored_document) list"
  y_errors :: "string list"

definition shard_error :: "nat \<Rightarrow> exn \<Rightarrow> string" where
  "shard_error i e = ''shard '' @ str_of_nat i @ '': '' @ exn_name e @ '': '' @ exn_message e"

fun collect :: "(nat \<Rightarrow> stored_document result) \<Rightarrow> nat list \<Rightarrow> collected \<Rightarrow> collected" where
  "collect run [] acc = acc"
| "collect run (i # is) acc =
     collect run is
       (case run i of
          Inr d \<Rightarrow> acc\<lparr>y_paths := y_paths acc @ [(shard_name i, d)]\<rparr>
        | Inl e \<Rightarrow> acc\<lparr>y_errors := y_errors acc @ [shard_error i e]\<rparr>)"

text \<open>
  \<open>as_completed\<close> yields the futures in the order in which they finish and raises
  \<open>TimeoutError\<close> when some have not finished by the deadline.
\<close>

definition await_shards ::
  "(nat \<Rightarrow> stored_document result) \<Rightarrow> (nat \<Rightarrow> real) \<Rightarrow> real \<Rightarrow> int \<Rightarrow> collected" where
  "await_shards run finish limit shard_count =
     (let indices = sort_key finish [0..<nat shard_count];
          acc = collect run (filter (\<lambda>i. finish i \<le> limit) indices) \<lparr>y_paths = [], y_errors = []\<rparr>;
          pending = sort (filter (\<lambda>i. limit < finish i) indices)
      in if pending = [] then acc
         else acc\<lparr>y_errors := y_errors acc @
                [''timed out waiting for shards: ['' @ join '', '' (map str_of_nat pending) @ '']'']\<rparr>)"

section \<open>The report\<close>

record selftest_report =
  x_valid :: bool
  x_issues :: "string list"
  x_shard_errors :: "string list"
  x_merged :: "stored_document option"
  x_passed :: bool

definition run_full_local_selftest ::
  "(real \<Rightarrow> string) \<Rightarrow> scoring_config \<Rightarrow> corpus \<Rightarrow> string \<Rightarrow> int option \<Rightarrow> int option \<Rightarrow> real \<Rightarrow> int \<Rightarrow>
     (nat \<Rightarrow> stored_document result) \<Rightarrow> (nat \<Rightarrow> real) \<Rightarrow> selftest_report result" where
  "run_full_local_selftest fg conf contracts run_id cpus jobs timeout shard_count run finish =
     (if pool_size jobs shard_count cpus \<le> 0 then Inl (ValueError ''max_workers must be greater than 0'')
      else
        (let got = await_shards run finish (deadline timeout shard_count) shard_count in
         if y_paths got = [] then
           Inr \<lparr>x_valid = False,
                x_issues = (if y_errors got = [] then [''no shard completed''] else y_errors got),
                x_shard_errors = [], x_merged = None, x_passed = False\<rparr>
         else
           rbind (merge_results fg conf contracts (map snd (sort_key fst (y_paths got)))) (\<lambda>merged.
           rbind (validate_results (Inr (document_json run_id merged))) (\<lambda>v.
             Inr \<lparr>x_valid = w_valid v, x_issues = w_issues v, x_shard_errors = y_errors got,
                  x_merged = Some merged,
                  x_passed = (w_valid v \<and> y_errors got = [] \<and>
                    length (filter (\<lambda>r. \<not> r_passed r) (d_cases merged)) = 0)\<rparr>))))"

definition shard_run ::
  "(request \<Rightarrow> run_config result) \<Rightarrow> (run_config \<Rightarrow> 'w \<Rightarrow> result_document result \<times> ('r, 'w) run_state) \<Rightarrow>
     (nat \<Rightarrow> 'w) \<Rightarrow> bool \<Rightarrow> int option \<Rightarrow> int \<Rightarrow> nat \<Rightarrow> stored_document result" where
  "shard_run prep run world one_per_contract max_cases shard_count i =
     fst (evaluate prep run (shard_request one_per_contract max_cases shard_count (int i)) (world i))"

section \<open>What a passed self-test shows\<close>

lemma collect_eq:
  "collect run is acc =
     acc\<lparr>y_paths := y_paths acc @ concat (map (\<lambda>i. case run i of Inr d \<Rightarrow> [(shard_name i, d)] | Inl e \<Rightarrow> []) is),
         y_errors := y_errors acc @ concat (map (\<lambda>i. case run i of Inr d \<Rightarrow> [] | Inl e \<Rightarrow> [shard_error i e]) is)\<rparr>"
  by (induction "is" arbitrary: acc) (auto split: sum.split)

lemma sort_Nil_iff: "sort_key f xs = [] \<longleftrightarrow> xs = []"
  by (metis length_0_conv length_sort)

lemma await_complete:
  assumes "y_errors (await_shards run finish limit n) = []"
  shows "list_all (\<lambda>i. finish i \<le> limit \<and> (\<exists>d. run i = Inr d)) [0..<nat n]"
    and "y_paths (await_shards run finish limit n) =
      map (\<lambda>i. (shard_name i, projr (run i))) (sort_key finish [0..<nat n])"
proof -
  let ?is = "sort_key finish [0..<nat n]"
  let ?now = "filter (\<lambda>i. finish i \<le> limit) ?is"
  have pend: "filter (\<lambda>i. limit < finish i) ?is = []"
    using assms by (auto simp: await_shards_def collect_eq Let_def sort_Nil_iff split: if_splits)
  then have now: "?now = ?is" by (auto simp: filter_empty_conv filter_id_conv)
  have "concat (map (\<lambda>i. case run i of Inr d \<Rightarrow> [] | Inl e \<Rightarrow> [shard_error i e]) ?is) = []"
    using assms now by (auto simp: await_shards_def collect_eq Let_def split: if_splits)
  then have ok: "\<exists>d. run i = Inr d" if "i \<in> set ?is" for i
    using that by (cases "run i") (auto dest!: bspec [where x = i])
  from pend ok show "list_all (\<lambda>i. finish i \<le> limit \<and> (\<exists>d. run i = Inr d)) [0..<nat n]"
    by (auto simp: list_all_iff filter_empty_conv not_less)
  have "(case run i of Inr d \<Rightarrow> [(shard_name i, d)] | Inl e \<Rightarrow> []) = [(shard_name i, projr (run i))]"
    if "i \<in> set ?is" for i
    using ok [OF that] by auto
  then have "concat (map (\<lambda>i. case run i of Inr d \<Rightarrow> [(shard_name i, d)] | Inl e \<Rightarrow> []) ?is) =
      concat (map (\<lambda>i. [(shard_name i, projr (run i))]) ?is)"
    by (intro arg_cong [where f = concat] map_cong) simp_all
  then show "y_paths (await_shards run finish limit n) = map (\<lambda>i. (shard_name i, projr (run i))) ?is"
    using pend now by (simp add: await_shards_def collect_eq Let_def)
qed

lemma await_succeeds:
  assumes "list_all (\<lambda>i. finish i \<le> limit \<and> (\<exists>d. run i = Inr d)) [0..<nat n]"
  shows "y_errors (await_shards run finish limit n) = []"
proof -
  have "filter (\<lambda>i. limit < finish i) (sort_key finish [0..<nat n]) = []"
    using assms by (auto simp: list_all_iff filter_empty_conv)
  moreover have "concat (map (\<lambda>i. case run i of Inr d \<Rightarrow> [] | Inl e \<Rightarrow> [shard_error i e])
      (filter (\<lambda>i. finish i \<le> limit) (sort_key finish [0..<nat n]))) = []"
    using assms by (auto simp: list_all_iff)
  ultimately show ?thesis by (simp add: await_shards_def collect_eq Let_def)
qed

text \<open>The cases of all shards, in the order of the shard indices.\<close>

definition shard_cases :: "(nat \<Rightarrow> stored_document result) \<Rightarrow> int \<Rightarrow> case_result list" where
  "shard_cases run n = concat (map (\<lambda>i. d_cases (projr (run i))) [0..<nat n])"

lemma mset_concat_perm: "mset xs = mset ys \<Longrightarrow> mset (concat xs) = mset (concat ys)"
  by (metis mset_concat mset_map sum_mset_sum_list)

lemma merged_documents:
  assumes "y_errors (await_shards run finish limit n) = []"
  shows "mset (map snd (sort_key fst (y_paths (await_shards run finish limit n)))) =
    mset (map (\<lambda>i. projr (run i)) [0..<nat n])"
  by (simp add: await_complete(2) [OF assms] comp_def image_mset.compositionality)

lemma merged_lists:
  assumes "y_errors (await_shards run finish limit n) = []"
    and "merge_results fg conf contracts (map snd (sort_key fst (y_paths (await_shards run finish limit n)))) = Inr m"
  shows "mset (d_cases m) = mset (shard_cases run n)"
    and "mset (d_unsupported m) = mset (concat (map (\<lambda>i. d_unsupported (projr (run i))) [0..<nat n]))"
proof -
  let ?docs = "map snd (sort_key fst (y_paths (await_shards run finish limit n)))"
  have "mset (map f ?docs) = mset (map (\<lambda>i. f (projr (run i))) [0..<nat n])" for f :: "stored_document \<Rightarrow> 'a"
    using arg_cong [OF merged_documents [OF assms(1)], of "image_mset f"]
    by (simp add: image_mset.compositionality comp_def)
  then show "mset (d_cases m) = mset (shard_cases run n)"
    "mset (d_unsupported m) = mset (concat (map (\<lambda>i. d_unsupported (projr (run i))) [0..<nat n]))"
    using merge_lists [OF assms(2)] by (auto simp: shard_cases_def intro!: mset_concat_perm simp del: map_map mset_map)
qed

lemma selftest_Inr:
  assumes "run_full_local_selftest fg conf contracts run_id cpus jobs timeout n run finish = Inr rep"
  defines "got \<equiv> await_shards run finish (deadline timeout n) n"
  shows "(y_paths got = [] \<and> \<not> x_passed rep \<and> x_merged rep = None) \<or>
    (y_paths got \<noteq> [] \<and> (\<exists>m. merge_results fg conf contracts (map snd (sort_key fst (y_paths got))) = Inr m \<and>
       x_merged rep = Some m \<and>
       (x_passed rep \<longleftrightarrow> y_errors got = [] \<and> distinct (map r_case_id (d_cases m)) \<and> list_all r_passed (d_cases m))))"
proof (cases "y_paths got = []")
  case True
  then show ?thesis using assms(1) by (auto simp: run_full_local_selftest_def got_def [symmetric] Let_def split: if_splits)
next
  case False
  then obtain m v where m: "merge_results fg conf contracts (map snd (sort_key fst (y_paths got))) = Inr m"
    and v: "validate_results (Inr (document_json run_id m)) = Inr v"
    and rep: "x_merged rep = Some m" "x_passed rep \<longleftrightarrow> w_valid v \<and> y_errors got = [] \<and>
      length (filter (\<lambda>r. \<not> r_passed r) (d_cases m)) = 0"
    using assms(1)
    by (auto simp: run_full_local_selftest_def got_def [symmetric] Let_def result_simps split: if_splits)
  have "w_valid v \<longleftrightarrow> distinct (map r_case_id (d_cases m))"
    using v merge_accounted [OF m]
    by (rule_tac validate_written [of run_id m]) (auto simp: Let_def split: if_splits)
  then show ?thesis using False m rep by (auto simp: filter_empty_conv list_all_iff)
qed

lemma selftest_passed_iff:
  assumes "run_full_local_selftest fg conf contracts run_id cpus jobs timeout n run finish = Inr rep"
  shows "x_passed rep \<longleftrightarrow> 0 < n \<and>
    list_all (\<lambda>i. finish i \<le> deadline timeout n \<and> (\<exists>d. run i = Inr d)) [0..<nat n] \<and>
    distinct (map r_case_id (shard_cases run n)) \<and> list_all r_passed (shard_cases run n)"
proof -
  let ?got = "await_shards run finish (deadline timeout n) n"
  have lists: "distinct (map r_case_id (d_cases m)) = distinct (map r_case_id (shard_cases run n))"
    "list_all r_passed (d_cases m) = list_all r_passed (shard_cases run n)"
    if "y_errors ?got = []" "merge_results fg conf contracts (map snd (sort_key fst (y_paths ?got))) = Inr m" for m
    using merged_lists(1) [OF that]
    by (metis mset_map mset_eq_imp_distinct_iff) (metis merged_lists(1) [OF that] mset_eq_setD list_all_iff)
  have paths: "y_paths ?got = [] \<longleftrightarrow> n \<le> 0" if "y_errors ?got = []"
    by (simp add: await_complete(2) [OF that] sort_Nil_iff)
  have errors: "y_errors ?got = [] \<longleftrightarrow>
      list_all (\<lambda>i. finish i \<le> deadline timeout n \<and> (\<exists>d. run i = Inr d)) [0..<nat n]"
    using await_complete(1) [where run = run and finish = finish and limit = "deadline timeout n" and n = n]
      await_succeeds [where run = run and finish = finish and limit = "deadline timeout n" and n = n] by blast
  show ?thesis
  proof (cases "y_errors ?got = []")
    case True
    then show ?thesis
      using selftest_Inr [OF assms] paths [OF True] lists [OF True] unfolding errors [symmetric] by fastforce
  next
    case False
    then show ?thesis using selftest_Inr [OF assms] unfolding errors [symmetric] by blast
  qed
qed

text \<open>
  C12. The verdict of the full self-test, whenever it returns a report: it has passed exactly when
  there is at least one shard, every shard finished before the deadline and returned a document,
  every evaluated case of every shard passed, and no case was evaluated twice.
\<close>

theorem full_selftest_verdict:
  assumes "run_full_local_selftest fg conf contracts run_id cpus jobs timeout n run finish = Inr rep"
  shows "x_passed rep \<longleftrightarrow> 0 < n \<and>
    (\<forall>i<nat n. finish i \<le> deadline timeout n \<and> (\<exists>d. run i = Inr d)) \<and>
    distinct (map r_case_id (shard_cases run n)) \<and> list_all r_passed (shard_cases run n)"
  using selftest_passed_iff [OF assms] by (simp add: list_all_iff Ball_def)

lemma shard_books:
  fixes ws :: workspace
  defines "cases \<equiv> map case_of_doc (ws_cases ws)"
  assumes "shard_run (\<lambda>q. prepare limit iter_errors fr fi digest checkpoint profile q ws)
      (\<lambda>cf w. evaluate_run env fr fp fg conf mk cf (run_init cf w)) world one None (int n) i = Inr d"
    and "i < n"
  shows "mset (map r_case_id (d_cases d)) + mset (map fst (d_unsupported d)) =
    mset (map k_id (digest_shards.slice digest n i (corpus_slice one cases)))"
proof -
  let ?prep = "\<lambda>q. prepare limit iter_errors fr fi digest checkpoint profile q ws"
  let ?run = "\<lambda>cf w. evaluate_run env fr fp fg conf mk cf (run_init cf w)"
  obtain s where "evaluate ?prep ?run (shard_request one None (int n) (int i)) (world i) = (Inr d, s)"
    using assms(2) by (cases "evaluate ?prep ?run (shard_request one None (int n) (int i)) (world i)")
      (simp add: shard_run_def)
  then obtain cf d' t where p: "?prep (shard_request one None (int n) (int i)) = Inr cf"
    and d: "d = stored d'" and run: "?run cf (world i) = (Inr d', t)"
    by (rule evaluate_Inr)
  from p obtain report :: report and selected where
    sel: "select_cases digest one None (int n) (int i) (map case_of_doc (ws_cases ws)) = Inr selected"
    and cf: "cf = config_of checkpoint profile (shard_request one None (int n) (int i)) ws (r_contracts report) selected"
    by (rule prepare_Inr) (simp add: shard_request_def)
  have "selected = digest_shards.slice digest n i (corpus_slice one cases)"
    using sel select_cases_eq [OF assms(3)] by (simp add: cases_def)
  then show ?thesis using run_books [OF run] by (simp add: d cf config_of_def)
qed

lemma mset_concat_map: "mset (concat (map f is)) = (\<Sum>i\<leftarrow>is. mset (f i))"
  by (induction "is") simp_all

text \<open>
  C10. A full self-test that passed accounts for the whole dataset: when the shards are
  evaluations of one workspace without a cut-off, the merged document holds every case of the
  dataset (or every representative case) as evaluated and passed or as unsupported, no more and
  no less often than the dataset does.
\<close>

theorem full_selftest_covers_dataset:
  assumes "run_full_local_selftest fg conf contracts run_id cpus jobs timeout (int n)
      (shard_run (\<lambda>q. prepare limit iter_errors fr fi digest checkpoint profile q ws)
        (\<lambda>cf w. evaluate_run env fr fp fg conf mk cf (run_init cf w)) world one None (int n)) finish = Inr rep"
    and "x_passed rep"
  shows "\<exists>m. x_merged rep = Some m \<and> list_all r_passed (d_cases m) \<and> distinct (map r_case_id (d_cases m)) \<and>
    mset (map r_case_id (d_cases m)) + mset (map fst (d_unsupported m)) =
      mset (map k_id (corpus_slice one (map case_of_doc (ws_cases ws))))"
proof -
  let ?run = "shard_run (\<lambda>q. prepare limit iter_errors fr fi digest checkpoint profile q ws)
        (\<lambda>cf w. evaluate_run env fr fp fg conf mk cf (run_init cf w)) world one None (int n)"
  let ?got = "await_shards ?run finish (deadline timeout (int n)) (int n)"
  let ?cases = "corpus_slice one (map case_of_doc (ws_cases ws))"
  obtain m where e: "y_errors ?got = []" and m: "merge_results fg conf contracts (map snd (sort_key fst (y_paths ?got))) = Inr m"
    "x_merged rep = Some m" "distinct (map r_case_id (d_cases m))" "list_all r_passed (d_cases m)"
    using selftest_Inr [OF assms(1)] assms(2) by auto
  have "0 < n" using selftest_passed_iff [OF assms(1)] assms(2) by simp
  have books: "mset (map r_case_id (d_cases (projr (?run i)))) + mset (map fst (d_unsupported (projr (?run i)))) =
      mset (map k_id (digest_shards.slice digest n i ?cases))" if "i < n" for i
  proof -
    have "i \<in> set [0..<nat (int n)]" using that by simp
    then obtain d where "?run i = Inr d"
      using await_complete(1) [OF e] unfolding list_all_iff by blast
    then show ?thesis using shard_books [OF _ that] by fastforce
  qed
  have "mset (map r_case_id (d_cases m)) + mset (map fst (d_unsupported m)) =
      (\<Sum>i\<leftarrow>[0..<n]. mset (map r_case_id (d_cases (projr (?run i))))) +
      (\<Sum>i\<leftarrow>[0..<n]. mset (map fst (d_unsupported (projr (?run i)))))"
    using arg_cong [OF merged_lists(1) [OF e m(1)], of "image_mset r_case_id"]
      arg_cong [OF merged_lists(2) [OF e m(1)], of "image_mset fst"]
    by (simp add: shard_cases_def flip: mset_map mset_concat_map add: map_concat comp_def)
  also have "\<dots> = (\<Sum>i\<leftarrow>[0..<n]. mset (map k_id (digest_shards.slice digest n i ?cases)))"
    unfolding sum_list_addf [symmetric]
    by (intro arg_cong [where f = sum_list] map_cong refl) (use books in simp)
  also have "\<dots> = image_mset k_id (mset (concat (map (\<lambda>i. digest_shards.slice digest n i ?cases) [0..<n])))"
    by (simp add: mset_concat_map [symmetric] map_concat comp_def flip: mset_map)
  also have "\<dots> = mset (map k_id ?cases)"
    by (simp add: mset_concat_map interv_sum_list_conv_sum_set_nat atLeast0LessThan
        digest_shards.slices_cover [OF \<open>0 < n\<close>])
  finally show ?thesis using m by blast
qed

definition example_selftest :: "selftest_report result" where
  "example_selftest =
     run_full_local_selftest (\<lambda>_. []) example_config example_corpus ''merged-1'' (Some 8) None 300 (int 2)
       (shard_run example_prepare example_evaluate (\<lambda>_. ()) False None (int 2)) real"

lemma distinct_sub_mset: "mset xs \<subseteq># mset ys \<Longrightarrow> distinct ys \<Longrightarrow> distinct xs"
  unfolding distinct_count_atmost_1
  by (metis count_mset_0_iff mset_subset_eq_count le_antisym less_one linorder_not_le one_le_numeral
      count_eq_zero_iff set_mset_mset not_gr_zero)

lemma sum_two: "(\<Sum>i<2. f i) = f 0 + f (1 :: nat)"
  by (simp add: numeral_2_eq_2)

lemma example_ids_distinct:
  fixes run :: "nat \<Rightarrow> stored_document result"
  defines "run \<equiv> shard_run example_prepare example_evaluate (\<lambda>_. ()) False None (int 2)"
  assumes "run 0 = Inr d0" and "run 1 = Inr d1"
  shows "distinct (map r_case_id (d_cases d0) @ map r_case_id (d_cases d1))"
proof -
  let ?cases = "map case_of_doc (ws_cases example_workspace)"
  let ?slice = "\<lambda>i. digest_shards.slice example_digest 2 i ?cases"
  have books: "mset (map r_case_id (d_cases d)) \<subseteq># mset (map k_id (?slice i))"
    if "run i = Inr d" "i < 2" for i d
    using shard_books [OF that(1) [unfolded run_def example_prepare_def [abs_def] example_evaluate_def [abs_def]] that(2)]
    by (metis corpus_slice_def mset_subset_eq_add_left)
  have "mset (map r_case_id (d_cases d0)) + mset (map r_case_id (d_cases d1)) \<subseteq>#
      mset (map k_id (?slice 0)) + mset (map k_id (?slice 1))"
    using books [OF assms(2)] books [OF assms(3)] by (intro subset_mset.add_mono) simp_all
  also have "\<dots> = image_mset k_id (mset (?slice 0) + mset (?slice 1))" by simp
  also have "mset (?slice 0) + mset (?slice 1) = (\<Sum>i<2. mset (?slice i))"
    by (simp only: sum_two)
  also have "\<dots> = mset ?cases"
    by (rule digest_shards.slices_cover) simp
  also have "image_mset k_id (mset ?cases) = mset (map k_id ?cases)" by (rule mset_map [symmetric])
  finally have "mset (map r_case_id (d_cases d0) @ map r_case_id (d_cases d1)) \<subseteq># mset (map k_id ?cases)"
    by (simp only: mset_append)
  moreover have "distinct (map k_id ?cases)" by code_simp
  ultimately show ?thesis by (rule distinct_sub_mset)
qed

lemma example_selftest_passes:
  obtains rep where "example_selftest = Inr rep" and "x_passed rep"
proof -
  let ?run = "shard_run example_prepare example_evaluate (\<lambda>_. ()) False None (int 2)"
  have shard: "\<exists>d. ?run i = Inr d \<and> list_all r_passed (d_cases d) \<and> unknown_contract example_corpus (d_cases d) = None"
    if "i < 2" for i
    using that by (rule example_shard_completes) (simp add: shard_run_def)
  have two: "[0..<nat (int 2)] = [0, 1]" by code_simp
  have ok: "list_all (\<lambda>i. real i \<le> deadline 300 (int 2) \<and> (\<exists>d. ?run i = Inr d)) [0..<nat (int 2)]"
    using shard [of 0] shard [of 1] unfolding two by (auto simp: deadline_def)
  let ?got = "await_shards ?run real (deadline 300 (int 2)) (int 2)"
  have e: "y_errors ?got = []" by (rule await_succeeds [OF ok])
  define docs where "docs = map snd (sort_key fst (y_paths ?got))"
  have "set docs = (\<lambda>i. projr (?run i)) ` set [0..<nat (int 2)]"
    using arg_cong [OF merged_documents [OF e], of set_mset] unfolding docs_def set_mset_mset by simp
  then have docs: "set docs = {projr (?run 0), projr (?run 1)}" unfolding two by simp
  obtain d0 d1 where d: "?run 0 = Inr d0" "?run 1 = Inr d1"
    and pass: "list_all r_passed (d_cases d0)" "list_all r_passed (d_cases d1)"
    and known: "unknown_contract example_corpus (d_cases d0) = None" "unknown_contract example_corpus (d_cases d1) = None"
    using shard [of 0] shard [of 1] by auto
  have versions: "d_version d0 = BENCHMARK_VERSION" "d_version d1 = BENCHMARK_VERSION"
    using d by (auto simp: shard_run_def evaluate_def split: sum.splits prod.splits)
  have nonempty: "docs \<noteq> []" using docs by (metis insert_not_empty list.set(1))
  have all_known: "unknown_contract example_corpus (concat (map d_cases docs)) = None"
    using known docs d by (auto simp: unknown_contract_None_iff)
  obtain m where m: "merge_results (\<lambda>_. []) example_config example_corpus docs = Inr m"
  proof (cases docs)
    case (Cons b ds)
    have "d_version x = BENCHMARK_VERSION" if "x \<in> set docs" for x
      using that versions unfolding docs d by auto
    then have "\<not> list_ex (\<lambda>x. d_version x \<noteq> d_version b) docs"
      using Cons by (auto simp: list_ex_iff)
    moreover obtain sc where "score_results (\<lambda>_. []) example_config (concat (map d_cases docs)) example_corpus
        (if d_profile b = [] then ''local'' else d_profile b) = Inr sc"
      using score_results_ok [OF example_config_good all_known] by metis
    ultimately show thesis using that Cons by (simp add: merge_results_def Let_def)
  qed (use nonempty in simp)
  obtain v where v: "validate_results (Inr (document_json ''merged-1'' m)) = Inr v"
    by (rule validate_written [of "''merged-1''" m]) (simp add: Let_def)
  have paths: "\<not> pool_size None (int 2) (Some 8) \<le> 0" "y_paths ?got \<noteq> []"
    using nonempty by (auto simp: pool_size_def docs_def sort_Nil_iff)
  obtain rep where rep: "example_selftest = Inr rep"
    using m v paths unfolding docs_def by (simp add: example_selftest_def run_full_local_selftest_def Let_def)
  have cases: "shard_cases ?run (int 2) = d_cases d0 @ d_cases d1"
    unfolding shard_cases_def two list.map d by simp
  show thesis
  proof (rule that [OF rep])
    have "distinct (map r_case_id (shard_cases ?run (int 2)))"
      using example_ids_distinct [OF d] unfolding cases map_append .
    then show "x_passed rep"
      using selftest_passed_iff [OF rep [unfolded example_selftest_def]] ok pass
      unfolding cases by simp
  qed
qed

theorem full_selftest_verdict_witness:
  "\<exists>rep. example_selftest = Inr rep \<and> x_passed rep \<and>
     list_all r_passed (shard_cases (shard_run example_prepare example_evaluate (\<lambda>_. ()) False None (int 2)) (int 2))"
proof (rule example_selftest_passes)
  fix rep assume "example_selftest = Inr rep" "x_passed rep"
  with full_selftest_verdict [OF this(1) [unfolded example_selftest_def]] show ?thesis by blast
qed

theorem full_selftest_covers_dataset_witness:
  "\<exists>rep m. example_selftest = Inr rep \<and> x_merged rep = Some m \<and>
     mset (map r_case_id (d_cases m)) + mset (map fst (d_unsupported m)) = {#''a:1'', ''b:1''#}"
proof (rule example_selftest_passes)
  fix rep assume rep: "example_selftest = Inr rep" "x_passed rep"
  obtain m where m: "x_merged rep = Some m"
    "mset (map r_case_id (d_cases m)) + mset (map fst (d_unsupported m)) =
      mset (map k_id (corpus_slice False (map case_of_doc (ws_cases example_workspace))))"
    using full_selftest_covers_dataset [OF rep(1) [unfolded example_selftest_def example_prepare_def [abs_def]
        example_evaluate_def [abs_def]] rep(2)] by blast
  have "map k_id (corpus_slice False (map case_of_doc (ws_cases example_workspace))) = [''a:1'', ''b:1'']"
    by code_simp
  with m rep show ?thesis by auto
qed

end
