(* ===== verification/Minimization.thy ===== *)
theory Minimization
  imports Prelude
begin

text \<open>
  Delta debugging of a failing sequence: \<open>minimize_sequence\<close> (\<open>minimization.py\<close>), \<open>ddmin\<close>
  (\<open>tools/minimization/minimize.py\<close>) and the one-row loop of \<open>minimize_jsonl.py\<close>. The test of
  a candidate is the argument \<open>fails\<close>. The first two differ only in how the chunk size follows
  from the length and the granularity; the locale \<open>chunking\<close> states what their loop needs of it.
\<close>

section \<open>The loops\<close>

text \<open>\<open>result[:start] + result[start + chunk:]\<close> for each \<open>start\<close> of \<open>range(0, len(result), chunk)\<close>.\<close>

definition without :: "nat \<Rightarrow> nat \<Rightarrow> 'a list \<Rightarrow> 'a list" where
  "without start chunk xs = take start xs @ drop (start + chunk) xs"

definition starts :: "nat \<Rightarrow> nat \<Rightarrow> nat list" where
  "starts n chunk = map (\<lambda>i. i * chunk) [0..<(n + chunk - 1) div chunk]"

definition first_reduction :: "('a list \<Rightarrow> bool) \<Rightarrow> nat \<Rightarrow> 'a list \<Rightarrow> 'a list option" where
  "first_reduction fails chunk xs =
     find (\<lambda>c. c \<noteq> [] \<and> fails c) (map (\<lambda>s. without s chunk xs) (starts (length xs) chunk))"

partial_function (option) minimize_loop ::
  "(nat \<Rightarrow> nat \<Rightarrow> nat) \<Rightarrow> ('a list \<Rightarrow> bool) \<Rightarrow> nat \<Rightarrow> 'a list \<Rightarrow> 'a list option" where
  "minimize_loop chunk_size fails granularity xs =
     (if length xs < 2 then Some xs
      else
        (case first_reduction fails (chunk_size (length xs) granularity) xs of
           Some c \<Rightarrow> minimize_loop chunk_size fails (max 2 (granularity - 1)) c
         | None \<Rightarrow>
             if length xs \<le> granularity then Some xs
             else minimize_loop chunk_size fails (min (length xs) (granularity * 2)) xs))"

definition floor_chunk :: "nat \<Rightarrow> nat \<Rightarrow> nat" where
  "floor_chunk n granularity = max 1 (n div granularity)"

definition ceil_chunk :: "nat \<Rightarrow> nat \<Rightarrow> nat" where
  "ceil_chunk n granularity = (n + granularity - 1) div granularity"

definition minimize_sequence :: "'a list \<Rightarrow> ('a list \<Rightarrow> bool) \<Rightarrow> 'a list option" where
  "minimize_sequence items fails = minimize_loop floor_chunk fails 2 items"

definition ddmin :: "'a list \<Rightarrow> ('a list \<Rightarrow> bool) \<Rightarrow> 'a list option" where
  "ddmin items fails = minimize_loop ceil_chunk fails 2 items"

text \<open>\<open>minimize_jsonl.py\<close>: drop the first single row whose removal still fails, until none does.\<close>

definition single_drop :: "('a list \<Rightarrow> bool) \<Rightarrow> 'a list \<Rightarrow> 'a list option" where
  "single_drop fails rows = find fails (map (\<lambda>i. without i 1 rows) [0..<length rows])"

lemma length_without: "s < length xs \<Longrightarrow> 1 \<le> k \<Longrightarrow> length (without s k xs) < length xs"
  by (simp add: without_def)

lemma find_map_SomeD: "find P (map f is) = Some c \<Longrightarrow> \<exists>i\<in>set is. c = f i \<and> P c"
  by (auto simp: find_Some_iff)

function minimize_rows :: "('a list \<Rightarrow> bool) \<Rightarrow> 'a list \<Rightarrow> 'a list" where
  "minimize_rows fails rows =
     (if length rows \<le> 1 then rows
      else (case single_drop fails rows of None \<Rightarrow> rows | Some c \<Rightarrow> minimize_rows fails c))"
  by pat_completeness auto
termination
  by (relation "measure (\<lambda>(_, rows). length rows)")
     (auto simp: single_drop_def length_without dest!: find_map_SomeD)

declare minimize_rows.simps [simp del]

section \<open>What the loops guarantee\<close>

text \<open>No single element can be removed without losing the failure (or nothing would be left).\<close>

definition one_minimal :: "('a list \<Rightarrow> bool) \<Rightarrow> 'a list \<Rightarrow> bool" where
  "one_minimal fails ys \<longleftrightarrow>
     length ys < 2 \<or> list_all (\<lambda>i. \<not> fails (without i 1 ys)) [0..<length ys]"

definition minimized :: "('a list \<Rightarrow> bool) \<Rightarrow> 'a list \<Rightarrow> 'a list \<Rightarrow> bool" where
  "minimized fails xs ys \<longleftrightarrow>
     subseq ys xs \<and> (fails ys \<or> ys = xs) \<and> (ys = [] \<longleftrightarrow> xs = []) \<and> one_minimal fails ys"

lemma subseq_without: "subseq (without s k xs) xs"
proof -
  have "suffix (drop k (drop s xs)) (drop s xs)" by (rule suffix_drop)
  then have "subseq (take s xs @ drop k (drop s xs)) (take s xs @ drop s xs)"
    unfolding subseq_append' by (rule suffix_imp_subseq)
  then show ?thesis by (simp add: without_def add.commute)
qed

lemma minimized_step:
  "subseq c xs \<Longrightarrow> c \<noteq> [] \<Longrightarrow> fails c \<Longrightarrow> minimized fails c ys \<Longrightarrow> minimized fails xs ys"
  by (auto simp: minimized_def intro: subseq_order.trans)

lemma starts_less: "1 \<le> chunk \<Longrightarrow> s \<in> set (starts n chunk) \<Longrightarrow> s < n"
proof -
  assume c: "1 \<le> chunk" and "s \<in> set (starts n chunk)"
  then obtain i where i: "s = i * chunk" "Suc i \<le> (n + chunk - 1) div chunk" by (auto simp: starts_def)
  then have "Suc i * chunk \<le> n + chunk - 1" using c by (simp add: less_eq_div_iff_mult_less_eq)
  then show ?thesis using i(1) c by simp
qed

lemma first_reductionD:
  assumes "first_reduction fails chunk xs = Some c" and "1 \<le> chunk"
  shows "subseq c xs" and "c \<noteq> []" and "fails c" and "length c < length xs"
  using assms starts_less [OF assms(2)]
  by (auto simp: first_reduction_def subseq_without length_without dest!: find_map_SomeD)

lemma first_reduction_1_None:
  "first_reduction fails 1 xs = None \<Longrightarrow> 2 \<le> length xs \<Longrightarrow> i < length xs \<Longrightarrow> \<not> fails (without i 1 xs)"
proof -
  assume none: "first_reduction fails 1 xs = None" and len: "2 \<le> length xs" "i < length xs"
  have "length (without i 1 xs) = length xs - 1" using len by (simp add: without_def)
  then have "without i 1 xs \<noteq> []" using len by auto
  moreover have "i \<in> set (starts (length xs) 1)" using len by (simp add: starts_def)
  ultimately show ?thesis
    using none unfolding first_reduction_def find_None_iff by auto
qed

locale chunking =
  fixes chunk_size :: "nat \<Rightarrow> nat \<Rightarrow> nat"
  assumes chunk_pos: "2 \<le> n \<Longrightarrow> 2 \<le> g \<Longrightarrow> 1 \<le> chunk_size n g"
    and chunk_unit: "2 \<le> n \<Longrightarrow> n \<le> g \<Longrightarrow> chunk_size n g = 1"
begin

lemma loop_minimizes:
  "2 \<le> g \<Longrightarrow> \<exists>ys. minimize_loop chunk_size fails g xs = Some ys \<and> minimized fails xs ys"
proof (induction "(xs, g)" arbitrary: xs g
    rule: wf_induct_rule [OF wf_measures [of "[\<lambda>(xs, g). length xs, \<lambda>(xs, g). length xs - g]"]])
  case (1 xs g)
  note unfold = minimize_loop.simps [of chunk_size fails g xs]
  show ?case
  proof (cases "length xs < 2")
    case True
    then show ?thesis by (subst unfold) (simp add: minimized_def one_minimal_def)
  next
    case long: False
    have pos: "1 \<le> chunk_size (length xs) g" using chunk_pos long 1(2) by simp
    show ?thesis
    proof (cases "first_reduction fails (chunk_size (length xs) g) xs")
      case (Some c)
      note c = first_reductionD [OF Some pos]
      obtain ys where "minimize_loop chunk_size fails (max 2 (g - 1)) c = Some ys" "minimized fails c ys"
        using 1(1) [of c "max 2 (g - 1)"] c(4) by auto
      moreover from this(2) have "minimized fails xs ys"
        using minimized_step [of c xs fails ys] c(1,2,3) by blast
      ultimately show ?thesis using Some long by (subst unfold) simp
    next
      case None
      show ?thesis
      proof (cases "length xs \<le> g")
        case True
        then have "chunk_size (length xs) g = 1" using chunk_unit long by simp
        then have "one_minimal fails xs"
          using first_reduction_1_None [of fails xs] None long
          by (simp add: one_minimal_def list_all_iff not_less)
        then show ?thesis using None True long by (subst unfold) (simp add: minimized_def)
      next
        case False
        then have "length xs - min (length xs) (g * 2) < length xs - g" using 1(2) by linarith
        then obtain ys where "minimize_loop chunk_size fails (min (length xs) (g * 2)) xs = Some ys"
          "minimized fails xs ys"
          using 1(1) [of xs "min (length xs) (g * 2)"] 1(2) long by auto
        then show ?thesis using None False long by (subst unfold) simp
      qed
    qed
  qed
qed

end

interpretation floor_chunks: chunking floor_chunk
  by unfold_locales (auto simp: floor_chunk_def div_le_dividend le_div_geq max_def div_eq_0_iff le_eq_less_or_eq)

interpretation ceil_chunks: chunking ceil_chunk
proof
  fix n g :: nat
  show "2 \<le> n \<Longrightarrow> 2 \<le> g \<Longrightarrow> 1 \<le> ceil_chunk n g"
    by (simp add: ceil_chunk_def less_eq_div_iff_mult_less_eq)
  show "2 \<le> n \<Longrightarrow> n \<le> g \<Longrightarrow> ceil_chunk n g = 1"
    unfolding ceil_chunk_def by (intro div_nat_eqI) auto
qed

text \<open>
  C36. Both delta-debugging loops return, whatever the test: the result is a subsequence of the
  input, empty only for an empty input, still fails (or is the input itself), and is
  one-minimal: with two or more elements left, removing any single one loses the failure.
\<close>

theorem delta_debugging_minimizes:
  "(\<exists>ys. minimize_sequence xs fails = Some ys \<and> minimized fails xs ys) \<and>
   (\<exists>ys. ddmin xs fails = Some ys \<and> minimized fails xs ys)"
  unfolding minimize_sequence_def ddmin_def
  by (intro conjI floor_chunks.loop_minimizes ceil_chunks.loop_minimizes) simp_all

text \<open>
  The row-dropping loop of \<open>minimize_jsonl.py\<close> gives the same guarantee.
\<close>

theorem minimize_rows_minimizes: "minimized fails rows (minimize_rows fails rows)"
proof (induction fails rows rule: minimize_rows.induct)
  case (1 fails rows)
  show ?case
  proof (cases "length rows \<le> 1")
    case True
    then show ?thesis by (subst minimize_rows.simps) (auto simp: minimized_def one_minimal_def)
  next
    case long: False
    show ?thesis
    proof (cases "single_drop fails rows")
      case None
      then have "one_minimal fails rows"
        by (auto simp: single_drop_def find_None_iff one_minimal_def list_all_iff)
      then show ?thesis using None long by (subst minimize_rows.simps) (simp add: minimized_def)
    next
      case (Some c)
      then obtain i where c: "i < length rows" "c = without i 1 rows" "fails c"
        by (auto simp: single_drop_def dest!: find_map_SomeD)
      have "length c = length rows - 1" using c(1,2) by (simp add: without_def)
      then have "c \<noteq> []" using long by auto
      then show ?thesis
        using minimized_step [OF _ _ c(3) 1 [OF long Some]] subseq_without [of i 1 rows] c(2) Some long
        by (subst minimize_rows.simps) simp
    qed
  qed
qed

end
