(* ===== verification/Dataset.thy ===== *)
theory Dataset
  imports Evaluate
begin

text \<open>
  \<open>generators.py\<close> and \<open>dataset.py\<close>: the generation of one case from a Contract document, the
  schedule of case families, the generation, the building and the validation of a dataset. The
  generator state of \<open>random.Random\<close> is a value of any type with one operation, \<open>below n\<close>, the
  library's \<open>_randbelow\<close>; \<open>choice\<close>, \<open>randrange\<close> and \<open>shuffle\<close> are the library's definitions over
  it. Digests of values, files and texts are arguments.
\<close>

unbundle bit_operations_syntax

section \<open>Random choices\<close>

type_synonym 'g below = "nat \<Rightarrow> 'g \<Rightarrow> nat \<times> 'g"

definition lawful :: "'g below \<Rightarrow> bool" where
  "lawful below \<longleftrightarrow> (\<forall>n g. 0 < n \<longrightarrow> fst (below n g) < n)"

definition rng_choice :: "'g below \<Rightarrow> 'a list \<Rightarrow> 'g \<Rightarrow> 'a \<times> 'g" where
  "rng_choice below xs g = (case below (length xs) g of (r, h) \<Rightarrow> (xs ! r, h))"

definition randrange :: "'g below \<Rightarrow> int \<Rightarrow> int \<Rightarrow> 'g \<Rightarrow> int \<times> 'g" where
  "randrange below start stop g =
     (case below (nat (stop - start)) g of (r, h) \<Rightarrow> (start + int r, h))"

fun rng_choices :: "'g below \<Rightarrow> 'a list \<Rightarrow> nat \<Rightarrow> 'g \<Rightarrow> 'a list \<times> 'g" where
  "rng_choices below xs 0 g = ([], g)"
| "rng_choices below xs (Suc n) g =
     (case rng_choice below xs g of (x, h) \<Rightarrow> (case rng_choices below xs n h of (ys, k) \<Rightarrow> (x # ys, k)))"

definition swap_items :: "nat \<Rightarrow> nat \<Rightarrow> 'a list \<Rightarrow> 'a list" where
  "swap_items i j xs = xs[i := xs ! j, j := xs ! i]"

text \<open>\<open>shuffle\<close>: for \<open>i\<close> from \<open>len(x) - 1\<close> down to 1, swap item \<open>i\<close> with a chosen \<open>j \<le> i\<close>.\<close>

fun shuffle_from :: "'g below \<Rightarrow> nat \<Rightarrow> 'a list \<Rightarrow> 'g \<Rightarrow> 'a list \<times> 'g" where
  "shuffle_from below 0 xs g = (xs, g)"
| "shuffle_from below (Suc i) xs g =
     (case below (i + 2) g of (j, h) \<Rightarrow> shuffle_from below i (swap_items (Suc i) j xs) h)"

definition shuffle :: "'g below \<Rightarrow> 'a list \<Rightarrow> 'g \<Rightarrow> 'a list \<times> 'g" where
  "shuffle below xs g = shuffle_from below (length xs - 1) xs g"

section \<open>One case\<close>

fun py_choice :: "'g below \<Rightarrow> pv \<Rightarrow> 'g \<Rightarrow> (pv \<times> 'g) result" where
  "py_choice below (PList xs) g =
     (if xs = [] then Inl (OtherError ''IndexError'' ''Cannot choose from an empty sequence'')
      else Inr (rng_choice below xs g))"
| "py_choice below (PStr s) g =
     (if s = [] then Inl (OtherError ''IndexError'' ''Cannot choose from an empty sequence'')
      else (case rng_choice below s g of (c, h) \<Rightarrow> Inr (PStr [c], h)))"
| "py_choice below (PDict kvs) g =
     (if kvs = [] then Inl (OtherError ''IndexError'' ''Cannot choose from an empty sequence'')
      else (case below (length kvs) g of (r, h) \<Rightarrow> Inl (KeyError (str_of_nat r))))"
| "py_choice below _ g = Inl (TypeError ''object has no len()'')"

definition FAMILY_DIFFICULTY :: "(string, string) dict" where
  "FAMILY_DIFFICULTY =
     [(''primitive'', ''basic''), (''boundary'', ''intermediate''), (''state_transition'', ''intermediate''),
      (''composition'', ''advanced''), (''concurrency'', ''advanced''), (''isolation'', ''advanced''),
      (''failure'', ''advanced''), (''persistence'', ''advanced''), (''exhaustion'', ''advanced''),
      (''workload'', ''macro''), (''performance'', ''macro'')]"

definition TOKEN_ALPHABET :: string where
  "TOKEN_ALPHABET = ''abcdefghijklmnopqrstuvwxyz0123456789''"

definition SCALES :: "int list" where
  "SCALES = [0, 1, 2, 4, 16, 64, 256, 4096]"

definition or_else :: "int \<Rightarrow> int \<Rightarrow> int" where
  "or_else n dflt = (if n = 0 then dflt else n)"

definition resource_limits :: "int \<Rightarrow> pv" where
  "resource_limits scale =
     PDict [(''memory_mb'', PInt (max 16 (min 512 (or_else scale 16)))),
            (''processes'', PInt (max 4 (min 128 (or_else scale 4)))),
            (''files'', PInt (max 8 (min 1024 (or_else scale 8 * 2))))]"

text \<open>
  What \<open>generic_case\<close> draws before it reads the Contract: the token, the scale and the fault;
  then the two arguments of the stimulus.
\<close>

record drawn =
  dr_token :: string
  dr_scale :: int
  dr_fault :: pv
  dr_first :: int
  dr_second :: int

definition draw :: "'g below \<Rightarrow> pv \<Rightarrow> 'g \<Rightarrow> drawn result" where
  "draw below contract g =
     (case rng_choices below TOKEN_ALPHABET 12 g of (token, g1) \<Rightarrow>
      (case randrange below 0 8 g1 of (pos, g2) \<Rightarrow>
       rbind (py_get contract ''fault_injection'' PNone) (\<lambda>faults.
       rbind (py_choice below (if truthy faults then faults else PList [PStr ''none'']) g2) (\<lambda>(fault, g3).
       (case randrange below (-4) 17 g3 of (a, g4) \<Rightarrow>
        (case randrange below 0 8193 g4 of (b, _) \<Rightarrow>
          Inr \<lparr>dr_token = token, dr_scale = SCALES ! nat pos, dr_fault = fault, dr_first = a, dr_second = b\<rparr>))))))"

definition case_body ::
  "(string \<Rightarrow> real option) \<Rightarrow> pv \<Rightarrow> drawn \<Rightarrow> int \<Rightarrow> string \<Rightarrow> int \<Rightarrow> string \<Rightarrow> pv result" where
  "case_body fp contract d seed family index profile =
     rbind (py_get contract ''timeouts'' (PDict [])) (\<lambda>timeouts.
     rbind (py_get timeouts ''case_seconds'' (PInt 10)) (\<lambda>case_seconds.
     rbind (py_float fp case_seconds) (\<lambda>timeout.
     rbind (py_item contract ''id'') (\<lambda>cid.
     rbind (py_item contract ''domain'') (\<lambda>domain.
     rbind (py_item contract ''level'') (\<lambda>level.
     rbind (case map_of FAMILY_DIFFICULTY family of None \<Rightarrow> Inl (KeyError family) | Some v \<Rightarrow> Inr v) (\<lambda>difficulty.
     rbind (py_item contract ''operation'') (\<lambda>operation.
     rbind (py_get contract ''equivalence'' (PDict [])) (\<lambda>equivalence.
     rbind (py_get equivalence ''type'' (PStr ''semantic'')) (\<lambda>comparison.
     rbind (py_item contract ''generator'') (\<lambda>gen.
     rbind (py_item gen ''implementation'') (\<lambda>implementation.
     rbind (py_get gen ''version'' (PStr ''1'')) (\<lambda>version.
     rbind (py_get gen ''probe'' PNone) (\<lambda>probe.
       Inr (PDict
         [(''schema_version'', PStr ''osbench.case.v1''), (''benchmark_version'', PStr ''0.1.0''),
          (''contract'', cid), (''domain'', domain), (''level'', level),
          (''family'', PStr family), (''case_family'', PStr family), (''difficulty'', PStr difficulty),
          (''seed'', PInt seed), (''index'', PInt index), (''profile'', PStr profile),
          (''prerequisites'', pget_default contract ''prerequisites'' (PList [])),
          (''setup'', PDict [(''clean_snapshot'', PBool (index mod 4 \<noteq> 0)),
                           (''temporary_root'', PStr (''/tmp/osbench-'' @ dr_token d))]),
          (''stimulus'', PDict [(''operation'', operation), (''token'', PStr (dr_token d)),
             (''scale'', PInt (dr_scale d)), (''fault'', dr_fault d),
             (''arguments'', PList [PInt (dr_first d), PInt (dr_second d)])]),
          (''expected'', PDict [(''comparison'', comparison),
             (''observables'', pget_default contract ''observables'' (PList []))]),
          (''resource_limits'', resource_limits (dr_scale d)),
          (''timeout_seconds'', PFloat timeout),
          (''cleanup'', pget_default contract ''cleanup_invariants'' (PList [])),
          (''generator'', PDict [(''implementation'', implementation), (''version'', version), (''probe'', probe)]),
          (''transport'', pget_default contract ''transport'' (PStr ''host'')),
          (''provenance'', pget_default contract ''sources'' (PList []))])))))))))))))))"

definition generic_case ::
  "(int \<Rightarrow> 'g) \<Rightarrow> 'g below \<Rightarrow> (real \<Rightarrow> string) \<Rightarrow> (string \<Rightarrow> real option) \<Rightarrow> (pv \<Rightarrow> string) \<Rightarrow>
     pv \<Rightarrow> int \<Rightarrow> string \<Rightarrow> int \<Rightarrow> string \<Rightarrow> pv result" where
  "generic_case seeded below fr fp sha256_value contract seed family index profile =
     rbind (draw below contract (seeded seed)) (\<lambda>d.
     rbind (case_body fp contract d seed family index profile) (\<lambda>body.
     rbind (py_item contract ''id'') (\<lambda>cid.
       Inr (PDict (items_of body @
         [(''case_id'', PStr (py_str fr cid @ '':'' @ take 16 (sha256_value body)))])))))"

section \<open>Schedule\<close>

definition PUBLIC_FAMILY_COUNTS :: "(string, nat) dict" where
  "PUBLIC_FAMILY_COUNTS =
     [(''primitive'', 446), (''boundary'', 401), (''state_transition'', 323), (''composition'', 402),
      (''concurrency'', 187), (''isolation'', 36), (''failure'', 357), (''persistence'', 78),
      (''exhaustion'', 265), (''workload'', 92), (''performance'', 73)]"

definition planned_families :: "nat \<Rightarrow> string \<Rightarrow> string list" where
  "planned_families n profile =
     (if profile = ''public'' \<and> n = sum_list (map snd PUBLIC_FAMILY_COUNTS)
      then concat (map (\<lambda>(f, k). replicate k f) PUBLIC_FAMILY_COUNTS)
      else map (\<lambda>i. CASE_FAMILIES ! (i mod length CASE_FAMILIES)) [0..<n])"

definition family_schedule ::
  "(int \<Rightarrow> 'g) \<Rightarrow> 'g below \<Rightarrow> int \<Rightarrow> string \<Rightarrow> int \<Rightarrow> string list" where
  "family_schedule seeded below n profile seed =
     fst (shuffle below (planned_families (nat n) profile) (seeded (seed XOR 0x05B3E11)))"

section \<open>Datasets\<close>

text \<open>The options the generation of a dataset runs with.\<close>

record 'g generation =
  gn_seeded :: "int \<Rightarrow> 'g"
  gn_below :: "'g below"
  gn_fr :: "real \<Rightarrow> string"
  gn_fp :: "string \<Rightarrow> real option"
  gn_value_digest :: "pv \<Rightarrow> string"
  gn_text_digest :: "string \<Rightarrow> nat list"

definition case_seed :: "'g generation \<Rightarrow> int \<Rightarrow> pv \<Rightarrow> nat \<Rightarrow> string \<Rightarrow> int" where
  "case_seed gn seed cid index profile =
     int (from_bytes (take 8 (gn_text_digest gn
       (str_of_int seed @ '':'' @ py_str (gn_fr gn) cid @ '':'' @ str_of_nat index @ '':'' @ profile))))"

text \<open>The two nested loops: one slot per Contract and index, each with the family of the schedule.\<close>

definition slots :: "pv list \<Rightarrow> int \<Rightarrow> (pv \<times> nat) list" where
  "slots items cases_per_contract = concat (map (\<lambda>c. map (\<lambda>i. (c, i)) [0..<nat cases_per_contract]) items)"

definition slot_case ::
  "'g generation \<Rightarrow> string \<Rightarrow> int \<Rightarrow> (pv \<times> nat) \<times> string \<Rightarrow> pv result" where
  "slot_case gn profile seed =
     (\<lambda>((c, index), family).
       rbind (py_item c ''id'') (\<lambda>cid.
         generic_case (gn_seeded gn) (gn_below gn) (gn_fr gn) (gn_fp gn) (gn_value_digest gn) c
           (case_seed gn seed cid index profile) family (int index) profile))"

definition generate_cases ::
  "'g generation \<Rightarrow> string \<Rightarrow> int \<Rightarrow> int \<Rightarrow> pv list option \<Rightarrow> pv list result \<Rightarrow> pv list result" where
  "generate_cases gn profile seed cases_per_contract contracts loaded =
     rbind (case contracts of Some cs \<Rightarrow> if cs = [] then loaded else Inr cs | None \<Rightarrow> loaded) (\<lambda>cs.
     rbind (map_result (\<lambda>c. py_item c ''id'') cs) (\<lambda>_.
       (let items = sort_key (\<lambda>c. str_field c ''id'') cs;
            schedule = family_schedule (gn_seeded gn) (gn_below gn) (int (length items) * cases_per_contract)
              profile seed
        in map_result (slot_case gn profile seed) (zip (slots items cases_per_contract) schedule))))"

text \<open>Two generations with the same arguments are compared with \<open>==\<close>.\<close>

definition check_determinism ::
  "'g generation \<Rightarrow> string \<Rightarrow> int \<Rightarrow> int \<Rightarrow> pv list result \<Rightarrow> bool result" where
  "check_determinism gn profile seed cases_per_contract loaded =
     rbind (generate_cases gn profile seed cases_per_contract None loaded) (\<lambda>a.
     rbind (generate_cases gn profile seed cases_per_contract None loaded) (\<lambda>b.
       Inr (py_eq (PList a) (PList b))))"

section \<open>Building\<close>

text \<open>The two files of a profile: the rows of \<open>cases.jsonl\<close> and the manifest.\<close>

record dataset_files =
  ds_rows :: "pv list option"
  ds_manifest :: "pv option"

text \<open>\<open>dict(sorted(Counter(c["family"] for c in cases).items()))\<close>.\<close>

definition family_counts :: "string list \<Rightarrow> (string, nat) dict" where
  "family_counts families = sorted_items (foldl (\<lambda>d f. bump f d) [] families)"

definition dataset_manifest ::
  "'g generation \<Rightarrow> string \<Rightarrow> int \<Rightarrow> int \<Rightarrow> nat \<Rightarrow> string \<Rightarrow> (pv list \<Rightarrow> string) \<Rightarrow> string \<Rightarrow>
     string list \<Rightarrow> pv list \<Rightarrow> pv" where
  "dataset_manifest gn profile seed cases_per_contract contract_count corpus_sha256 file_sha256 path families cases =
     PDict
       [(''schema_version'', PStr ''osbench.dataset_manifest.v1''), (''benchmark_version'', PStr BENCHMARK_VERSION),
        (''profile'', PStr profile), (''seed'', PInt seed), (''cases_per_contract'', PInt cases_per_contract),
        (''contract_count'', p_nat contract_count), (''case_count'', p_nat (length cases)),
        (''contract_corpus_sha256'', PStr corpus_sha256), (''cases_sha256'', PStr (file_sha256 cases)),
        (''dataset_sha256'', PStr (gn_value_digest gn (PList cases))),
        (''family_counts'', p_dict p_nat (family_counts families)), (''path'', PStr path)]"

text \<open>
  \<open>build_dataset\<close>: \<open>report\<close> is what the validator returned, with the documents of the Contracts.
  The rows are written before the manifest; a failure leaves both files as they were.
\<close>

definition build_dataset ::
  "'g generation \<Rightarrow> string \<Rightarrow> int \<Rightarrow> int \<Rightarrow> (bool \<times> pv list) result \<Rightarrow> pv list result \<Rightarrow> string \<Rightarrow>
     (pv list \<Rightarrow> string) \<Rightarrow> string \<Rightarrow> dataset_files \<Rightarrow> pv result \<times> dataset_files" where
  "build_dataset gn profile seed cases_per_contract report loaded corpus_sha256 file_sha256 path files =
     (case rbind report (\<lambda>(ok, contracts).
             if \<not> ok then Inl (ValueError ''invalid Contract corpus'')
             else rbind (generate_cases gn profile seed cases_per_contract (Some contracts) loaded) (\<lambda>cases.
               Inr (contracts, cases))) of
        Inl e \<Rightarrow> (Inl e, files)
      | Inr (contracts, cases) \<Rightarrow>
          (case map_result (\<lambda>c. rbind (py_item c ''family'') (\<lambda>f. Inr (str_of f))) cases of
             Inl e \<Rightarrow> (Inl e, files\<lparr>ds_rows := Some cases\<rparr>)
           | Inr families \<Rightarrow>
               (let manifest = dataset_manifest gn profile seed cases_per_contract (length contracts)
                      corpus_sha256 file_sha256 path families cases
                in (Inr manifest, files\<lparr>ds_rows := Some cases, ds_manifest := Some manifest\<rparr>))))"

section \<open>Validation\<close>

definition REQUIRED_FIELDS :: "string list" where
  "REQUIRED_FIELDS = [''case_id'', ''contract'', ''domain'', ''level'', ''family'', ''seed'', ''setup'',
     ''stimulus'', ''expected'', ''timeout_seconds'']"

record dataset_report =
  dv_valid :: bool
  dv_case_count :: "nat option"
  dv_issues :: "string list"

definition line_issue :: "nat \<Rightarrow> string \<Rightarrow> string" where
  "line_issue i what = ''line '' @ str_of_nat i @ '': '' @ what"

definition row_missing :: "pv \<Rightarrow> string list" where
  "row_missing entry = sort (filter (\<lambda>k. k \<notin> fst ` set (items_of entry)) REQUIRED_FIELDS)"

text \<open>\<open>value in set_of_values\<close>.\<close>

definition member_of :: "pv \<Rightarrow> pv list \<Rightarrow> bool result" where
  "member_of v xs =
     (if hashable v then Inr (list_ex (py_eq v) xs) else Inl (TypeError ''unhashable type''))"

fun check_rows ::
  "(real \<Rightarrow> string) \<Rightarrow> pv list \<Rightarrow> nat \<Rightarrow> pv list \<Rightarrow> pv list \<Rightarrow> string list result" where
  "check_rows fr known i [] ids = Inr []"
| "check_rows fr known i (entry # rows) ids =
     (let miss = row_missing entry;
          contract = pget_default entry ''contract'' PNone;
          case_id = pget_default entry ''case_id'' PNone
      in rbind (member_of contract known) (\<lambda>known_contract.
         rbind (member_of case_id ids) (\<lambda>seen.
         rbind (check_rows fr known (Suc i) rows (case_id # ids)) (\<lambda>rest.
           Inr ((if miss = [] then []
                 else [line_issue i (''missing '' @ py_repr fr (PList (map PStr miss)))]) @
                (if known_contract then [] else [line_issue i ''unknown Contract'']) @
                (if seen then [line_issue i ''duplicate case id''] else []) @ rest)))))"

definition manifest_issues :: "(pv list \<Rightarrow> string) \<Rightarrow> pv \<Rightarrow> pv list \<Rightarrow> string list result" where
  "manifest_issues file_sha256 manifest rows =
     rbind (py_get manifest ''case_count'' PNone) (\<lambda>count.
     rbind (py_get manifest ''cases_sha256'' PNone) (\<lambda>sha256.
       Inr ((if py_eq count (p_nat (length rows)) then [] else [''manifest case_count mismatch'']) @
            (if py_eq sha256 (PStr (file_sha256 rows)) then [] else [''manifest cases_sha256 mismatch'']))))"

text \<open>\<open>public\<close> says that the validated path is that of the public dataset.\<close>

definition validate_dataset ::
  "(real \<Rightarrow> string) \<Rightarrow> (pv list \<Rightarrow> string) \<Rightarrow> string list result \<Rightarrow> string \<Rightarrow> bool \<Rightarrow> dataset_files \<Rightarrow>
     dataset_report result" where
  "validate_dataset fr file_sha256 known path public files =
     (case ds_rows files of
        None \<Rightarrow> Inr \<lparr>dv_valid = False, dv_case_count = None, dv_issues = [''missing '' @ path]\<rparr>
      | Some rows \<Rightarrow>
          rbind known (\<lambda>ids.
          rbind (check_rows fr (map PStr ids) 1 rows []) (\<lambda>row_issues.
          rbind (case ds_manifest files of
                   Some m \<Rightarrow> if public then manifest_issues file_sha256 m rows else Inr []
                 | None \<Rightarrow> Inr []) (\<lambda>more.
            Inr \<lparr>dv_valid = (row_issues @ more = []), dv_case_count = Some (length rows),
                 dv_issues = row_issues @ more\<rparr>))))"

end
