(* ===== verification/Qemu.thy ===== *)
theory Qemu
  imports Dataset
begin

text \<open>
  \<open>qemu.py\<close>: profiles, the command line, and the lifecycle of one machine. The machine is a
  state: whether its process runs, whether its two log handles are open, what was sent to it and
  the serial log that was written. The host (files, the outcome of starting the process, whether
  it obeys \<open>terminate\<close> and \<open>kill\<close>) is a record; what a polling loop sees on each pass until its
  deadline is a script, so that the end of a script is the deadline.
\<close>

section \<open>Profiles\<close>

record qemu_profile =
  qp_name :: pv
  qp_binary :: string
  qp_machine :: string
  qp_accelerator :: string
  qp_cpu :: string
  qp_memory_mb :: int
  qp_smp :: int
  qp_code_candidates :: "pv list"
  qp_vars_candidates :: "pv list"
  qp_disk_interface :: string
  qp_network_device :: string
  qp_rng_device :: string
  qp_boot_timeout :: real
  qp_case_timeout :: real
  qp_shutdown_timeout :: real

text \<open>\<open>value[key]\<close> for any key: only string keys occur in the document.\<close>

definition py_item_at :: "pv \<Rightarrow> pv \<Rightarrow> pv result" where
  "py_item_at d k = (case k of PStr s \<Rightarrow> py_item d s | _ \<Rightarrow> py_item d (py_repr (\<lambda>_. []) k))"

definition profile_name :: "string option \<Rightarrow> string option \<Rightarrow> pv \<Rightarrow> pv result" where
  "profile_name name env_profile document =
     (case name of
        Some n \<Rightarrow> if n \<noteq> [] then Inr (PStr n) else
          rbind (py_get document ''default_profile'' (PStr ''macos_tcg''))
            (\<lambda>d. Inr (case env_profile of Some p \<Rightarrow> PStr p | None \<Rightarrow> d))
      | None \<Rightarrow>
          rbind (py_get document ''default_profile'' (PStr ''macos_tcg''))
            (\<lambda>d. Inr (case env_profile of Some p \<Rightarrow> PStr p | None \<Rightarrow> d)))"

definition unknown_profile :: "(real \<Rightarrow> string) \<Rightarrow> pv \<Rightarrow> pv result \<Rightarrow> pv result" where
  "unknown_profile fr name r =
     (case r of Inl (KeyError _) \<Rightarrow> Inl (KeyError (''Unknown QEMU profile: '' @ py_str fr name)) | _ \<Rightarrow> r)"

definition CODE_DEFAULT :: pv where
  "CODE_DEFAULT = PList [PStr ''/usr/share/OVMF/OVMF_CODE_4M.fd'', PStr ''/usr/share/OVMF/OVMF_CODE.fd'']"

definition VARS_DEFAULT :: pv where
  "VARS_DEFAULT = PList [PStr ''/usr/share/OVMF/OVMF_VARS_4M.fd'', PStr ''/usr/share/OVMF/OVMF_VARS.fd'']"

definition load_profile ::
  "(real \<Rightarrow> string) \<Rightarrow> (string \<Rightarrow> int option) \<Rightarrow> (string \<Rightarrow> real option) \<Rightarrow> string option \<Rightarrow> string option \<Rightarrow> pv \<Rightarrow>
     qemu_profile result" where
  "load_profile fr fi fp name env_profile document =
     rbind (profile_name name env_profile document) (\<lambda>configured.
     rbind (unknown_profile fr configured
         (rbind (py_item document ''profiles'') (\<lambda>profiles. py_item_at profiles configured))) (\<lambda>values.
     if \<not> is_dict values then Inl (TypeError ''object is not a mapping'')
     else
       (let str = (\<lambda>k dflt. py_str fr (pget_default values k (PStr dflt)));
            candidates = (\<lambda>k old dflt. py_iter (pget_default values k (pget_default values old dflt)))
        in rbind (py_int fi (pget_default values ''memory_mb'' (PInt 2048))) (\<lambda>memory.
           rbind (py_int fi (pget_default values ''smp'' (PInt 2))) (\<lambda>smp.
           rbind (candidates ''firmware_code_candidates'' ''firmware_code'' CODE_DEFAULT) (\<lambda>codes.
           rbind (candidates ''firmware_vars_candidates'' ''firmware_vars'' VARS_DEFAULT) (\<lambda>vars.
           rbind (py_float fp (pget_default values ''boot_timeout_seconds'' (PInt 180))) (\<lambda>boot.
           rbind (py_float fp (pget_default values ''case_timeout_seconds'' (PInt 30))) (\<lambda>case_timeout.
           rbind (py_float fp (pget_default values ''shutdown_timeout_seconds'' (PInt 20))) (\<lambda>shutdown.
             Inr \<lparr>qp_name = configured, qp_binary = str ''binary'' ''qemu-system-x86_64'',
                  qp_machine = str ''machine'' ''q35'', qp_accelerator = str ''accelerator'' ''tcg'',
                  qp_cpu = str ''cpu'' ''max'', qp_memory_mb = memory, qp_smp = smp,
                  qp_code_candidates = codes, qp_vars_candidates = vars,
                  qp_disk_interface = str ''disk_interface'' ''virtio'',
                  qp_network_device = str ''network_device'' ''virtio-net-pci'',
                  qp_rng_device = str ''rng_device'' ''virtio-rng-pci'',
                  qp_boot_timeout = boot, qp_case_timeout = case_timeout,
                  qp_shutdown_timeout = shutdown\<rparr>)))))))))) "

section \<open>The command line\<close>

text \<open>\<open>Path(candidate)\<close> takes strings only; paths are in normal form.\<close>

fun find_existing :: "(string \<Rightarrow> bool) \<Rightarrow> pv list \<Rightarrow> string option result" where
  "find_existing is_file [] = Inr None"
| "find_existing is_file (PStr p # ps) = (if is_file p then Inr (Some p) else find_existing is_file ps)"
| "find_existing is_file (_ # ps) = Inl (TypeError ''expected str, bytes or os.PathLike object'')"

definition first_existing :: "(real \<Rightarrow> string) \<Rightarrow> (string \<Rightarrow> bool) \<Rightarrow> pv list \<Rightarrow> string result" where
  "first_existing fr is_file candidates =
     rbind (find_existing is_file candidates) (\<lambda>p. case p of
       Some path \<Rightarrow> Inr path
     | None \<Rightarrow> Inl (FileNotFoundError (''None of the configured files exist: '' @ py_repr fr (PList candidates))))"

record launch =
  la_image :: string
  la_serial :: string
  la_qmp :: string
  la_vars :: string
  la_seed :: int
  la_snapshot :: bool
  la_install_iso :: "string option"
  la_kernel :: "string option"
  la_initrd :: "string option"
  la_append :: "string option"
  la_media :: "string list option"

definition base_arguments :: "qemu_profile \<Rightarrow> launch \<Rightarrow> string \<Rightarrow> string list" where
  "base_arguments p l firmware_code =
     [''-name'', ''osbench-'' @ str_of_int (la_seed l), ''-machine'', qp_machine p, ''-accel'', qp_accelerator p,
      ''-cpu'', qp_cpu p, ''-m'', str_of_int (qp_memory_mb p), ''-smp'', str_of_int (qp_smp p),
      ''-nodefaults'', ''-no-reboot'', ''-display'', ''none'', ''-monitor'', ''none'',
      ''-rtc'', ''base=utc,clock=vm'', ''-object'', ''rng-random,id=rng0,filename=/dev/urandom'',
      ''-device'', qp_rng_device p @ '',rng=rng0'',
      ''-drive'', ''if=pflash,format=raw,readonly=on,file='' @ firmware_code,
      ''-drive'', ''if=pflash,format=raw,file='' @ la_vars l,
      ''-drive'', ''file='' @ la_image l @ '',if='' @ qp_disk_interface p @
        '',format=qcow2,cache=writeback,discard=unmap'',
      ''-netdev'', ''user,id=net0,restrict=on'', ''-device'', qp_network_device p @ '',netdev=net0'',
      ''-chardev'', ''socket,id=serial0,path='' @ la_serial l @ '',server=on,wait=off'',
      ''-serial'', ''chardev:serial0'', ''-qmp'', ''unix:'' @ la_qmp l @ '',server=on,wait=off'']"

definition cdrom :: "nat \<Rightarrow> string \<Rightarrow> string" where
  "cdrom index medium = ''file='' @ medium @ '',media=cdrom,readonly=on,index='' @ str_of_nat index"

definition opt_arg :: "string \<Rightarrow> string option \<Rightarrow> string list" where
  "opt_arg flag v = (case v of None \<Rightarrow> [] | Some x \<Rightarrow> [flag, x])"

definition media_of :: "launch \<Rightarrow> string list" where
  "media_of l = (case la_media l of None \<Rightarrow> [] | Some ms \<Rightarrow> ms)"

definition build_command ::
  "(real \<Rightarrow> string) \<Rightarrow> (string \<Rightarrow> bool) \<Rightarrow> qemu_profile \<Rightarrow> launch \<Rightarrow> string list result" where
  "build_command fr is_file p l =
     rbind (first_existing fr is_file (qp_code_candidates p)) (\<lambda>code.
       Inr ([qp_binary p] @ base_arguments p l code @
            (if la_snapshot l then [''-snapshot''] else []) @
            opt_arg ''-drive'' (map_option (cdrom 1) (la_install_iso l)) @
            concat (map (\<lambda>(i, m). [''-drive'', cdrom i m]) (enumerate 2 (media_of l))) @
            opt_arg ''-kernel'' (la_kernel l) @ opt_arg ''-initrd'' (la_initrd l) @ opt_arg ''-append'' (la_append l)))"

section \<open>A machine\<close>

record machine =
  mc_alive :: bool
  mc_stdout_open :: bool
  mc_stderr_open :: bool
  mc_serial_log :: "string option"
  mc_sent :: "string list"
  mc_run_file :: "string list option"

definition new_machine :: machine where
  "new_machine = \<lparr>mc_alive = False, mc_stdout_open = False, mc_stderr_open = False, mc_serial_log = None,
     mc_sent = [], mc_run_file = None\<rparr>"

record host =
  ho_is_file :: "string \<Rightarrow> bool"
  ho_available :: "string \<Rightarrow> bool"
  ho_spawn :: "string list \<Rightarrow> exn option"
  ho_stderr :: string
  ho_obeys_terminate :: bool
  ho_obeys_kill :: bool

record qemu_run =
  qr_id :: string
  qr_command :: "string list"
  qr_work_dir :: string

definition base_name :: "string \<Rightarrow> string" where
  "base_name path = rev (takeWhile (\<lambda>c. c \<noteq> CHR ''/'') (rev path))"

definition open_logs :: "machine \<Rightarrow> machine" where
  "open_logs s = s\<lparr>mc_stdout_open := True, mc_stderr_open := True\<rparr>"

definition close_logs :: "machine \<Rightarrow> machine" where
  "close_logs s = s\<lparr>mc_stdout_open := False, mc_stderr_open := False\<rparr>"

text \<open>
  \<open>start\<close>, for a run directory that is given: the checks, the copy of the firmware variables, the
  command, the log handles, \<open>run.json\<close> and the process.
\<close>

definition start ::
  "(real \<Rightarrow> string) \<Rightarrow> host \<Rightarrow> qemu_profile \<Rightarrow> string \<Rightarrow> string \<Rightarrow> launch \<Rightarrow> (machine, qemu_run) eff" where
  "start fr host p run_id work_dir l s =
     (if \<not> ho_is_file host (la_image l) then (Inl (FileNotFoundError (la_image l)), s)
      else if \<not> ho_available host (qp_binary p) then
        (Inl (FileNotFoundError (''QEMU binary is unavailable: '' @ qp_binary p)), s)
      else
        (case first_existing fr (ho_is_file host) (qp_vars_candidates p) of
           Inl e \<Rightarrow> (Inl e, s)
         | Inr vars \<Rightarrow>
             (case build_command fr (ho_is_file host) p
                (l\<lparr>la_serial := work_dir @ ''/serial.socket'', la_qmp := work_dir @ ''/qmp.socket'',
                   la_vars := work_dir @ ''/'' @ base_name vars\<rparr>) of
                Inl e \<Rightarrow> (Inl e, s)
              | Inr command \<Rightarrow>
                  (let opened = (open_logs s)\<lparr>mc_run_file := Some command\<rparr> in
                   case ho_spawn host command of
                     Some e \<Rightarrow> (Inl e, close_logs opened)
                   | None \<Rightarrow> (Inr \<lparr>qr_id = run_id, qr_command = command, qr_work_dir = work_dir\<rparr>,
                             opened\<lparr>mc_alive := True\<rparr>)))))"

definition timeout_expired :: exn where
  "timeout_expired = OtherError ''TimeoutExpired'' ''the process did not exit in time''"

text \<open>\<open>process.kill(); process.wait(timeout=5)\<close>.\<close>

definition kill_process :: "host \<Rightarrow> (machine, unit) eff" where
  "kill_process host s =
     (if ho_obeys_kill host then (Inr (), s\<lparr>mc_alive := False\<rparr>) else (Inl timeout_expired, s))"

definition stop :: "host \<Rightarrow> (machine, unit) eff" where
  "stop host =
     eseq (\<lambda>s. if mc_alive s
               then (if ho_obeys_terminate host then (Inr (), s\<lparr>mc_alive := False\<rparr>) else kill_process host s)
               else (Inr (), s))
       (emodify close_logs)"

definition power_cut :: "host \<Rightarrow> (machine, unit) eff" where
  "power_cut host =
     eseq (\<lambda>s. if mc_alive s then kill_process host s else (Inr (), s)) (emodify close_logs)"

section \<open>The serial console\<close>

text \<open>One pass of the loop of \<open>_connect_unix\<close>.\<close>

datatype connect_tick = Died | NoSocket | Refused string | Connected

definition flush_closed :: exn where
  "flush_closed = ValueError ''flush of closed file''"

fun connect_unix :: "host \<Rightarrow> string \<Rightarrow> string \<Rightarrow> connect_tick list \<Rightarrow> (machine, unit) eff" where
  "connect_unix host path last_error [] s =
     (Inl (TimeoutError (''Timed out connecting to '' @ path @ '': '' @ last_error)), s)"
| "connect_unix host path last_error (tick # ticks) s =
     (if \<not> mc_alive s \<or> tick = Died then
        (let t = s\<lparr>mc_alive := False\<rparr> in
         if mc_stderr_open s
         then (Inl (RuntimeError (''QEMU exited before socket became available: '' @ ho_stderr host)), t)
         else (Inl flush_closed, t))
      else
        (case tick of
           NoSocket \<Rightarrow> connect_unix host path last_error ticks s
         | Refused e \<Rightarrow> connect_unix host path e ticks s
         | _ \<Rightarrow> (Inr (), s)))"

text \<open>One pass of a receiving loop: the process has exited, nothing arrived in time, bytes, an error.\<close>

datatype serial_tick = Exited | Silent | Received string | Broken exn

text \<open>The receiving loop of \<open>wait_for_serial\<close>: the bytes at its end, and the error that ended it.\<close>

fun serial_loop :: "string \<Rightarrow> serial_tick list \<Rightarrow> string \<Rightarrow> machine \<Rightarrow> exn option \<times> string \<times> machine" where
  "serial_loop sentinel [] buf s = (None, buf, s)"
| "serial_loop sentinel (tick # ticks) buf s =
     (if \<not> mc_alive s \<or> tick = Exited then (None, buf, s\<lparr>mc_alive := False\<rparr>)
      else
        (case tick of
           Silent \<Rightarrow> serial_loop sentinel ticks buf s
         | Received chunk \<Rightarrow>
             if chunk = [] then serial_loop sentinel ticks buf s
             else if sublist sentinel (buf @ chunk) then (None, buf @ chunk, s)
             else serial_loop sentinel ticks (buf @ chunk) s
         | Broken e \<Rightarrow> (Some e, buf, s)
         | _ \<Rightarrow> (None, buf, s)))"

text \<open>The timeout and the name of the log are given; \<open>repr\<close> of the sentinel is that of ASCII bytes.\<close>

definition unobserved :: "(real \<Rightarrow> string) \<Rightarrow> string \<Rightarrow> real \<Rightarrow> string \<Rightarrow> exn" where
  "unobserved fr sentinel timeout log_path =
     TimeoutError (''Sentinel b'' @ repr_str sentinel @ '' was not observed within '' @ fr timeout @
       ''s; serial log: '' @ log_path)"

definition wait_for_serial ::
  "(real \<Rightarrow> string) \<Rightarrow> host \<Rightarrow> qemu_run \<Rightarrow> string \<Rightarrow> real \<Rightarrow> string \<Rightarrow> connect_tick list \<Rightarrow> serial_tick list \<Rightarrow>
     (machine, string) eff" where
  "wait_for_serial fr host run sentinel timeout log_name connecting ticks =
     eseq (connect_unix host (qr_work_dir run @ ''/serial.socket'') ''None'' connecting) (\<lambda>s.
       (case serial_loop sentinel ticks [] s of (failure, buf, t) \<Rightarrow>
         (let u = t\<lparr>mc_serial_log := Some buf\<rparr> in
          case failure of
            Some e \<Rightarrow> (Inl e, u)
          | None \<Rightarrow>
              if sublist sentinel buf then (Inr buf, u)
              else eseq (stop host)
                (eraise (unobserved fr sentinel timeout (qr_work_dir run @ ''/'' @ log_name))) u)))"

section \<open>The guest agent\<close>

definition RESULT_PREFIX :: string where
  "RESULT_PREFIX = ''OSBENCH_RESULT ''"

text \<open>The payload of the first line that starts with the prefix.\<close>

definition result_payload :: "string \<Rightarrow> string option" where
  "result_payload buf =
     map_option (drop (length RESULT_PREFIX)) (find (prefix RESULT_PREFIX) (split_lines False [] buf))"

fun agent_loop :: "(string \<Rightarrow> pv result) \<Rightarrow> exn \<Rightarrow> serial_tick list \<Rightarrow> string \<Rightarrow> pv result" where
  "agent_loop decode late [] buf = Inl late"
| "agent_loop decode late (Received chunk # ticks) buf =
     (if chunk = [] then agent_loop decode late ticks buf
      else (case result_payload (buf @ chunk) of
              Some payload \<Rightarrow> decode payload
            | None \<Rightarrow> agent_loop decode late ticks (buf @ chunk)))"
| "agent_loop decode late (Broken e # ticks) buf = Inl e"
| "agent_loop decode late (_ # ticks) buf = agent_loop decode late ticks buf"

text \<open>
  \<open>encode\<close> is the base64 form of the JSON text of a case, \<open>decode\<close> reads such a form back and may
  raise.
\<close>

definition agent_case ::
  "(pv \<Rightarrow> string) \<Rightarrow> (string \<Rightarrow> pv result) \<Rightarrow> (real \<Rightarrow> string) \<Rightarrow> host \<Rightarrow> qemu_run \<Rightarrow> pv \<Rightarrow>
     connect_tick list \<Rightarrow> serial_tick list \<Rightarrow> (machine, pv) eff" where
  "agent_case encode decode fr host run c connecting ticks =
     eseq (connect_unix host (qr_work_dir run @ ''/serial.socket'') ''None'' connecting)
       (eseq (emodify (\<lambda>s. s\<lparr>mc_sent := mc_sent s @ [''OSBENCH_CASE '' @ encode c @ [CHR 0x0A]]\<rparr>))
         (elift (agent_loop decode
           (case py_item c ''case_id'' of Inl e \<Rightarrow> e
            | Inr i \<Rightarrow> TimeoutError (''Guest agent did not return case '' @ py_str fr i)) ticks [])))"

section \<open>The monitor\<close>

text \<open>
  \<open>qmp\<close>: \<open>replies\<close> are the lines the monitor answers, each as \<open>json.loads\<close> reads it; after the last
  one the connection is closed and \<open>json.loads\<close> of the empty line raises. \<open>encode\<close> is the JSON
  text of a request.
\<close>

definition closed_monitor :: exn where
  "closed_monitor = ValueError ''Expecting value: line 1 column 1 (char 0)''"

fun await_reply :: "pv result list \<Rightarrow> pv result" where
  "await_reply [] = Inl closed_monitor"
| "await_reply (r # rs) =
     rbind r (\<lambda>reply.
     rbind (py_contains reply ''return'') (\<lambda>returned.
       if returned then Inr reply
       else rbind (py_contains reply ''error'') (\<lambda>failed. if failed then Inr reply else await_reply rs)))"

definition next_line :: "pv result list \<Rightarrow> pv result" where
  "next_line rs = (case rs of [] \<Rightarrow> Inl closed_monitor | r # _ \<Rightarrow> r)"

definition request_of :: "string \<Rightarrow> (string \<times> pv) list \<Rightarrow> pv" where
  "request_of command arguments =
     PDict ([(''execute'', PStr command)] @ (if arguments = [] then [] else [(''arguments'', PDict arguments)]))"

definition send :: "(pv \<Rightarrow> string) \<Rightarrow> pv \<Rightarrow> (machine, unit) eff" where
  "send encode request = emodify (\<lambda>s. s\<lparr>mc_sent := mc_sent s @ [encode request @ [CHR 0x0D, CHR 0x0A]]\<rparr>)"

definition qmp ::
  "(pv \<Rightarrow> string) \<Rightarrow> (real \<Rightarrow> string) \<Rightarrow> host \<Rightarrow> qemu_run \<Rightarrow> string \<Rightarrow> (string \<times> pv) list \<Rightarrow>
     connect_tick list \<Rightarrow> pv result list \<Rightarrow> (machine, pv) eff" where
  "qmp encode fr host run command arguments connecting replies =
     eseq (connect_unix host (qr_work_dir run @ ''/qmp.socket'') ''None'' connecting)
     (ebind (elift (next_line replies)) (\<lambda>greeting.
      eseq (send encode (request_of ''qmp_capabilities'' []))
     (ebind (elift (next_line (drop 1 replies))) (\<lambda>capability.
      ebind (elift (py_contains capability ''error'')) (\<lambda>refused.
      if refused then ebind (elift (py_item capability ''error'')) (\<lambda>e. eraise (RuntimeError (py_str fr e)))
      else eseq (send encode (request_of command arguments))
        (ebind (elift (await_reply (drop 2 replies))) (\<lambda>reply.
          eret (PDict [(''greeting'', greeting), (''reply'', reply)]))))))))"

definition hotplug_block ::
  "(pv \<Rightarrow> string) \<Rightarrow> (real \<Rightarrow> string) \<Rightarrow> host \<Rightarrow> qemu_run \<Rightarrow> string \<Rightarrow> string \<Rightarrow>
     connect_tick list \<Rightarrow> pv result list \<Rightarrow> connect_tick list \<Rightarrow> pv result list \<Rightarrow> (machine, pv) eff" where
  "hotplug_block encode fr host run img node_id connecting1 replies1 connecting2 replies2 =
     ebind (qmp encode fr host run ''blockdev-add''
         [(''node-name'', PStr node_id), (''driver'', PStr ''raw''),
          (''file'', PDict [(''driver'', PStr ''file''), (''filename'', PStr img)])] connecting1 replies1)
       (\<lambda>_. qmp encode fr host run ''device_add''
         [(''driver'', PStr ''virtio-blk-pci''), (''drive'', PStr node_id), (''id'', PStr (''dev-'' @ node_id))]
         connecting2 replies2)"

definition hotunplug_block ::
  "(pv \<Rightarrow> string) \<Rightarrow> (real \<Rightarrow> string) \<Rightarrow> host \<Rightarrow> qemu_run \<Rightarrow> string \<Rightarrow>
     connect_tick list \<Rightarrow> pv result list \<Rightarrow> (machine, pv) eff" where
  "hotunplug_block encode fr host run node_id =
     qmp encode fr host run ''device_del'' [(''id'', PStr (''dev-'' @ node_id))]"

section \<open>Boot check\<close>

text \<open>The serial output is text: its bytes are ASCII. The duration is left out.\<close>

definition boot_report :: "qemu_run \<Rightarrow> string \<Rightarrow> string \<Rightarrow> pv" where
  "boot_report run sentinel serial =
     PDict [(''status'', PStr ''ok''), (''return'', PInt 0), (''errno'', PInt 0), (''stdout'', PStr serial),
            (''stderr'', PStr []), (''exit_code'', PInt 0), (''signal'', PNone),
            (''observations'', PDict [(''booted'', PBool True), (''sentinel'', PStr sentinel),
               (''run_id'', PStr (qr_id run)), (''command'', PList (map PStr (qr_command run)))]),
            (''resources'', PDict [])]"

definition launch_of :: "string \<Rightarrow> int \<Rightarrow> string list option \<Rightarrow> launch" where
  "launch_of img seed media =
     \<lparr>la_image = img, la_serial = [], la_qmp = [], la_vars = [], la_seed = seed, la_snapshot = True,
      la_install_iso = None, la_kernel = None, la_initrd = None, la_append = None, la_media = media\<rparr>"

definition boot_check ::
  "(real \<Rightarrow> string) \<Rightarrow> host \<Rightarrow> qemu_profile \<Rightarrow> string \<Rightarrow> string \<Rightarrow> string \<Rightarrow> int \<Rightarrow> string \<Rightarrow> string list option \<Rightarrow>
     connect_tick list \<Rightarrow> serial_tick list \<Rightarrow> (machine, pv) eff" where
  "boot_check fr host p run_id work_dir img seed sentinel media connecting ticks =
     ebind (start fr host p run_id work_dir (launch_of img seed media)) (\<lambda>run.
       efinally
         (ebind (wait_for_serial fr host run sentinel (qp_boot_timeout p) ''serial.log'' connecting ticks)
           (\<lambda>serial. eret (boot_report run sentinel serial)))
         (stop host))"

end
