(* ===== verification/Perturbations.thy ===== *)
theory Perturbations
  imports Comparators
begin

text \<open>
  \<open>perturbations.py\<close>: a baseline observation is changed in one of four ways, and the exact
  comparison must notice every change.
\<close>

definition baseline_observation :: "string list \<Rightarrow> pv \<Rightarrow> pv \<Rightarrow> pv \<Rightarrow> pv" where
  "baseline_observation entries ret out held =
     PDict [(''status'', PStr ''ok''), (''return'', ret), (''errno'', PInt 0), (''stdout'', out),
            (''observations'', PDict [(''value'', held), (''entries'', PList (map PStr entries))])]"

definition baseline :: pv where
  "baseline = baseline_observation [''a'', ''b''] (PInt 0) (PStr ''ok'') (PInt 1)"

text \<open>The four assignments on a deep copy of the baseline.\<close>

definition pset :: "pv \<Rightarrow> string \<Rightarrow> pv \<Rightarrow> pv" where
  "pset d k v = PDict (AList.update k v (items_of d))"

definition mutation :: "nat \<Rightarrow> pv" where
  "mutation i =
     (let m = baseline;
          observations = pget_default m ''observations'' PNone
      in if i mod 4 = 0 then pset m ''return'' (PInt 1)
         else if i mod 4 = 1 then pset m ''stdout'' (PStr ''bad'')
         else if i mod 4 = 2 then pset m ''observations'' (pset observations ''value'' (PInt 2))
         else pset m ''observations'' (pset observations ''entries''
                (PList (list_of (pget_default observations ''entries'' PNone) @ [PStr ''c'']))))"

record perturbation =
  pt_index :: nat
  pt_detected :: bool
  pt_difference :: "pv option"

definition perturbation_of :: "(real \<Rightarrow> string) \<Rightarrow> (string \<Rightarrow> real option) \<Rightarrow> nat \<Rightarrow> perturbation result" where
  "perturbation_of fr fp i =
     rbind (compare_values fr fp baseline (mutation i) \<lparr>eq_type = Some ''exact'', eq_tolerance = None\<rparr>)
       (\<lambda>(ok, diff). Inr \<lparr>pt_index = i, pt_detected = (\<not> ok), pt_difference = diff\<rparr>)"

fun perturbations_from :: "(real \<Rightarrow> string) \<Rightarrow> (string \<Rightarrow> real option) \<Rightarrow> nat list \<Rightarrow> perturbation list result" where
  "perturbations_from fr fp [] = Inr []"
| "perturbations_from fr fp (i # is) =
     rbind (perturbation_of fr fp i) (\<lambda>p. rbind (perturbations_from fr fp is) (\<lambda>ps. Inr (p # ps)))"

definition perturbation_selftest ::
  "(real \<Rightarrow> string) \<Rightarrow> (string \<Rightarrow> real option) \<Rightarrow> int \<Rightarrow> (bool \<times> perturbation list) result" where
  "perturbation_selftest fr fp limit =
     rbind (perturbations_from fr fp [0..<nat limit]) (\<lambda>ps. Inr (list_all pt_detected ps, ps))"

lemma mutation_cases:
  "mutation i \<in> {baseline_observation [''a'', ''b''] (PInt 1) (PStr ''ok'') (PInt 1),
     baseline_observation [''a'', ''b''] (PInt 0) (PStr ''bad'') (PInt 1),
     baseline_observation [''a'', ''b''] (PInt 0) (PStr ''ok'') (PInt 2),
     baseline_observation [''a'', ''b'', ''c''] (PInt 0) (PStr ''ok'') (PInt 1)}"
  by (simp add: mutation_def baseline_def baseline_observation_def pset_def pget_default_def pget_def Let_def)

lemma mutation_differs: "\<not> py_eq baseline (mutation i)"
  using mutation_cases [of i] by (auto simp: baseline_def baseline_observation_def)

lemma perturbation_detected:
  "perturbation_of fr fp i = Inr \<lparr>pt_index = i, pt_detected = True,
     pt_difference = Some (PDict [(''kind'', PStr ''observation_mismatch''), (''reference'', baseline),
       (''candidate'', mutation i), (''equivalence'', PStr ''exact'')])\<rparr>"
  by (simp add: perturbation_of_def compare_values_def verdict_structural eq_kind_def mutation_differs)

lemma perturbations_from_eq:
  "perturbations_from fr fp is = Inr (map (\<lambda>i. projr (perturbation_of fr fp i)) is)"
  by (induction "is") (simp_all add: perturbation_detected)

text \<open>
  The perturbation self-test passes for every limit: it makes one perturbation for each
  index below the limit, and the exact comparison detects each and reports the perturbed value.
\<close>

theorem perturbations_detected:
  "\<exists>ps. perturbation_selftest fr fp limit = Inr (True, ps) \<and> map pt_index ps = [0..<nat limit] \<and>
     list_all (\<lambda>p. pt_detected p \<and> pt_difference p \<noteq> None) ps"
  by (simp add: perturbation_selftest_def perturbations_from_eq perturbation_detected list_all_iff comp_def)

end
