(* ===== verification/Calibration.thy ===== *)
theory Calibration
  imports Qemu Perturbations
begin

text \<open>
  The calibration of \<open>reference.py\<close> and the realization of the lock: trials of one Contract on the
  pinned machine, the document of accepted outcomes, and the binding of that document and of the
  built artifacts into the realized lock. Artifacts are given by what the code reads of them:
  their digests and texts.
\<close>

section \<open>Calibration trials\<close>

definition CALIBRATED :: string where
  "CALIBRATED = ''persistence.crash.unsynced_bounds''"

text \<open>\<open>str.isalnum\<close> on one character.\<close>

definition is_alnum :: "char \<Rightarrow> bool" where
  "is_alnum c =
     (let n = (of_char c :: nat) in
      48 \<le> n \<and> n \<le> 57 \<or> 65 \<le> n \<and> n \<le> 90 \<or> 97 \<le> n \<and> n \<le> 122 \<or>
      n \<in> {170, 178, 179, 181, 185, 186, 188, 189, 190} \<or> 192 \<le> n \<and> n \<noteq> 215 \<and> n \<noteq> 247)"

definition valid_profile_name :: "string \<Rightarrow> bool" where
  "valid_profile_name name =
     (let rest = filter (\<lambda>c. c \<noteq> CHR ''_'' \<and> c \<noteq> CHR ''-'') name in rest \<noteq> [] \<and> list_all is_alnum rest)"

definition pad3 :: "nat \<Rightarrow> string" where
  "pad3 n = (let digits = str_of_nat n in replicate (3 - length digits) (CHR ''0'') @ digits)"

fun find_contract :: "pv list \<Rightarrow> string \<Rightarrow> pv option result" where
  "find_contract [] i = Inr None"
| "find_contract (c # cs) i =
     rbind (py_item c ''id'') (\<lambda>v. if py_eq v (PStr i) then Inr (Some c) else find_contract cs i)"

definition trial_case :: "'g generation \<Rightarrow> pv \<Rightarrow> int \<Rightarrow> nat \<Rightarrow> pv result" where
  "trial_case gn contract seed index =
     rbind (generate_cases gn ''reference-calibration'' (seed + int index) 1 (Some [contract]) (Inr [])) (\<lambda>cases.
       (case cases of
          [] \<Rightarrow> Inl (OtherError ''StopIteration'' [])
        | c # _ \<Rightarrow> rbind (py_item c ''case_id'') (\<lambda>i.
            Inr (pset c ''case_id'' (PStr (py_str (gn_fr gn) i @ '':calibration-'' @ pad3 index))))))"

definition REQUIRED_INVARIANTS :: "string list" where
  "REQUIRED_INVARIANTS =
     [''durable_sentinel_intact'', ''no_cross_file_corruption'', ''plausible_unsynced_outcome'',
      ''block_granularity_valid'']"

definition trial_failure :: "nat \<Rightarrow> string \<Rightarrow> exn" where
  "trial_failure index what = RuntimeError (''unsynced calibration trial '' @ str_of_nat index @ what)"

text \<open>The checks on one observation: its outcome class, or the exception.\<close>

definition trial_outcome :: "(real \<Rightarrow> string) \<Rightarrow> nat \<Rightarrow> pv \<Rightarrow> string result" where
  "trial_outcome fr index observation =
     rbind (py_get observation ''status'' PNone) (\<lambda>status.
       if \<not> py_eq status (PStr ''ok'')
       then Inl (trial_failure index ('' failed: '' @ py_str fr (pget_default observation ''stderr'' (PStr []))))
       else
         rbind (py_get (pget_default observation ''observations'' (PDict [])) ''verify'' (PDict [])) (\<lambda>verify.
         rbind (py_get verify ''outcome_class'' PNone) (\<lambda>outcome.
           (case outcome of
              PStr s \<Rightarrow>
                (let violated = filter (\<lambda>(_, v). v \<noteq> PBool True)
                       (map (\<lambda>k. (k, pget_default verify k PNone)) REQUIRED_INVARIANTS)
                 in if violated = [] then Inr s
                    else Inl (trial_failure index ('' violated invariants: '' @ py_repr fr (PDict violated))))
            | _ \<Rightarrow> Inl (trial_failure index '' returned no outcome class'')))))"

definition trial_record :: "nat \<Rightarrow> pv \<Rightarrow> string \<Rightarrow> pv" where
  "trial_record index c outcome =
     PDict [(''trial'', p_nat index), (''case_id'', pget_default c ''case_id'' PNone),
            (''seed'', pget_default c ''seed'' PNone), (''outcome'', PStr outcome)]"

type_synonym tally = "(string, nat) dict \<times> pv list"

text \<open>One pass of the loop: the case, its execution, the checks, the count and the record.\<close>

definition run_trial ::
  "('r, 'w) env \<Rightarrow> 'g generation \<Rightarrow> pv \<Rightarrow> int \<Rightarrow> nat \<Rightarrow> tally \<Rightarrow> ('r target \<times> 'w, tally) eff" where
  "run_trial env gn contract seed index t =
     ebind (elift (trial_case gn contract seed index)) (\<lambda>c.
     ebind (execute env (case_of_doc c)) (\<lambda>observation.
     ebind (elift (trial_outcome (gn_fr gn) index observation)) (\<lambda>outcome.
       eret (bump outcome (fst t), snd t @ [trial_record index c outcome]))))"

fun run_trials ::
  "('r, 'w) env \<Rightarrow> 'g generation \<Rightarrow> pv \<Rightarrow> int \<Rightarrow> nat list \<Rightarrow> tally \<Rightarrow> ('r target \<times> 'w, tally) eff" where
  "run_trials env gn contract seed [] t = eret t"
| "run_trials env gn contract seed (i # is) t =
     ebind (run_trial env gn contract seed i t) (run_trials env gn contract seed is)"

record calibration_setup =
  cb_trials :: int
  cb_profile :: string
  cb_seed :: int
  cb_image :: string
  cb_image_sha256 :: "string option"
  cb_payload :: string
  cb_payload_sha256 :: "string option"
  cb_contracts :: "pv list result"
  cb_profile_loaded :: "qemu_profile result"

text \<open>What precedes the trials: the argument checks, the two artifacts, the Contract, the profile.\<close>

definition calibration_checks :: "calibration_setup \<Rightarrow> (pv \<times> string \<times> string) result" where
  "calibration_checks cb =
     (if cb_trials cb < 2 then Inl (ValueError ''unsynced calibration requires at least two trials'')
      else if \<not> valid_profile_name (cb_profile cb)
        then Inl (ValueError (''invalid QEMU profile name: '' @ repr_str (cb_profile cb)))
      else
        (case cb_image_sha256 cb of
           None \<Rightarrow> Inl (FileNotFoundError (cb_image cb))
         | Some image_sha256 \<Rightarrow>
             (case cb_payload_sha256 cb of
                None \<Rightarrow> Inl (FileNotFoundError (cb_payload cb))
              | Some payload_sha256 \<Rightarrow>
                  rbind (cb_contracts cb) (\<lambda>contracts.
                  rbind (find_contract contracts CALIBRATED) (\<lambda>found.
                    (case found of
                       None \<Rightarrow> Inl (KeyError CALIBRATED)
                     | Some contract \<Rightarrow>
                         rbind (cb_profile_loaded cb) (\<lambda>_. Inr (contract, image_sha256, payload_sha256))))))))"

definition calibration_document :: "calibration_setup \<Rightarrow> string \<Rightarrow> string \<Rightarrow> tally \<Rightarrow> pv" where
  "calibration_document cb image_sha256 payload_sha256 t =
     PDict [(''schema_version'', PStr ''osbench.accepted_outcomes.v1''), (''benchmark_version'', PStr BENCHMARK_VERSION),
            (''reference_id'', PStr REFERENCE_ID), (''contract'', PStr CALIBRATED), (''profile'', PStr (cb_profile cb)),
            (''trial_count'', PInt (cb_trials cb)), (''seed'', PInt (cb_seed cb)),
            (''reference_image_sha256'', PStr image_sha256), (''payload_sha256'', PStr payload_sha256),
            (''outcomes'', PList (map PStr (sort (map fst (fst t))))),
            (''counts'', p_dict p_nat (sorted_items (fst t))), (''trials'', PList (snd t))]"

definition calibrate_unsynced_outcomes ::
  "('r, 'w) env \<Rightarrow> 'g generation \<Rightarrow> calibration_setup \<Rightarrow> ('r target \<times> 'w, pv) eff" where
  "calibrate_unsynced_outcomes env gn cb =
     ebind (elift (calibration_checks cb)) (\<lambda>(contract, image_sha256, payload_sha256).
     ebind (efinally (run_trials env gn contract (cb_seed cb) [0..<nat (cb_trials cb)] ([], [])) (close env)) (\<lambda>t.
       eret (calibration_document cb image_sha256 payload_sha256 t)))"

section \<open>Realizing the lock\<close>

text \<open>What \<open>realize_lock\<close> finds: for each artifact that exists its digest, or what is read of it.\<close>

record findings =
  fd_container :: "(string \<times> string) option"
  fd_installer :: "pv option"
  fd_image :: "string option"
  fd_inventory :: "pv option"
  fd_packages :: "string option"
  fd_qemu_version :: "pv option"
  fd_xorriso_version :: "pv option"
  fd_ovmf :: "string option"
  fd_rootfs :: "string option"
  fd_oci_archive :: "string option"
  fd_workloads :: "string option"
  fd_probes :: "string option"
  fd_payload :: "string option"
  fd_calibration :: "(string \<times> pv result) option"

type_synonym lock_fields = "(string \<times> pv) list"

definition set_field :: "string \<Rightarrow> pv \<Rightarrow> lock_fields \<Rightarrow> lock_fields" where
  "set_field k v fs = AList.update k v fs"

definition set_digest :: "string \<Rightarrow> string option \<Rightarrow> lock_fields \<Rightarrow> lock_fields" where
  "set_digest k sha fs = (case sha of None \<Rightarrow> fs | Some s \<Rightarrow> set_field k (PStr s) fs)"

definition field :: "lock_fields \<Rightarrow> string \<Rightarrow> pv" where
  "field fs k = (case map_of fs k of None \<Rightarrow> PNone | Some v \<Rightarrow> v)"

text \<open>\<open>str.splitlines\<close>, which splits text at more characters than the lines of bytes.\<close>

fun text_lines :: "bool \<Rightarrow> string \<Rightarrow> string \<Rightarrow> string list" where
  "text_lines after_cr acc [] = (if acc = [] then [] else [acc])"
| "text_lines after_cr acc (c # cs) =
     (if c = CHR 0x0A then (if after_cr then text_lines False [] cs else acc # text_lines False [] cs)
      else if c = CHR 0x0D then acc # text_lines True [] cs
      else if c \<in> {CHR 0x0B, CHR 0x0C, CHR 0x1C, CHR 0x1D, CHR 0x1E, CHR 0x85} then acc # text_lines False [] cs
      else text_lines False (acc @ [c]) cs)"

definition realize_container :: "(string \<times> string) option \<Rightarrow> lock_fields \<Rightarrow> lock_fields" where
  "realize_container manifest fs =
     (case manifest of
        None \<Rightarrow> fs
      | Some (sha, text) \<Rightarrow>
          set_field ''container_package_count'' (p_nat (length (filter (\<lambda>l. \<not> is_blank l) (text_lines False [] text))))
            (set_field ''container_package_manifest_sha256'' (PStr sha) fs))"

definition realize_installer :: "pv option \<Rightarrow> lock_fields \<Rightarrow> lock_fields result" where
  "realize_installer manifest fs =
     (case manifest of
        None \<Rightarrow> Inr fs
      | Some m \<Rightarrow>
          rbind (py_get m ''custom_iso'' (PDict [])) (\<lambda>custom.
          rbind (py_get m ''injected'' (PDict [])) (\<lambda>injected.
          rbind (py_get custom ''sha256'' PNone) (\<lambda>iso.
          rbind (py_get custom ''size_bytes'' PNone) (\<lambda>size.
          rbind (py_get injected ''initrd_sha256'' PNone) (\<lambda>initrd.
          rbind (py_get injected ''grub_cfg_sha256'' PNone) (\<lambda>grub.
            Inr (set_field ''xorriso_version'' (pget_default m ''xorriso_version'' PNone)
                (set_field ''installer_grub_cfg_sha256'' grub
                (set_field ''installer_initrd_sha256'' initrd
                (set_field ''installer_iso_size_bytes'' size
                (set_field ''installer_iso_sha256'' iso fs))))))))))))"

definition realize_inventory :: "pv option \<Rightarrow> lock_fields \<Rightarrow> lock_fields result" where
  "realize_inventory manifest fs =
     (case manifest of
        None \<Rightarrow> Inr fs
      | Some m \<Rightarrow>
          rbind (py_get m ''package_manifest_sha256'' PNone) (\<lambda>sha.
            Inr (set_field ''package_count'' (pget_default m ''package_count'' PNone)
                (set_field ''package_manifest_sha256'' sha fs))))"

text \<open>The third column of each line with three columns, by the first.\<close>

definition package_versions :: "string \<Rightarrow> (string, string) dict" where
  "package_versions text =
     foldl (\<lambda>d line. (let parts = split_on (CHR 0x09) line in
                      if 3 \<le> length parts then AList.update (parts ! 0) (parts ! 2) d else d))
       [] (text_lines False [] text)"

definition realize_packages :: "string option \<Rightarrow> lock_fields \<Rightarrow> lock_fields" where
  "realize_packages text fs =
     (case text of
        None \<Rightarrow> fs
      | Some t \<Rightarrow>
          (let versions = package_versions t;
               version = (\<lambda>n. p_opt PStr (map_of versions n));
               kernel = find (prefix ''linux-image-'') (map fst versions)
           in set_field ''firmware_packages'' (PList (map PStr (sort (filter (prefix ''firmware-'') (map fst versions)))))
             (set_field ''shell_versions'' (PDict (concat (map (\<lambda>n. case map_of versions n of
                  None \<Rightarrow> [] | Some v \<Rightarrow> [(n, PStr v)]) [''bash'', ''dash''])))
             (set_field ''coreutils_version'' (version ''coreutils'')
             (set_field ''libc_version'' (version ''libc6'')
             (set_field ''systemd_version'' (version ''systemd'')
             (set_field ''kernel_version'' (case kernel of None \<Rightarrow> PNone | Some k \<Rightarrow> version k)
             (set_field ''kernel_package'' (p_opt PStr kernel) fs))))))))"

definition realize_tools :: "pv option \<Rightarrow> pv option \<Rightarrow> lock_fields \<Rightarrow> lock_fields" where
  "realize_tools qemu_version xorriso_version fs =
     (let fs1 = (case qemu_version of None \<Rightarrow> fs | Some v \<Rightarrow> set_field ''qemu_version'' v fs)
      in if \<not> truthy (field fs1 ''xorriso_version'')
         then (case xorriso_version of None \<Rightarrow> fs1 | Some v \<Rightarrow> set_field ''xorriso_version'' v fs1) else fs1)"

definition outcomes_ok :: "pv \<Rightarrow> bool" where
  "outcomes_ok outcomes =
     (case outcomes of
        PList xs \<Rightarrow> xs \<noteq> [] \<and> list_all (\<lambda>x. case x of PStr s \<Rightarrow> s \<noteq> [] | _ \<Rightarrow> False) xs
      | _ \<Rightarrow> False)"

definition binds_artifacts :: "string \<Rightarrow> lock_fields \<Rightarrow> pv \<Rightarrow> bool" where
  "binds_artifacts profile fs d \<longleftrightarrow>
     py_eq (pget_default d ''schema_version'' PNone) (PStr ''osbench.accepted_outcomes.v1'') \<and>
     py_eq (pget_default d ''benchmark_version'' PNone) (PStr BENCHMARK_VERSION) \<and>
     py_eq (pget_default d ''reference_id'' PNone) (PStr REFERENCE_ID) \<and>
     py_eq (pget_default d ''contract'' PNone) (PStr CALIBRATED) \<and>
     py_eq (pget_default d ''profile'' PNone) (PStr profile) \<and>
     py_eq (pget_default d ''reference_image_sha256'' PNone) (field fs ''image_sha256'') \<and>
     py_eq (pget_default d ''payload_sha256'' PNone) (field fs ''payload_sha256'') \<and>
     outcomes_ok (pget_default d ''outcomes'' PNone)"

definition calibration_path :: "string \<Rightarrow> string" where
  "calibration_path profile = ''reference/oracle/unsynced_outcomes.'' @ profile @ ''.json''"

definition realize_unsynced_calibration ::
  "string \<Rightarrow> (string \<times> pv result) option \<Rightarrow> lock_fields \<Rightarrow> lock_fields" where
  "realize_unsynced_calibration profile calibration fs =
     (case calibration of
        Some (sha, Inr d) \<Rightarrow>
          if is_dict d \<and> binds_artifacts profile fs d
          then set_field ''unsynced_outcome_calibration_outcomes''
                 (PList (map PStr (sorted_set (map str_of (list_of (pget_default d ''outcomes'' PNone))))))
              (set_field ''unsynced_outcome_calibration_trial_count'' (pget_default d ''trial_count'' PNone)
              (set_field ''unsynced_outcome_calibration_sha256'' (PStr sha)
              (set_field ''unsynced_outcome_calibration_path'' (PStr (calibration_path profile))
              (set_field ''unsynced_outcome_calibration_profile'' (PStr profile) fs))))
          else fs
      | _ \<Rightarrow> fs)"

definition realize_fields :: "string \<Rightarrow> findings \<Rightarrow> lock_fields \<Rightarrow> lock_fields result" where
  "realize_fields profile fd fs =
     rbind (realize_installer (fd_installer fd) (realize_container (fd_container fd) fs)) (\<lambda>fs1.
     rbind (realize_inventory (fd_inventory fd) (set_digest ''image_sha256'' (fd_image fd) fs1)) (\<lambda>fs2.
       (let fs3 = realize_tools (fd_qemu_version fd) (fd_xorriso_version fd) (realize_packages (fd_packages fd) fs2);
            fs4 = set_digest ''payload_sha256'' (fd_payload fd)
                   (set_digest ''raw_probe_manifest_sha256'' (fd_probes fd)
                   (set_digest ''workload_fixture_manifest_sha256'' (fd_workloads fd)
                   (set_digest ''oci_archive_sha256'' (fd_oci_archive fd)
                   (set_digest ''oci_rootfs_sha256'' (fd_rootfs fd)
                   (set_digest ''ovmf_sha256'' (fd_ovmf fd) fs3)))))
        in Inr (realize_unsynced_calibration profile (fd_calibration fd) fs4))))"

definition LOCK_REQUIRED :: "string list" where
  "LOCK_REQUIRED =
     [''image_sha256'', ''package_manifest_sha256'', ''kernel_version'', ''systemd_version'', ''libc_version'',
      ''payload_sha256'', ''unsynced_outcome_calibration_sha256'']"

record realized_lock =
  rl_status :: string
  rl_document :: pv
  rl_fields :: lock_fields

definition realize_lock :: "string \<Rightarrow> findings \<Rightarrow> pv \<Rightarrow> realized_lock result" where
  "realize_lock profile fd lock =
     rbind (py_item lock ''resolved_from_installed_system'') (\<lambda>resolved.
       if \<not> is_dict resolved then Inl (TypeError ''object does not support item assignment'')
       else
         rbind (realize_fields profile fd (items_of resolved)) (\<lambda>fs.
         rbind (map_result (py_item (PDict fs)) LOCK_REQUIRED) (\<lambda>values.
           (let status = (if list_all truthy values then ''materialized'' else ''partially_materialized'')
            in Inr \<lparr>rl_status = status,
                    rl_document = pset (pset lock ''resolved_from_installed_system'' (PDict fs)) ''status'' (PStr status),
                    rl_fields = fs\<rparr>))))"

end
