(* ===== verification/DatasetFacts.thy ===== *)
theory DatasetFacts
  imports Dataset
begin

text \<open>
  What generation guarantees: shuffling permutes the schedule, every number drawn stays in its
  range, a generated dataset passes the validator and the gate of the evaluator.
\<close>

section \<open>Random choices\<close>

lemma lawfulD: "lawful below \<Longrightarrow> below n g = (r, h) \<Longrightarrow> 0 < n \<Longrightarrow> r < n"
  unfolding lawful_def by (metis fst_conv)

lemma rng_choice_in:
  "lawful below \<Longrightarrow> rng_choice below xs g = (x, h) \<Longrightarrow> xs \<noteq> [] \<Longrightarrow> x \<in> set xs"
  by (auto simp: rng_choice_def dest!: lawfulD split: prod.splits)

lemma rng_choices_in:
  "lawful below \<Longrightarrow> rng_choices below xs n g = (ys, h) \<Longrightarrow> xs \<noteq> [] \<Longrightarrow> length ys = n \<and> set ys \<subseteq> set xs"
proof (induction n arbitrary: g ys)
  case (Suc n)
  from Suc.prems(2) obtain x k zs where x: "rng_choice below xs g = (x, k)"
    and zs: "rng_choices below xs n k = (zs, h)" and ys: "ys = x # zs"
    by (auto split: prod.splits)
  show ?case using rng_choice_in [OF Suc.prems(1) x Suc.prems(3)] Suc.IH [OF Suc.prems(1) zs Suc.prems(3)] ys by simp
qed simp

lemma randrange_bounds:
  "lawful below \<Longrightarrow> randrange below a b g = (x, h) \<Longrightarrow> a < b \<Longrightarrow> a \<le> x \<and> x < b"
  by (auto simp: randrange_def dest!: lawfulD split: prod.splits)

lemma mset_swap_items: "i < length xs \<Longrightarrow> j < length xs \<Longrightarrow> mset (swap_items i j xs) = mset xs"
  by (simp add: swap_items_def mset_swap)

lemma mset_shuffle_from:
  "lawful below \<Longrightarrow> i < length xs \<or> i = 0 \<Longrightarrow> mset (fst (shuffle_from below i xs g)) = mset xs"
proof (induction i arbitrary: xs g)
  case (Suc i)
  obtain j h where j: "below (i + 2) g = (j, h)" by (cases "below (i + 2) g")
  have "j < i + 2" by (rule lawfulD [OF Suc.prems(1) j]) simp
  then have "mset (swap_items (Suc i) j xs) = mset xs" using Suc.prems by (intro mset_swap_items) auto
  moreover have "length (swap_items (Suc i) j xs) = length xs" by (simp add: swap_items_def)
  moreover have "i < length (swap_items (Suc i) j xs) \<or> i = 0" using Suc.prems by (simp add: swap_items_def)
  ultimately show ?case using Suc.IH [OF Suc.prems(1), of "swap_items (Suc i) j xs" h] j by simp
qed simp

lemma mset_shuffle: "lawful below \<Longrightarrow> mset (fst (shuffle below xs g)) = mset xs"
  unfolding shuffle_def by (rule mset_shuffle_from) auto

lemma length_planned: "length (planned_families n profile) = n"
  by (auto simp: planned_families_def PUBLIC_FAMILY_COUNTS_def)

lemma mset_schedule:
  "lawful below \<Longrightarrow> mset (family_schedule seeded below n profile seed) = mset (planned_families (nat n) profile)"
  unfolding family_schedule_def by (rule mset_shuffle)

lemma length_schedule: "lawful below \<Longrightarrow> length (family_schedule seeded below n profile seed) = nat n"
  using arg_cong [OF mset_schedule, of below size] by (simp add: length_planned)

lemma schedule_families:
  assumes "lawful below"
  shows "set (family_schedule seeded below n profile seed) \<subseteq> set CASE_FAMILIES"
proof -
  have "CASE_FAMILIES ! (i mod length CASE_FAMILIES) \<in> set CASE_FAMILIES" for i
    by (rule nth_mem) (simp add: CASE_FAMILIES_facts)
  moreover have "set (concat (map (\<lambda>(f, k). replicate k f) PUBLIC_FAMILY_COUNTS)) \<subseteq> set CASE_FAMILIES"
    by (simp add: PUBLIC_FAMILY_COUNTS_def CASE_FAMILIES_def)
  ultimately have "set (planned_families (nat n) profile) \<subseteq> set CASE_FAMILIES"
    unfolding planned_families_def by (auto split: if_splits)
  then show ?thesis using arg_cong [OF mset_schedule [OF assms], of set_mset] by simp
qed

lemma count_round_robin:
  assumes "distinct xs" and "k < length xs"
  shows "count (mset (map (\<lambda>i. xs ! (i mod length xs)) [0..<n])) (xs ! k) =
    (n + length xs - 1 - k) div length xs"
proof (induction n)
  case (Suc n)
  let ?L = "length xs"
  have "0 < ?L" using assms by auto
  have step: "(Suc n + ?L - 1 - k) div ?L = (n + ?L - 1 - k) div ?L + (if n mod ?L = k then 1 else 0)"
  proof -
    have "Suc n + ?L - 1 - k = Suc (n + ?L - 1 - k)" using assms(2) by simp
    moreover have "Suc (n + ?L - 1 - k) mod ?L = 0 \<longleftrightarrow> n mod ?L = k"
    proof -
      have "int (Suc (n + ?L - 1 - k)) = int n - int k + int ?L" using assms(2) by simp
      then have "?L dvd Suc (n + ?L - 1 - k) \<longleftrightarrow> int ?L dvd int n - int k"
        by (metis dvd_add_triv_right_iff int_dvd_int_iff)
      also have "\<dots> \<longleftrightarrow> n mod ?L = k mod ?L"
        by (metis mod_eq_dvd_iff of_nat_eq_iff zmod_int)
      finally show ?thesis using assms(2) by (simp add: dvd_eq_mod_eq_0)
    qed
    ultimately show ?thesis by (simp add: div_Suc)
  qed
  have "xs ! (n mod ?L) = xs ! k \<longleftrightarrow> n mod ?L = k"
    using assms \<open>0 < ?L\<close> by (simp add: nth_eq_iff_index_eq)
  with Suc step show ?case by simp
qed (use assms in simp)

text \<open>
  The schedule of the public profile has exactly the published number of cases of every
  family, in some order, when it is as long as these numbers add up to; any other profile deals
  the families out in turn: the \<open>k\<close>-th family gets every eleventh slot from slot \<open>k\<close> on.
\<close>

theorem schedule_family_counts:
  assumes "lawful below"
  shows "mset (family_schedule seeded below 2660 ''public'' seed) =
      mset (concat (map (\<lambda>(f, k). replicate k f) PUBLIC_FAMILY_COUNTS)) \<and>
    (profile \<noteq> ''public'' \<longrightarrow> (\<forall>k<11. count (mset (family_schedule seeded below n profile seed)) (CASE_FAMILIES ! k) =
       (nat n + 10 - k) div 11))"
  using count_round_robin [of CASE_FAMILIES]
  by (simp add: mset_schedule [OF assms] planned_families_def CASE_FAMILIES_facts PUBLIC_FAMILY_COUNTS_def add.commute)

section \<open>One case\<close>

lemma scales_in: "0 \<le> pos \<Longrightarrow> pos < 8 \<Longrightarrow> SCALES ! nat pos \<in> set SCALES"
  by (intro nth_mem) (auto simp: SCALES_def)

lemma draw_ranges:
  assumes "lawful below" and "draw below contract g = Inr d"
  shows "length (dr_token d) = 12" and "set (dr_token d) \<subseteq> set TOKEN_ALPHABET" and "dr_scale d \<in> set SCALES"
    and "-4 \<le> dr_first d" and "dr_first d \<le> 16" and "0 \<le> dr_second d" and "dr_second d \<le> 8192"
proof -
  obtain token g1 where t: "rng_choices below TOKEN_ALPHABET 12 g = (token, g1)" by fastforce
  obtain pos g2 where pos: "randrange below 0 8 g1 = (pos, g2)" by fastforce
  obtain fault g3 where "(case randrange below (-4) 17 g3 of (a, g4) \<Rightarrow>
      (case randrange below 0 8193 g4 of (b, _) \<Rightarrow>
        Inr \<lparr>dr_token = token, dr_scale = SCALES ! nat pos, dr_fault = fault, dr_first = a, dr_second = b\<rparr>)) = (Inr d :: drawn result)"
    using assms(2) by (auto simp: draw_def t pos rbind_eq_Inr_iff)
  then obtain a g4 b g5 where
    "randrange below (-4) 17 g3 = (a, g4)" "randrange below 0 8193 g4 = (b, g5)"
    "d = \<lparr>dr_token = token, dr_scale = SCALES ! nat pos, dr_fault = fault, dr_first = a, dr_second = b\<rparr>"
    by (auto split: prod.splits)
  note d = this
  have "TOKEN_ALPHABET \<noteq> []" by (simp add: TOKEN_ALPHABET_def)
  with rng_choices_in [OF assms(1) t] show "length (dr_token d) = 12" "set (dr_token d) \<subseteq> set TOKEN_ALPHABET"
    by (simp_all add: d(3))
  show "dr_scale d \<in> set SCALES" using randrange_bounds [OF assms(1) pos] by (simp add: d(3) scales_in)
  show "-4 \<le> dr_first d" "dr_first d \<le> 16" using randrange_bounds [OF assms(1) d(1)] by (simp_all add: d(3))
  show "0 \<le> dr_second d" "dr_second d \<le> 8192" using randrange_bounds [OF assms(1) d(2)] by (simp_all add: d(3))
qed

text \<open>What a body holds, whatever the Contract: the fields below, and no \<open>case_id\<close>.\<close>

lemma case_body_fields:
  assumes "case_body fp contract d seed family index profile = Inr body"
  shows "map fst (items_of body) =
      [''schema_version'', ''benchmark_version'', ''contract'', ''domain'', ''level'', ''family'', ''case_family'',
       ''difficulty'', ''seed'', ''index'', ''profile'', ''prerequisites'', ''setup'', ''stimulus'', ''expected'',
       ''resource_limits'', ''timeout_seconds'', ''cleanup'', ''generator'', ''transport'', ''provenance'']"
    and "body = PDict (items_of body)"
    and "py_item contract ''id'' = Inr (the (map_of (items_of body) ''contract''))"
    and "map_of (items_of body) ''index'' = Some (PInt index)"
    and "map_of (items_of body) ''family'' = Some (PStr family)"
    and "map_of (items_of body) ''setup'' = Some (PDict [(''clean_snapshot'', PBool (index mod 4 \<noteq> 0)),
        (''temporary_root'', PStr (''/tmp/osbench-'' @ dr_token d))])"
    and "map_of (items_of body) ''resource_limits'' = Some (resource_limits (dr_scale d))"
    and "\<exists>operation. map_of (items_of body) ''stimulus'' = Some (PDict [(''operation'', operation),
        (''token'', PStr (dr_token d)), (''scale'', PInt (dr_scale d)), (''fault'', dr_fault d),
        (''arguments'', PList [PInt (dr_first d), PInt (dr_second d)])])"
  using assms by (auto simp: case_body_def result_simps)

lemma generic_case_Inr:
  assumes "generic_case seeded below fr fp digest contract seed family index profile = Inr c"
  obtains d body cid where "draw below contract (seeded seed) = Inr d"
    "case_body fp contract d seed family index profile = Inr body" "py_item contract ''id'' = Inr cid"
    "c = PDict (items_of body @ [(''case_id'', PStr (py_str fr cid @ '':'' @ take 16 (digest body)))])"
  using assms by (auto simp: generic_case_def result_simps)

lemma generated_case_fields:
  assumes "lawful below" and "generic_case seeded below fr fp digest contract seed family index profile = Inr c"
  shows "row_missing c = []"
proof -
  obtain d body cid where body: "case_body fp contract d seed family index profile = Inr body"
    and c: "c = PDict (items_of body @ [(''case_id'', PStr (py_str fr cid @ '':'' @ take 16 (digest body)))])"
    by (rule generic_case_Inr [OF assms(2)])
  have "fst ` set (items_of c) = set (map fst (items_of body)) \<union> {''case_id''}"
    by (simp add: c)
  then show ?thesis
    unfolding row_missing_def case_body_fields(1) [OF body]
    by (simp add: REQUIRED_FIELDS_def)
qed

text \<open>
  The numbers of a generated case stay within their bounds, whatever the random source
  yields: the limits of memory, processes and files, the two arguments, the scale and the token;
  every fourth case of a Contract asks for a dirty snapshot, and all the fields that the dataset
  validator requires are there.
\<close>

theorem generated_case_bounds:
  assumes "lawful below" and "generic_case seeded below fr fp digest contract seed family index profile = Inr c"
  shows "row_missing c = [] \<and>
    (\<exists>token scale fault operation a b m p f.
       pget c ''setup'' = Some (PDict [(''clean_snapshot'', PBool (\<not> 4 dvd index)),
         (''temporary_root'', PStr (''/tmp/osbench-'' @ token))]) \<and>
       pget c ''stimulus'' = Some (PDict [(''operation'', operation), (''token'', PStr token), (''scale'', PInt scale),
         (''fault'', fault), (''arguments'', PList [PInt a, PInt b])]) \<and>
       pget c ''resource_limits'' = Some (PDict [(''memory_mb'', PInt m), (''processes'', PInt p), (''files'', PInt f)]) \<and>
       length token = 12 \<and> set token \<subseteq> set TOKEN_ALPHABET \<and> scale \<in> set SCALES \<and>
       -4 \<le> a \<and> a \<le> 16 \<and> 0 \<le> b \<and> b \<le> 8192 \<and>
       16 \<le> m \<and> m \<le> 512 \<and> 4 \<le> p \<and> p \<le> 128 \<and> 8 \<le> f \<and> f \<le> 1024)"
proof -
  obtain d body cid where d: "draw below contract (seeded seed) = Inr d"
    and body: "case_body fp contract d seed family index profile = Inr body"
    and c: "c = PDict (items_of body @ [(''case_id'', PStr (py_str fr cid @ '':'' @ take 16 (digest body)))])"
    by (rule generic_case_Inr [OF assms(2)])
  have get: "pget c k = map_of (items_of body) k" if "k \<noteq> ''case_id''" for k
    using that by (simp add: c pget_def map_add_def split: option.split)
  have "row_missing c = []" by (rule generated_case_fields [OF assms])
  moreover have "\<exists>m p f. resource_limits s = PDict [(''memory_mb'', PInt m), (''processes'', PInt p), (''files'', PInt f)] \<and>
      16 \<le> m \<and> m \<le> 512 \<and> 4 \<le> p \<and> p \<le> 128 \<and> 8 \<le> f \<and> f \<le> 1024" for s
    by (auto simp: resource_limits_def)
  ultimately show ?thesis
    using case_body_fields(6-8) [OF body] draw_ranges [OF assms(1) d]
    by (simp add: get dvd_eq_mod_eq_0) blast
qed

section \<open>A built dataset is accepted\<close>

lemma map_result_iff: "map_result f xs = Inr ys \<longleftrightarrow> list_all2 (\<lambda>x y. f x = Inr y) xs ys"
proof (induction xs arbitrary: ys)
  case (Cons x xs)
  then show ?case by (cases ys) (auto simp: rbind_eq_Inr_iff)
qed auto

lemma map_result_exists: "(\<And>x. x \<in> set xs \<Longrightarrow> \<exists>y. f x = Inr y) \<Longrightarrow> \<exists>ys. map_result f xs = Inr ys"
  by (induction xs) (auto simp: rbind_eq_Inr_iff)

lemma list_ex_py_eq: "list_ex (py_eq (PStr s)) xs \<longleftrightarrow> PStr s \<in> set xs"
  by (auto simp: list_ex_iff)

lemma check_rows_accepts:
  assumes "\<And>r. r \<in> set rows \<Longrightarrow> row_missing r = []"
    and "\<And>r. r \<in> set rows \<Longrightarrow> \<exists>s\<in>set known. pget_default r ''contract'' PNone = PStr s"
    and "\<And>r. r \<in> set rows \<Longrightarrow> \<exists>s. pget_default r ''case_id'' PNone = PStr s"
    and "distinct (map (\<lambda>r. pget_default r ''case_id'' PNone) rows)"
    and "\<And>r. r \<in> set rows \<Longrightarrow> pget_default r ''case_id'' PNone \<notin> set ids"
  shows "check_rows fr (map PStr known) i rows ids = Inr []"
  using assms
proof (induction rows arbitrary: i ids)
  case (Cons r rows)
  obtain k where k: "k \<in> set known" "pget_default r ''contract'' PNone = PStr k" using Cons.prems(2) [of r] by auto
  obtain s where s: "pget_default r ''case_id'' PNone = PStr s" using Cons.prems(3) [of r] by auto
  have "check_rows fr (map PStr known) (Suc i) rows (PStr s # ids) = Inr []"
  proof (rule Cons.IH)
    fix q assume q: "q \<in> set rows"
    show "row_missing q = []" "\<exists>s\<in>set known. pget_default q ''contract'' PNone = PStr s"
      "\<exists>s. pget_default q ''case_id'' PNone = PStr s"
      using Cons.prems(1-3) [of q] q by simp_all
    have "pget_default q ''case_id'' PNone \<noteq> pget_default r ''case_id'' PNone"
    proof
      assume "pget_default q ''case_id'' PNone = pget_default r ''case_id'' PNone"
      with imageI [OF q, of "\<lambda>r. pget_default r ''case_id'' PNone"]
      have "pget_default r ''case_id'' PNone \<in> (\<lambda>r. pget_default r ''case_id'' PNone) ` set rows" by simp
      then show False using Cons.prems(4) by simp
    qed
    then show "pget_default q ''case_id'' PNone \<notin> set (PStr s # ids)"
      using Cons.prems(5) [of q] q s by simp
  next
    show "distinct (map (\<lambda>r. pget_default r ''case_id'' PNone) rows)" using Cons.prems(4) by simp
  qed
  moreover have "PStr s \<notin> set ids" using Cons.prems(5) [of r] s by simp
  ultimately show ?case
    using Cons.prems(1) [of r] k s by (simp add: Let_def member_of_def list_ex_py_eq)
qed simp

definition without_id :: "pv \<Rightarrow> pv" where
  "without_id c = PDict (filter (\<lambda>(k, _). k \<noteq> ''case_id'') (items_of c))"

text \<open>A generated case, seen from its parts.\<close>

lemma generated_case:
  assumes "lawful (gn_below gn)" and "slot_case gn profile seed ((c, i), family) = Inr r"
    and "py_item c ''id'' = Inr (PStr s)"
  shows "row_missing r = []" and "pget_default r ''contract'' PNone = PStr s"
    and "pget_default r ''case_id'' PNone = PStr (s @ '':'' @ take 16 (gn_value_digest gn (without_id r)))"
    and "pget_default (without_id r) ''contract'' PNone = PStr s"
    and "pget_default (without_id r) ''index'' PNone = PInt (int i)"
    and "py_item r ''family'' = Inr (PStr family)"
proof -
  have g: "generic_case (gn_seeded gn) (gn_below gn) (gn_fr gn) (gn_fp gn) (gn_value_digest gn) c
      (case_seed gn seed (PStr s) i profile) family (int i) profile = Inr r"
    using assms(2,3) by (simp add: slot_case_def)
  then show "row_missing r = []" using generated_case_fields [OF assms(1)] by blast
  obtain d body cid where b: "case_body (gn_fp gn) c d (case_seed gn seed (PStr s) i profile) family (int i) profile = Inr body"
    and cid: "py_item c ''id'' = Inr cid"
    and r: "r = PDict (items_of body @
      [(''case_id'', PStr (py_str (gn_fr gn) cid @ '':'' @ take 16 (gn_value_digest gn body)))])"
    using g by (rule generic_case_Inr)
  note f = case_body_fields [OF b]
  have "\<forall>(k, v)\<in>set (items_of body). k \<noteq> ''case_id''"
  proof (rule ballI, unfold split_beta)
    fix kv assume "kv \<in> set (items_of body)"
    then have "fst kv \<in> set (map fst (items_of body))" by simp
    then show "fst kv \<noteq> ''case_id''" unfolding f(1) by auto
  qed
  then have "filter (\<lambda>(k, _). k \<noteq> ''case_id'') (items_of body) = items_of body"
    by (auto simp: filter_id_conv)
  then have w: "without_id r = body" using f(2) by (simp add: without_id_def r)
  have "''contract'' \<in> set (map fst (items_of body))" unfolding f(1) by simp
  then obtain v where v: "map_of (items_of body) ''contract'' = Some v"
    by (metis image_set map_of_eq_None_iff not_None_eq)
  then have "map_of (items_of body) ''contract'' = Some (PStr s)" using f(3) assms(3) by simp
  then show "pget_default r ''contract'' PNone = PStr s" "pget_default (without_id r) ''contract'' PNone = PStr s"
    unfolding w by (simp_all add: r pget_default_def pget_def map_add_def)
  show "pget_default (without_id r) ''index'' PNone = PInt (int i)"
    using f(4) by (simp add: w pget_default_def pget_def)
  have "''case_id'' \<notin> set (map fst (items_of body))" unfolding f(1) by simp
  then have "map_of (items_of body) ''case_id'' = None" by (simp add: map_of_eq_None_iff)
  moreover have "cid = PStr s" using cid assms(3) by simp
  ultimately show "pget_default r ''case_id'' PNone = PStr (s @ '':'' @ take 16 (gn_value_digest gn (without_id r)))"
    unfolding w by (simp add: r pget_default_def pget_def map_add_def)
  show "py_item r ''family'' = Inr (PStr family)"
    using f(5) by (simp add: r map_add_def)
qed

lemma distinct_of_map: "distinct (map f xs) \<Longrightarrow> distinct xs"
  by (simp add: distinct_map)

lemma length_slots: "length (slots items n) = length items * nat n"
  by (simp add: slots_def length_concat comp_def sum_list_triv)

lemma set_slots: "(c, i) \<in> set (slots items n) \<longleftrightarrow> c \<in> set items \<and> i < nat n"
  by (force simp: slots_def)

lemma distinct_slots:
  "distinct (map f items) \<Longrightarrow> distinct (map (\<lambda>(c, i). (f c, i)) (slots items n))"
proof (induction items)
  case (Cons c items)
  have "slots (c # items) n = map (\<lambda>i. (c, i)) [0..<nat n] @ slots items n" by (simp add: slots_def)
  moreover have "f c \<notin> fst ` (\<lambda>(c, i). (f c, i)) ` set (slots items n)"
    using Cons.prems by (auto simp: slots_def)
  ultimately show ?case using Cons by (auto simp: distinct_map inj_on_def comp_def set_slots)
qed (simp add: slots_def)

lemma generated_rows:
  assumes "lawful (gn_below gn)" and "docs \<noteq> []"
    and "generate_cases gn profile seed n (Some docs) loaded = Inr rows"
  obtains zs where "map fst zs = slots (sort_key (\<lambda>c. str_field c ''id'') docs) n"
    and "list_all2 (\<lambda>z r. slot_case gn profile seed z = Inr r) zs rows"
proof
  let ?items = "sort_key (\<lambda>c. str_field c ''id'') docs"
  let ?schedule = "family_schedule (gn_seeded gn) (gn_below gn) (int (length ?items) * n) profile seed"
  have "nat (int (length ?items) * n) = length ?items * nat n"
    by (cases "0 \<le> n") (simp_all add: nat_mult_distrib mult_le_0_iff)
  then show "map fst (zip (slots ?items n) ?schedule) = slots ?items n"
    by (simp add: length_schedule [OF assms(1)] length_slots)
  show "list_all2 (\<lambda>z r. slot_case gn profile seed z = Inr r) (zip (slots ?items n) ?schedule) rows"
    using assms(2,3) by (auto simp: generate_cases_def rbind_eq_Inr_iff map_result_iff Let_def)
qed

definition hash_prefix :: "'g generation \<Rightarrow> pv \<Rightarrow> string" where
  "hash_prefix gn r = take 16 (gn_value_digest gn (without_id r))"

lemma generated_slots:
  assumes "lawful (gn_below gn)" and "docs \<noteq> []"
    and "generate_cases gn profile seed n (Some docs) loaded = Inr rows"
    and "list_all (\<lambda>c. \<exists>s. py_item c ''id'' = Inr (PStr s)) docs"
  defines "items \<equiv> sort_key (\<lambda>c. str_field c ''id'') docs"
  shows "length rows = length (slots items n)"
    and "\<And>k. k < length rows \<Longrightarrow> \<exists>c i family. slots items n ! k = (c, i) \<and> c \<in> set docs \<and>
      slot_case gn profile seed ((c, i), family) = Inr (rows ! k) \<and> py_item c ''id'' = Inr (PStr (str_field c ''id''))"
proof -
  obtain zs where zs: "map fst zs = slots items n"
    and rows: "list_all2 (\<lambda>z r. slot_case gn profile seed z = Inr r) zs rows"
    unfolding items_def by (rule generated_rows [OF assms(1-3)])
  have len: "length rows = length zs" using rows by (simp add: list_all2_lengthD)
  then show "length rows = length (slots items n)" using arg_cong [OF zs, of length] by simp
  fix k assume k: "k < length rows"
  obtain c i family where z: "zs ! k = ((c, i), family)" by (metis surj_pair)
  have s: "slots items n ! k = (c, i)" using arg_cong [OF zs, of "\<lambda>xs. xs ! k"] z k len by simp
  have "slots items n ! k \<in> set (slots items n)" using k len zs by (metis length_map nth_mem)
  then have c: "c \<in> set docs" unfolding s set_slots by (simp add: items_def)
  then obtain t where "py_item c ''id'' = Inr (PStr t)" using assms(4) by (auto simp: list_all_iff)
  then have "py_item c ''id'' = Inr (PStr (str_field c ''id''))"
    by (cases c) (auto simp: str_field_def pget_default_def pget_def split: option.splits)
  moreover have "slot_case gn profile seed ((c, i), family) = Inr (rows ! k)"
    using list_all2_nthD2 [OF rows k] unfolding z .
  ultimately show "\<exists>c i family. slots items n ! k = (c, i) \<and> c \<in> set docs \<and>
      slot_case gn profile seed ((c, i), family) = Inr (rows ! k) \<and> py_item c ''id'' = Inr (PStr (str_field c ''id''))"
    using s c by blast
qed

definition case_key :: "pv \<Rightarrow> pv \<times> pv" where
  "case_key b = (pget_default b ''contract'' PNone, pget_default b ''index'' PNone)"

lemma generated_keys:
  assumes "lawful (gn_below gn)" and "docs \<noteq> []"
    and "generate_cases gn profile seed n (Some docs) loaded = Inr rows"
    and "list_all (\<lambda>c. \<exists>s. py_item c ''id'' = Inr (PStr s)) docs"
  shows "map (\<lambda>r. case_key (without_id r)) rows = map (\<lambda>(c, i). (PStr (str_field c ''id''), PInt (int i)))
     (slots (sort_key (\<lambda>c. str_field c ''id'') docs) n)"
proof (rule nth_equalityI)
  note slot = generated_slots [OF assms]
  show lens: "length (map (\<lambda>r. case_key (without_id r)) rows) = length (map (\<lambda>(c, i). (PStr (str_field c ''id''), PInt (int i)))
     (slots (sort_key (\<lambda>c. str_field c ''id'') docs) n))"
    using slot(1) by simp
  fix k assume "k < length (map (\<lambda>r. case_key (without_id r)) rows)"
  then have k: "k < length rows" by simp
  from slot(2) [OF this] obtain c j family where s: "slots (sort_key (\<lambda>c. str_field c ''id'') docs) n ! k = (c, j)"
    "slot_case gn profile seed ((c, j), family) = Inr (rows ! k)"
    "py_item c ''id'' = Inr (PStr (str_field c ''id''))" by blast
  show "map (\<lambda>r. case_key (without_id r)) rows ! k = map (\<lambda>(c, i). (PStr (str_field c ''id''), PInt (int i)))
     (slots (sort_key (\<lambda>c. str_field c ''id'') docs) n) ! k"
    using generated_case(4,5) [OF assms(1) s(2,3)] s(1) k lens by (simp add: case_key_def)
qed

lemma generated_dataset:
  assumes "lawful (gn_below gn)" and "docs \<noteq> []"
    and "generate_cases gn profile seed n (Some docs) loaded = Inr rows"
    and "list_all (\<lambda>c. \<exists>s. py_item c ''id'' = Inr (PStr s)) docs" and "distinct (map (\<lambda>c. str_field c ''id'') docs)"
    and "\<And>v. length (gn_value_digest gn v) = 64"
    and "inj_on (\<lambda>b. take 16 (gn_value_digest gn b)) (without_id ` set rows)"
  shows "length rows = length docs * nat n"
    and "check_rows fr (map PStr (map (\<lambda>c. str_field c ''id'') docs)) i rows [] = Inr []"
    and "\<exists>families. map_result (\<lambda>c. rbind (py_item c ''family'') (\<lambda>f. Inr (str_of f))) rows = Inr families"
proof -
  let ?items = "sort_key (\<lambda>c. str_field c ''id'') docs"
  note slot = generated_slots [OF assms(1-4)]
  show "length rows = length docs * nat n" using slot(1) by (simp add: length_slots)
  note facts = generated_case [OF assms(1)]
  have each: "row_missing r = []" "\<exists>s\<in>set (map (\<lambda>c. str_field c ''id'') docs). pget_default r ''contract'' PNone = PStr s"
    "\<exists>s. pget_default r ''case_id'' PNone = PStr (s @ '':'' @ hash_prefix gn r)"
    "\<exists>f. py_item r ''family'' = Inr (PStr f)"
    if r: "r \<in> set rows" for r
  proof -
    obtain k where k: "k < length rows" "r = rows ! k" using r by (auto simp: in_set_conv_nth)
    obtain c j family where c: "c \<in> set docs" "slot_case gn profile seed ((c, j), family) = Inr r"
      "py_item c ''id'' = Inr (PStr (str_field c ''id''))"
      using slot(2) [OF k(1)] k(2) by auto
    note f = facts [OF c(2,3)]
    show "row_missing r = []" by (rule f(1))
    show "\<exists>s\<in>set (map (\<lambda>c. str_field c ''id'') docs). pget_default r ''contract'' PNone = PStr s"
      using f(2) c(1) by auto
    show "\<exists>s. pget_default r ''case_id'' PNone = PStr (s @ '':'' @ hash_prefix gn r)"
      using f(3) by (auto simp: hash_prefix_def)
    show "\<exists>f. py_item r ''family'' = Inr (PStr f)" using f(6) by blast
  qed
  let ?slots = "map (\<lambda>(c, i). (str_field c ''id'', i)) (slots ?items n)"
  have "map (\<lambda>r. case_key (without_id r)) rows = map (\<lambda>(s, i). (PStr s, PInt (int i))) ?slots"
    using generated_keys [OF assms(1-4)] by (simp add: comp_def split_beta)
  moreover have "distinct (map (\<lambda>(s, i). (PStr s, PInt (int i))) ?slots)"
    using distinct_slots [of "\<lambda>c. str_field c ''id''" ?items n] assms(5)
    by (subst distinct_map) (auto simp: inj_on_def distinct_map)
  ultimately have "distinct (map case_key (map without_id rows))" by (simp add: comp_def)
  then have "distinct (map without_id rows)" by (rule distinct_of_map)
  then have "distinct (map (\<lambda>b. take 16 (gn_value_digest gn b)) (map without_id rows))"
    using assms(7) by (subst distinct_map) simp
  then have prefixes: "distinct (map (hash_prefix gn) rows)" by (simp add: hash_prefix_def [abs_def] comp_def)
  let ?tail = "\<lambda>v. drop (length (str_of v) - 16) (str_of v)"
  have "?tail (pget_default r ''case_id'' PNone) = hash_prefix gn r" if "r \<in> set rows" for r
  proof -
    have "length (hash_prefix gn r) = 16" by (simp add: hash_prefix_def assms(6))
    then show ?thesis using each(3) [OF that] by auto
  qed
  then have "map ?tail (map (\<lambda>r. pget_default r ''case_id'' PNone) rows) = map (hash_prefix gn) rows" by simp
  with prefixes have "distinct (map ?tail (map (\<lambda>r. pget_default r ''case_id'' PNone) rows))" by metis
  then have "distinct (map (\<lambda>r. pget_default r ''case_id'' PNone) rows)" by (rule distinct_of_map)
  then show "check_rows fr (map PStr (map (\<lambda>c. str_field c ''id'') docs)) i rows [] = Inr []"
  proof (rule check_rows_accepts [rotated 3])
    fix r assume r: "r \<in> set rows"
    show "row_missing r = []" by (rule each(1) [OF r])
    show "\<exists>s\<in>set (map (\<lambda>c. str_field c ''id'') docs). pget_default r ''contract'' PNone = PStr s"
      by (rule each(2) [OF r])
    show "\<exists>s. pget_default r ''case_id'' PNone = PStr s" using each(3) [OF r] by blast
  qed simp
  show "\<exists>families. map_result (\<lambda>c. rbind (py_item c ''family'') (\<lambda>f. Inr (str_of f))) rows = Inr families"
  proof (rule map_result_exists)
    fix c assume "c \<in> set rows"
    then obtain f where "py_item c ''family'' = Inr (PStr f)" using each(4) by blast
    then show "\<exists>y. rbind (py_item c ''family'') (\<lambda>f. Inr (str_of f)) = Inr y" by simp
  qed
qed

text \<open>
  C37. Building and checking agree: a dataset built from Contracts with unique string ids passes
  the dataset validator, and with the manifest written beside it the gate of the evaluator, as
  long as no two of its cases collide in the sixteen digits of the hash that their ids keep.
\<close>

theorem built_dataset_accepted:
  assumes "lawful (gn_below gn)" and "docs \<noteq> []"
    and "build_dataset gn profile seed n (Inr (True, docs)) loaded corpus_sha256 file_sha256 path files = (Inr m, files')"
    and "ds_rows files' = Some rows"
    and "list_all (\<lambda>c. \<exists>s. py_item c ''id'' = Inr (PStr s)) docs" and "distinct (map (\<lambda>c. str_field c ''id'') docs)"
    and "\<And>v. length (gn_value_digest gn v) = 64"
    and "inj_on (\<lambda>b. take 16 (gn_value_digest gn b)) (without_id ` set rows)"
  shows "validate_dataset fr file_sha256 (Inr (map (\<lambda>c. str_field c ''id'') docs)) where_is True files' =
      Inr \<lparr>dv_valid = True, dv_case_count = Some (length docs * nat n), dv_issues = []\<rparr> \<and>
    verify_public_dataset fr fi \<lparr>ws_files = yaml_files, ws_cases = rows, ws_manifest = ds_manifest files',
      ws_dataset_sha256 = sha256, ws_dataset_file_sha256 = file_sha256 rows, ws_contract_sha256 = corpus_sha256\<rparr> = Inr ()"
proof -
  obtain families where gen: "generate_cases gn profile seed n (Some docs) loaded = Inr rows"
    and files': "ds_manifest files' = Some (dataset_manifest gn profile seed n (length docs) corpus_sha256
      file_sha256 path families rows)"
    using assms(3,4) by (auto simp: build_dataset_def Let_def rbind_def split: sum.splits)
  note g = generated_dataset [OF assms(1,2) gen assms(5-8)]
  have "manifest_issues file_sha256 (the (ds_manifest files')) rows = Inr []"
    by (simp add: manifest_issues_def files' dataset_manifest_def p_nat_def)
  then have "validate_dataset fr file_sha256 (Inr (map (\<lambda>c. str_field c ''id'') docs)) where_is True files' =
      Inr \<lparr>dv_valid = True, dv_case_count = Some (length docs * nat n), dv_issues = []\<rparr>"
    using g(1,2) assms(4) by (simp add: validate_dataset_def files')
  moreover have "py_int fi (p_nat (length rows)) = Inr (int (length rows))" by (simp add: p_nat_def)
  then have "verify_public_dataset fr fi \<lparr>ws_files = yaml_files, ws_cases = rows, ws_manifest = ds_manifest files',
      ws_dataset_sha256 = sha256, ws_dataset_file_sha256 = file_sha256 rows, ws_contract_sha256 = corpus_sha256\<rparr> = Inr ()"
    unfolding verified_dataset_iff by (simp add: files' dataset_manifest_def)
  ultimately show ?thesis by blast
qed

section \<open>A generation that runs\<close>

definition example_generation :: "nat generation" where
  "example_generation =
     \<lparr>gn_seeded = (\<lambda>i. nat (i mod 10)), gn_below = (\<lambda>n g. (g mod n, g + 1)),
      gn_fr = (\<lambda>_. ''1.0''), gn_fp = (\<lambda>_. None),
      gn_value_digest = (\<lambda>v. (case pget_default v ''index'' PNone of PInt i \<Rightarrow> [char_of (nat (i + 48))] | _ \<Rightarrow> ''x'') @
        replicate 63 (CHR ''0'')),
      gn_text_digest = (\<lambda>s. [length s])\<rparr>"

definition example_contract_of :: "string \<Rightarrow> pv" where
  "example_contract_of i =
     PDict [(''id'', PStr i), (''domain'', PStr ''process''), (''level'', PStr ''boot''),
            (''operation'', PStr ''fork''), (''generator'', PDict [(''implementation'', PStr ''generic'')]),
            (''fault_injection'', PList [PStr ''enospc'', PStr ''none''])]"

definition example_contract_doc :: pv where
  "example_contract_doc = example_contract_of ''a''"

definition example_build :: "pv result \<times> dataset_files" where
  "example_build =
     build_dataset example_generation ''public'' 1 2 (Inr (True, [example_contract_doc])) (Inr []) ''c''
       (\<lambda>_. ''f'') ''dataset/public/v0.1/cases.jsonl'' \<lparr>ds_rows = None, ds_manifest = None\<rparr>"

definition example_rows :: "pv list" where
  "example_rows = the (ds_rows (snd example_build))"

lemma example_lawful: "lawful (gn_below example_generation)"
  by (simp add: lawful_def example_generation_def)

lemma example_contract_id:
  "py_item (example_contract_of i) ''id'' = Inr (PStr i)" "str_field (example_contract_of i) ''id'' = i"
  "py_item example_contract_doc ''id'' = Inr (PStr ''a'')" "str_field example_contract_doc ''id'' = ''a''"
  by (simp_all add: example_contract_doc_def example_contract_of_def str_field_def pget_default_def pget_def)

lemma example_slot:
  assumes "family \<in> set CASE_FAMILIES"
  shows "\<exists>r. slot_case example_generation profile seed ((example_contract_of c, i), family) = Inr r"
proof -
  have "\<exists>v. map_of FAMILY_DIFFICULTY family = Some v"
    using assms by (auto simp: CASE_FAMILIES_def FAMILY_DIFFICULTY_def)
  moreover have "\<exists>d. draw below (example_contract_of c) g = Inr d" for below :: "nat below" and g
    by (simp add: draw_def example_contract_of_def split: prod.split)
  then have "\<exists>d. draw (gn_below example_generation) (example_contract_of c) g = Inr d" for g by blast
  ultimately show ?thesis
    by (simp add: slot_case_def generic_case_def case_body_def example_contract_id rbind_eq_Inr_iff)
       (auto simp: example_contract_of_def)
qed

lemma example_generates:
  obtains r0 r1 where "generate_cases example_generation ''public'' 1 2 (Some [example_contract_doc]) (Inr []) = Inr [r0, r1]"
    "pget_default (without_id r0) ''index'' PNone = PInt 0" "pget_default (without_id r1) ''index'' PNone = PInt 1"
proof -
  let ?schedule = "family_schedule (gn_seeded example_generation) (gn_below example_generation) 2 ''public'' 1"
  have "\<exists>rows. map_result (slot_case example_generation ''public'' 1) (zip (slots [example_contract_doc] 2) ?schedule) = Inr rows"
  proof (rule map_result_exists)
    fix z assume z: "z \<in> set (zip (slots [example_contract_doc] 2) ?schedule)"
    obtain c i family where eq: "z = ((c, i), family)" by (metis surj_pair)
    from z have "(c, i) \<in> set (slots [example_contract_doc] 2)" "family \<in> set ?schedule"
      unfolding eq by (auto dest: set_zip_leftD set_zip_rightD)
    then have "z = ((example_contract_doc, i), family)" "family \<in> set ?schedule"
      by (simp_all add: set_slots eq)
    then show "\<exists>r. slot_case example_generation ''public'' 1 z = Inr r"
      using schedule_families [OF example_lawful] example_slot unfolding example_contract_doc_def by blast
  qed
  then obtain rows where rows: "generate_cases example_generation ''public'' 1 2 (Some [example_contract_doc]) (Inr []) = Inr rows"
    by (auto simp: generate_cases_def example_contract_id Let_def)
  have "list_all (\<lambda>c. \<exists>s. py_item c ''id'' = Inr (PStr s)) [example_contract_doc]" by (simp add: example_contract_id)
  from generated_keys [OF example_lawful _ rows this]
  have "map (\<lambda>r. case_key (without_id r)) rows = [(PStr ''a'', PInt 0), (PStr ''a'', PInt 1)]"
    by (simp add: slots_def example_contract_id upt_rec)
  then obtain r0 r1 where "rows = [r0, r1]" "case_key (without_id r0) = (PStr ''a'', PInt 0)"
      "case_key (without_id r1) = (PStr ''a'', PInt 1)"
    by (auto simp: map_eq_Cons_conv)
  with rows show thesis by (intro that [of r0 r1]) (simp_all add: case_key_def)
qed

lemma example_build_succeeds:
  obtains m files rows where "example_build = (Inr m, files)" "ds_rows files = Some rows"
    "inj_on (\<lambda>b. take 16 (gn_value_digest example_generation b)) (without_id ` set rows)"
proof (rule example_generates)
  fix r0 r1
  assume g: "generate_cases example_generation ''public'' 1 2 (Some [example_contract_doc]) (Inr []) = Inr [r0, r1]"
    and i: "pget_default (without_id r0) ''index'' PNone = PInt 0" "pget_default (without_id r1) ''index'' PNone = PInt 1"
  have inj: "inj_on (\<lambda>b. take 16 (gn_value_digest example_generation b)) (without_id ` set [r0, r1])"
    by (auto simp: inj_on_def example_generation_def i)
  have ids: "list_all (\<lambda>c. \<exists>s. py_item c ''id'' = Inr (PStr s)) [example_contract_doc]"
    "distinct (map (\<lambda>c. str_field c ''id'') [example_contract_doc])" by (simp_all add: example_contract_id)
  have digits: "length (gn_value_digest example_generation v) = 64" for v
    by (simp add: example_generation_def split: pv.split)
  from generated_dataset(3) [OF example_lawful _ g ids digits inj]
  obtain families where "map_result (\<lambda>c. rbind (py_item c ''family'') (\<lambda>f. Inr (str_of f))) [r0, r1] = Inr families"
    by blast
  then show thesis
    using that inj by (auto simp: example_build_def build_dataset_def g Let_def simp del: map_result.simps)
qed

theorem built_dataset_accepted_witness:
  "\<exists>m files. example_build = (Inr m, files) \<and>
     validate_dataset (\<lambda>_. []) (\<lambda>_. ''f'') (Inr [''a'']) [] True files =
       Inr \<lparr>dv_valid = True, dv_case_count = Some 2, dv_issues = []\<rparr>"
proof (rule example_build_succeeds)
  fix m files rows
  assume build: "example_build = (Inr m, files)" and rows: "ds_rows files = Some rows"
    and inj: "inj_on (\<lambda>b. take 16 (gn_value_digest example_generation b)) (without_id ` set rows)"
  have digits: "length (gn_value_digest example_generation v) = 64" for v
    by (simp add: example_generation_def split: pv.split)
  have ids: "list_all (\<lambda>c. \<exists>s. py_item c ''id'' = Inr (PStr s)) [example_contract_doc]"
    "distinct (map (\<lambda>c. str_field c ''id'') [example_contract_doc])" by (simp_all add: example_contract_id)
  have "validate_dataset (\<lambda>_. []) (\<lambda>_. ''f'') (Inr [''a'']) [] True files =
       Inr \<lparr>dv_valid = True, dv_case_count = Some 2, dv_issues = []\<rparr>"
    using built_dataset_accepted [OF example_lawful _ build [unfolded example_build_def] rows ids digits inj,
        where fr = "\<lambda>_. []" and where_is = "[]"] by (simp add: example_contract_id)
  with build show ?thesis by blast
qed

theorem schedule_family_counts_witness:
  "count (mset (family_schedule (gn_seeded example_generation) (gn_below example_generation) 13 ''hidden'' 7)) ''boundary'' = 2 \<and>
   mset (family_schedule (gn_seeded example_generation) (gn_below example_generation) 2660 ''public'' 1) =
      mset (concat (map (\<lambda>(f, k). replicate k f) PUBLIC_FAMILY_COUNTS))"
proof -
  let ?s = "gn_seeded example_generation" and ?b = "gn_below example_generation"
  have "count (mset (family_schedule ?s ?b 13 ''hidden'' 7)) (CASE_FAMILIES ! 1) = (nat 13 + 10 - 1) div 11"
    using schedule_family_counts [OF example_lawful, where profile = "''hidden''" and n = 13 and seed = 7 and seeded = ?s]
    by simp
  moreover have "CASE_FAMILIES ! 1 = ''boundary''" by (simp add: CASE_FAMILIES_def)
  ultimately show ?thesis using schedule_family_counts [OF example_lawful, where seed = 1 and seeded = ?s] by simp
qed

theorem generated_case_bounds_witness:
  "\<exists>c. generic_case (gn_seeded example_generation) (gn_below example_generation) (\<lambda>_. []) (\<lambda>_. None)
      (gn_value_digest example_generation) example_contract_doc 5 ''primitive'' 4 ''public'' = Inr c \<and> row_missing c = []"
proof -
  have "case generic_case (gn_seeded example_generation) (gn_below example_generation) (\<lambda>_. []) (\<lambda>_. None)
      (gn_value_digest example_generation) example_contract_doc 5 ''primitive'' 4 ''public'' of Inr c \<Rightarrow> True | _ \<Rightarrow> False"
    by code_simp
  then obtain c where c: "generic_case (gn_seeded example_generation) (gn_below example_generation) (\<lambda>_. []) (\<lambda>_. None)
      (gn_value_digest example_generation) example_contract_doc 5 ''primitive'' 4 ''public'' = Inr c"
    by (auto split: sum.splits)
  with generated_case_bounds [OF example_lawful c] show ?thesis by blast
qed

end
