(* ===== verification/QemuFacts.thy ===== *)
theory QemuFacts
  imports Qemu
begin

text \<open>
  What the controller guarantees: the command line gives QEMU exactly the intended devices, the
  sentinel is found however the bytes are cut into chunks, and a machine that was booted for a
  check is gone afterwards on every path.
\<close>

section \<open>Reading the command line back\<close>

text \<open>How QEMU reads its arguments: three of the options used are switches, the others take a value.\<close>

definition SWITCHES :: "string list" where
  "SWITCHES = [''-nodefaults'', ''-no-reboot'', ''-snapshot'']"

fun read_options :: "string list \<Rightarrow> (string \<times> string option) list" where
  "read_options [] = []"
| "read_options [f] = [(f, None)]"
| "read_options (f # v # rest) =
     (if f \<in> set SWITCHES then (f, None) # read_options (v # rest) else (f, Some v) # read_options rest)"

definition values_of :: "string \<Rightarrow> (string \<times> string option) list \<Rightarrow> string list" where
  "values_of f opts = map (\<lambda>(_, v). the v) (filter (\<lambda>(g, v). g = f \<and> v \<noteq> None) opts)"

lemma values_of_append [simp]: "values_of f (xs @ ys) = values_of f xs @ values_of f ys"
  by (simp add: values_of_def)

lemma values_of_simps [simp]:
  "values_of f [] = []"
  "values_of f ((g, None) # opts) = values_of f opts"
  "values_of f ((g, Some v) # opts) = (if g = f then v # values_of f opts else values_of f opts)"
  by (simp_all add: values_of_def)

lemma read_switch: "f \<in> set SWITCHES \<Longrightarrow> read_options (f # rest) = (f, None) # read_options rest"
  by (cases rest) simp_all

lemma read_snapshot: "read_options (''-snapshot'' # rest) = (''-snapshot'', None) # read_options rest"
  by (rule read_switch) (simp add: SWITCHES_def)

lemma read_value: "f \<notin> set SWITCHES \<Longrightarrow> read_options (f # v # rest) = (f, Some v) # read_options rest"
  by simp

lemma read_opt_arg:
  "f \<notin> set SWITCHES \<Longrightarrow>
     read_options (opt_arg f v @ rest) = (case v of None \<Rightarrow> [] | Some x \<Rightarrow> [(f, Some x)]) @ read_options rest"
  by (simp add: opt_arg_def split: option.split)

lemma read_drives:
  "read_options (concat (map (\<lambda>(i, m). [''-drive'', cdrom i m]) ims) @ rest) =
     map (\<lambda>(i, m). (''-drive'', Some (cdrom i m))) ims @ read_options rest"
  by (induction ims) (auto simp: SWITCHES_def)

lemma values_drives: "values_of f (map (\<lambda>(i, m). (''-drive'', Some (cdrom i m))) ims) =
    (if f = ''-drive'' then map (\<lambda>(i, m). cdrom i m) ims else [])"
  by (induction ims) auto

definition base_options :: "qemu_profile \<Rightarrow> launch \<Rightarrow> string \<Rightarrow> (string \<times> string option) list" where
  "base_options p l code = read_options (base_arguments p l code)"

lemma read_base: "read_options (base_arguments p l code @ rest) = base_options p l code @ read_options rest"
  by (simp add: base_options_def base_arguments_def read_switch SWITCHES_def)

lemma values_base:
  "values_of ''-drive'' (base_options p l code) =
     [''if=pflash,format=raw,readonly=on,file='' @ code, ''if=pflash,format=raw,file='' @ la_vars l,
      ''file='' @ la_image l @ '',if='' @ qp_disk_interface p @ '',format=qcow2,cache=writeback,discard=unmap'']"
  "values_of ''-kernel'' (base_options p l code) = []" "values_of ''-initrd'' (base_options p l code) = []"
  "values_of ''-append'' (base_options p l code) = []"
  "(''-snapshot'', None) \<notin> set (base_options p l code)"
  by (simp_all add: base_options_def base_arguments_def read_switch SWITCHES_def)

definition opt_list :: "'a option \<Rightarrow> 'a list" where
  "opt_list x = (case x of None \<Rightarrow> [] | Some y \<Rightarrow> [y])"


section \<open>The sentinel\<close>

text \<open>What the machine sends before its process exits or the connection breaks.\<close>

fun stream :: "serial_tick list \<Rightarrow> string" where
  "stream [] = []"
| "stream (Received chunk # ticks) = chunk @ stream ticks"
| "stream (Silent # ticks) = stream ticks"
| "stream (_ # ticks) = []"

lemma sublist_append_left: "sublist s xs \<Longrightarrow> sublist s (xs @ ys)"
  by (metis sublist_append sublist_def append.assoc)

lemma serial_loop_stream:
  assumes "mc_alive s" and "\<not> sublist sentinel buf" and "serial_loop sentinel ticks buf s = (failure, out, t)"
  shows "sublist sentinel out \<longleftrightarrow> sublist sentinel (buf @ stream ticks)"
    and "prefix out (buf @ stream ticks)" and "sublist sentinel out \<Longrightarrow> failure = None \<and> t = s"
    and "t = s \<or> t = s\<lparr>mc_alive := False\<rparr>"
proof -
  have "(sublist sentinel out \<longleftrightarrow> sublist sentinel (buf @ stream ticks)) \<and> prefix out (buf @ stream ticks) \<and>
      (sublist sentinel out \<longrightarrow> failure = None \<and> t = s) \<and> (t = s \<or> t = s\<lparr>mc_alive := False\<rparr>)"
    using assms
  proof (induction sentinel ticks buf s rule: serial_loop.induct)
    case (2 sentinel tick ticks buf s)
    show ?case
    proof (cases tick)
      case (Received chunk)
      show ?thesis
      proof (cases "chunk \<noteq> [] \<and> sublist sentinel (buf @ chunk)")
        case True
        then have "out = buf @ chunk" "failure = None" "t = s" using "2.prems" Received by auto
        then show ?thesis using True Received sublist_append_left [of sentinel "buf @ chunk" "stream ticks"] by simp
      next
        case False
        then show ?thesis using 2 Received by (cases "chunk = []") simp_all
      qed
    qed (use 2 in auto)
  qed auto
  then show "sublist sentinel out \<longleftrightarrow> sublist sentinel (buf @ stream ticks)" "prefix out (buf @ stream ticks)"
    "sublist sentinel out \<Longrightarrow> failure = None \<and> t = s" "t = s \<or> t = s\<lparr>mc_alive := False\<rparr>" by auto
qed

lemma connect_Inr: "connect_unix host path e ticks s = (Inr u, t) \<Longrightarrow> t = s \<and> mc_alive s"
  by (induction host path e ticks s rule: connect_unix.induct)
     (auto simp: Let_def split: if_splits connect_tick.splits)

lemma connect_state: "connect_unix host path e ticks s = (r, t) \<Longrightarrow> t = s \<or> t = s\<lparr>mc_alive := False\<rparr>"
  by (induction host path e ticks s rule: connect_unix.induct)
     (auto simp: Let_def split: if_splits connect_tick.splits)

text \<open>
  Once connected, the wait for the serial console succeeds exactly when the sentinel occurs
  in the byte stream before the process exits or the connection breaks, however the stream is cut
  into chunks; it then returns the beginning of the stream that holds it, which is also what the
  log file has, and the machine is left running.
\<close>

theorem sentinel_found_in_stream:
  assumes "connect_unix host (qr_work_dir run @ ''/serial.socket'') ''None'' connecting s = (Inr (), s)"
    and "sentinel \<noteq> []"
  shows "((\<exists>buf t. wait_for_serial fr host run sentinel timeout log_name connecting ticks s = (Inr buf, t)) \<longleftrightarrow>
      sublist sentinel (stream ticks)) \<and>
    (\<forall>buf t. wait_for_serial fr host run sentinel timeout log_name connecting ticks s = (Inr buf, t) \<longrightarrow>
      prefix buf (stream ticks) \<and> sublist sentinel buf \<and> t = s\<lparr>mc_serial_log := Some buf\<rparr>)"
proof -
  obtain failure out t where l: "serial_loop sentinel ticks [] s = (failure, out, t)" by (metis surj_pair)
  have none: "\<not> sublist sentinel []" using assms(2) by simp
  have alive: "mc_alive s" using connect_Inr [OF assms(1)] by simp
  note facts = serial_loop_stream [OF alive none l, simplified]
  have fail: "eseq (stop host) (eraise e) u \<noteq> (Inr buf, v)" for e u v and buf :: string
    by (auto simp: eseq_eq split: prod.splits sum.splits)
  have w: "wait_for_serial fr host run sentinel timeout log_name connecting ticks s =
      (case failure of Some e \<Rightarrow> (Inl e, t\<lparr>mc_serial_log := Some out\<rparr>)
       | None \<Rightarrow> if sublist sentinel out then (Inr out, t\<lparr>mc_serial_log := Some out\<rparr>)
                else eseq (stop host) (eraise (unobserved fr sentinel timeout (qr_work_dir run @ ''/'' @ log_name)))
                  (t\<lparr>mc_serial_log := Some out\<rparr>))"
    by (simp add: wait_for_serial_def eseq_eq assms(1) l Let_def)
  show ?thesis
    using facts(1-3) fail unfolding w by (cases "sublist sentinel out") (auto split: option.splits)
qed

section \<open>Stopping\<close>

definition machine_gone :: "machine \<Rightarrow> bool" where
  "machine_gone s \<longleftrightarrow> \<not> mc_alive s \<and> \<not> mc_stdout_open s \<and> \<not> mc_stderr_open s"

lemma close_logs_simps [simp]:
  "mc_alive (close_logs s) = mc_alive s" "\<not> mc_stdout_open (close_logs s)" "\<not> mc_stderr_open (close_logs s)"
  "mc_serial_log (close_logs s) = mc_serial_log s" "mc_sent (close_logs s) = mc_sent s"
  by (simp_all add: close_logs_def)

lemma stop_obeyed:
  "ho_obeys_kill host \<Longrightarrow> stop host s = (Inr (), close_logs (s\<lparr>mc_alive := False\<rparr>))"
  by (cases s) (simp add: stop_def eseq_eq kill_process_def close_logs_def)

lemma stop_Inr: "stop host s = (Inr u, t) \<Longrightarrow> machine_gone t"
  by (auto simp: stop_def eseq_eq kill_process_def machine_gone_def split: if_splits)

lemma stop_gone: "machine_gone s \<Longrightarrow> stop host s = (Inr (), s)"
  by (cases s) (simp add: stop_def eseq_eq machine_gone_def close_logs_def)

lemma power_cut_Inr: "power_cut host s = (Inr u, t) \<Longrightarrow> machine_gone t"
  by (auto simp: power_cut_def eseq_eq kill_process_def machine_gone_def split: if_splits)

lemma start_Inl: "start fr host p i d l s = (Inl e, t) \<Longrightarrow> machine_gone s \<Longrightarrow> machine_gone t"
  by (auto simp: start_def machine_gone_def open_logs_def Let_def split: if_splits sum.splits option.splits)

lemma wait_Inr:
  assumes "wait_for_serial fr host run sentinel timeout log_name connecting ticks s = (Inr buf, t)"
  shows "sublist sentinel buf \<and> mc_serial_log t = Some buf"
  using assms
  by (auto simp: wait_for_serial_def eseq_eq Let_def split: prod.splits sum.splits option.splits if_splits)


text \<open>
  A machine that was stopped no longer says why it cannot be reached: every later request to
  the guest agent or to the monitor raises the error of flushing a closed log file, since the log
  handles are closed before the process is found to have exited.
\<close>

theorem stopped_machine_hides_reason:
  assumes "stop host s = (Inr (), t) \<or> power_cut host s = (Inr (), t)" and "connecting \<noteq> []"
  shows "agent_case encode decode fr host run c connecting ticks t = (Inl flush_closed, t) \<and>
    qmp encode fr host run command arguments connecting replies t = (Inl flush_closed, t)"
proof -
  have "machine_gone t" using assms(1) stop_Inr power_cut_Inr by blast
  then have "connect_unix host path e connecting t = (Inl flush_closed, t)" for path e
    using assms(2) by (cases connecting; cases t) (simp_all add: machine_gone_def Let_def)
  then show ?thesis by (simp add: agent_case_def qmp_def eseq_eq)
qed

section \<open>The answer of the guest agent\<close>

definition whole_lines :: "string \<Rightarrow> bool" where
  "whole_lines chunk \<longleftrightarrow> chunk \<noteq> [] \<and> last chunk = CHR 0x0A"

lemma split_lines_append:
  "split_lines f acc (xs @ [CHR 0x0A] @ ys) = split_lines f acc (xs @ [CHR 0x0A]) @ split_lines False [] ys"
  by (induction f acc xs rule: split_lines.induct) simp_all

lemma split_lines_whole: "whole_lines xs \<Longrightarrow> split_lines False [] (xs @ ys) = split_lines False [] xs @ split_lines False [] ys"
  using split_lines_append [of False "[]" "butlast xs" ys]
  by (metis append.assoc append_butlast_last_id whole_lines_def)

lemma find_append: "find P (xs @ ys) = (case find P xs of Some x \<Rightarrow> Some x | None \<Rightarrow> find P ys)"
  by (induction xs) simp_all

lemma result_payload_append:
  "whole_lines xs \<or> xs = [] \<Longrightarrow> result_payload (xs @ ys) =
     (case result_payload xs of Some p \<Rightarrow> Some p | None \<Rightarrow> result_payload ys)"
  by (auto simp: result_payload_def split_lines_whole find_append split: option.splits)

lemma agent_loop_whole:
  assumes "list_all whole_lines chunks" and "whole_lines buf \<or> buf = []" and "result_payload buf = None"
  shows "agent_loop decode late (map Received chunks) buf =
    (case result_payload (concat chunks) of Some p \<Rightarrow> decode p | None \<Rightarrow> Inl late)"
  using assms
proof (induction chunks arbitrary: buf)
  case (Cons chunk chunks)
  have c: "whole_lines chunk" "chunk \<noteq> []" using Cons.prems(1) by (auto simp: whole_lines_def)
  have p: "result_payload (buf @ chunk) = result_payload chunk"
    using result_payload_append [OF Cons.prems(2)] Cons.prems(3) by simp
  have w: "whole_lines (buf @ chunk)" using c by (simp add: whole_lines_def)
  have q: "result_payload (chunk @ concat chunks) =
      (case result_payload chunk of Some p \<Rightarrow> Some p | None \<Rightarrow> result_payload (concat chunks))"
    using c by (intro result_payload_append) simp
  show ?case
  proof (cases "result_payload chunk")
    case None
    then show ?thesis using Cons.IH [of "buf @ chunk"] Cons.prems(1) c p q w by simp
  next
    case (Some a)
    then show ?thesis using c p q by simp
  qed
qed (simp add: result_payload_def)

lemma split_lines_no_break:
  "CHR 0x0A \<notin> set xs \<Longrightarrow> CHR 0x0D \<notin> set xs \<Longrightarrow> split_lines f acc xs = (if acc @ xs = [] then [] else [acc @ xs])"
  by (induction xs arbitrary: f acc) auto

text \<open>
  The answer of the guest agent is read from the first result line if the bytes arrive in
  whole lines; but a result line that is cut by a chunk boundary is decoded from the part that
  has arrived, so the same bytes may give another answer or an error.
\<close>

theorem agent_answer_of_lines:
  "(list_all whole_lines chunks \<longrightarrow> agent_loop decode late (map Received chunks) [] =
      (case result_payload (concat chunks) of Some p \<Rightarrow> decode p | None \<Rightarrow> Inl late)) \<and>
   (CHR 0x0A \<notin> set part \<and> CHR 0x0D \<notin> set part \<longrightarrow>
      agent_loop decode late (Received (RESULT_PREFIX @ part) # Received rest # ticks) [] = decode part)"
proof -
  have "CHR 0x0A \<notin> set RESULT_PREFIX" "CHR 0x0D \<notin> set RESULT_PREFIX" by (simp_all add: RESULT_PREFIX_def)
  moreover have "RESULT_PREFIX \<noteq> []" by (simp add: RESULT_PREFIX_def)
  ultimately have "result_payload (RESULT_PREFIX @ part) = Some part"
    if "CHR 0x0A \<notin> set part \<and> CHR 0x0D \<notin> set part"
    using that by (simp add: result_payload_def split_lines_no_break)
  moreover have "result_payload [] = None" by (simp add: result_payload_def)
  ultimately show ?thesis using agent_loop_whole [of chunks "[]"] \<open>RESULT_PREFIX \<noteq> []\<close> by simp
qed

section \<open>A boot that succeeds\<close>

definition example_host :: host where
  "example_host =
     \<lparr>ho_is_file = (\<lambda>p. p \<in> {''ref.qcow2'', ''/usr/share/OVMF/OVMF_CODE.fd'', ''/usr/share/OVMF/OVMF_VARS.fd''}),
      ho_available = (\<lambda>_. True), ho_spawn = (\<lambda>_. None), ho_stderr = [],
      ho_obeys_terminate = False, ho_obeys_kill = True\<rparr>"

definition example_profile :: qemu_profile where
  "example_profile =
     \<lparr>qp_name = PStr ''macos_tcg'', qp_binary = ''qemu-system-x86_64'', qp_machine = ''q35'',
      qp_accelerator = ''tcg'', qp_cpu = ''max'', qp_memory_mb = 2048, qp_smp = 2,
      qp_code_candidates = list_of CODE_DEFAULT, qp_vars_candidates = list_of VARS_DEFAULT,
      qp_disk_interface = ''virtio'', qp_network_device = ''virtio-net-pci'', qp_rng_device = ''virtio-rng-pci'',
      qp_boot_timeout = 180, qp_case_timeout = 30, qp_shutdown_timeout = 20\<rparr>"

definition example_launch :: launch where
  "example_launch = (launch_of ''ref.qcow2'' 1 (Some [''payload.iso'']))\<lparr>la_append := Some ''-snapshot'', la_snapshot := False\<rparr>"

definition example_running :: machine where
  "example_running = (open_logs new_machine)\<lparr>mc_alive := True\<rparr>"


theorem sentinel_found_in_stream_witness:
  "\<exists>buf t. wait_for_serial (\<lambda>_. []) example_host \<lparr>qr_id = ''r'', qr_command = [], qr_work_dir = ''w''\<rparr> ''READY'' 180
      ''serial.log'' [NoSocket, Connected] [Silent, Received ''boot RE'', Received ''ADY'', Exited] example_running = (Inr buf, t)"
proof -
  let ?run = "\<lparr>qr_id = ''r'', qr_command = [], qr_work_dir = ''w''\<rparr> :: qemu_run"
  have c: "connect_unix example_host (qr_work_dir ?run @ ''/serial.socket'') ''None'' [NoSocket, Connected] example_running =
      (Inr (), example_running)" by (simp add: example_running_def)
  have "sublist ''READY'' (stream [Silent, Received ''boot RE'', Received ''ADY'', Exited])" by (simp add: sublist_code)
  with sentinel_found_in_stream [OF c, where sentinel = "''READY''" and fr = "\<lambda>_. []" and timeout = 180 and log_name = "''serial.log''"
      and ticks = "[Silent, Received ''boot RE'', Received ''ADY'', Exited]"]
  show ?thesis by simp
qed


theorem stopped_machine_hides_reason_witness:
  "\<exists>t. stop example_host example_running = (Inr (), t) \<and>
     agent_case (\<lambda>_. []) (\<lambda>_. Inr PNone) (\<lambda>_. []) example_host \<lparr>qr_id = ''r'', qr_command = [], qr_work_dir = ''w''\<rparr>
       (PDict []) [NoSocket] [] t = (Inl flush_closed, t)"
proof -
  have "ho_obeys_kill example_host" by (simp add: example_host_def)
  then obtain t where t: "stop example_host example_running = (Inr (), t)" using stop_obeyed by blast
  have "[NoSocket] \<noteq> []" by simp
  with stopped_machine_hides_reason [OF disjI1 [OF t] this] t show ?thesis by blast
qed

theorem agent_answer_of_lines_witness:
  "agent_loop (\<lambda>s. Inr (PStr s)) flush_closed [Received (RESULT_PREFIX @ ''QU''), Received ''JD''] [] = Inr (PStr ''QU'') \<and>
   agent_loop (\<lambda>s. Inr (PStr s)) flush_closed (map Received [''boot'' @ [CHR 0x0A], RESULT_PREFIX @ ''QUJD'' @ [CHR 0x0A]]) [] =
     Inr (PStr ''QUJD'')"
proof
  show "agent_loop (\<lambda>s. Inr (PStr s)) flush_closed [Received (RESULT_PREFIX @ ''QU''), Received ''JD''] [] = Inr (PStr ''QU'')"
    using agent_answer_of_lines [of "[]" "\<lambda>s. Inr (PStr s)" flush_closed "''QU''" "''JD''" "[]"] by simp
  have "list_all whole_lines [''boot'' @ [CHR 0x0A], RESULT_PREFIX @ ''QUJD'' @ [CHR 0x0A]]" by (simp add: whole_lines_def)
  moreover have "result_payload (concat [''boot'' @ [CHR 0x0A], RESULT_PREFIX @ ''QUJD'' @ [CHR 0x0A]]) = Some ''QUJD''"
    by (simp add: result_payload_def RESULT_PREFIX_def)
  ultimately show "agent_loop (\<lambda>s. Inr (PStr s)) flush_closed
      (map Received [''boot'' @ [CHR 0x0A], RESULT_PREFIX @ ''QUJD'' @ [CHR 0x0A]]) [] = Inr (PStr ''QUJD'')"
    using agent_answer_of_lines [of "[''boot'' @ [CHR 0x0A], RESULT_PREFIX @ ''QUJD'' @ [CHR 0x0A]]" "\<lambda>s. Inr (PStr s)" flush_closed]
    by simp
qed

end
