(* ===== verification/CalibrationFacts.thy ===== *)
theory CalibrationFacts
  imports Calibration DatasetFacts QemuFacts
begin

text \<open>
  What a calibration document is evidence of, and that the realized lock accepts exactly a
  document that was measured on the artifacts it names.
\<close>

section \<open>Trials\<close>

definition outcome_of :: "pv \<Rightarrow> pv" where
  "outcome_of r = pget_default r ''outcome'' PNone"

text \<open>The counts are those of the recorded outcomes, and there is one record per trial.\<close>

definition tally_ok :: "nat \<Rightarrow> tally \<Rightarrow> bool" where
  "tally_ok n t \<longleftrightarrow>
     distinct (map fst (fst t)) \<and> length (snd t) = n \<and> sum_list (map snd (fst t)) = n \<and>
     (n \<noteq> 0 \<longrightarrow> fst t \<noteq> []) \<and>
     (\<forall>s. dict_get (fst t) s 0 = length (filter (\<lambda>r. outcome_of r = PStr s) (snd t)))"

lemma update_nonempty: "AList.update k v d \<noteq> []"
  by (cases d) auto

lemma sum_list_update:
  fixes d :: "(string, nat) dict"
  shows "distinct (map fst d) \<Longrightarrow> sum_list (map snd (AList.update k v d)) + dict_get d k 0 = sum_list (map snd d) + v"
proof (induction d)
  case (Cons kv d)
  obtain k' v' where kv: "kv = (k', v')" by (cases kv)
  have "map_of d k' = None" using Cons.prems kv by (simp add: map_of_eq_None_iff)
  then show ?case using Cons kv by (auto simp: dict_get_def)
qed (simp add: dict_get_def)

lemma sum_list_bump: "distinct (map fst d) \<Longrightarrow> sum_list (map snd (bump k d)) = Suc (sum_list (map snd d))"
  using sum_list_update [of d k "dict_get d k 0 + 1"] by (simp add: bump_def)

lemma dict_get_bump: "dict_get (bump k d) s 0 = dict_get d s 0 + (if s = k then 1 else 0)"
  by (simp add: bump_def dict_get_def update_conv')

lemma outcome_of_record [simp]: "outcome_of (trial_record i c outcome) = PStr outcome"
  by (simp add: outcome_of_def trial_record_def pget_default_def pget_def)

lemma tally_step: "tally_ok n t \<Longrightarrow> tally_ok (Suc n) (bump outcome (fst t), snd t @ [trial_record i c outcome])"
  unfolding tally_ok_def
  by (simp add: sum_list_bump dict_get_bump) (simp add: bump_def distinct_update update_nonempty)

lemma run_trial_Inr:
  assumes "run_trial env gn contract seed i t s = (Inr u, s')"
  obtains outcome c where "u = (bump outcome (fst t), snd t @ [trial_record i c outcome])"
  using assms by (auto simp: run_trial_def ebind_eq split: prod.splits sum.splits)

lemma run_trials_Inr:
  "run_trials env gn contract seed is t s = (Inr u, s') \<Longrightarrow> tally_ok n t \<Longrightarrow> tally_ok (n + length is) u"
proof (induction "is" arbitrary: t s n)
  case (Cons i "is")
  from Cons.prems(1) obtain v s1 where v: "run_trial env gn contract seed i t s = (Inr v, s1)"
    and rest: "run_trials env gn contract seed is v s1 = (Inr u, s')"
    by (auto simp: ebind_eq split: prod.splits sum.splits)
  have "tally_ok (Suc n) v" using run_trial_Inr [OF v] tally_step [OF Cons.prems(2)] by metis
  from Cons.IH [OF rest this] show ?case by simp
qed simp

lemma calibrate_Inr:
  assumes "calibrate_unsynced_outcomes env gn cb s = (Inr d, s')"
  obtains t im pay where "d = calibration_document cb im pay t" "2 \<le> cb_trials cb"
    "cb_image_sha256 cb = Some im" "cb_payload_sha256 cb = Some pay" "tally_ok (nat (cb_trials cb)) t"
proof -
  from assms obtain contract im pay t s1 where c: "calibration_checks cb = Inr (contract, im, pay)"
    and f: "efinally (run_trials env gn contract (cb_seed cb) [0..<nat (cb_trials cb)] ([], [])) (close env) s = (Inr t, s1)"
    and d: "d = calibration_document cb im pay t"
    by (auto simp: calibrate_unsynced_outcomes_def ebind_eq split: prod.splits sum.splits)
  have checks: "2 \<le> cb_trials cb" "cb_image_sha256 cb = Some im" "cb_payload_sha256 cb = Some pay"
    using c by (auto simp: calibration_checks_def rbind_eq_Inr_iff split: if_splits option.splits)
  obtain s2 where "run_trials env gn contract (cb_seed cb) [0..<nat (cb_trials cb)] ([], []) s = (Inr t, s2)"
    using f by (auto simp: efinally_def split: prod.splits sum.splits)
  moreover have "tally_ok 0 ([], [])" by (simp add: tally_ok_def dict_get_def)
  ultimately have "tally_ok (nat (cb_trials cb)) t" using run_trials_Inr by fastforce
  with d checks show thesis by (rule that)
qed

lemma calibrate_closes:
  assumes "quiet_stop env" and "calibrate_unsynced_outcomes env gn cb (t, w) = (r, t', w')" and "\<not> running t"
  shows "\<not> running t'"
proof (cases "calibration_checks cb")
  case (Inl e)
  then show ?thesis using assms(2,3) by (simp add: calibrate_unsynced_outcomes_def ebind_eq)
next
  case (Inr checked)
  obtain contract im pay where c: "checked = (contract, im, pay)" by (cases checked)
  let ?m = "run_trials env gn contract (cb_seed cb) [0..<nat (cb_trials cb)] ([], [])"
  obtain r1 t1 w1 where m: "?m (t, w) = (r1, t1, w1)" by (metis surj_pair)
  obtain t2 w2 where cl: "close env (t1, w1) = (Inr (), t2, w2)"
    using close_quiet [OF assms(1), of "(t1, w1)"] by (metis prod.collapse)
  then have "\<not> running t2" by (rule evaluator.shut_stops)
  moreover have "t' = t2"
    using assms(2) Inr c m cl
    by (auto simp: calibrate_unsynced_outcomes_def ebind_eq efinally_def split: sum.splits)
  ultimately show ?thesis by simp
qed


section \<open>The lock\<close>

lemma field_set [simp]: "field (set_field k v fs) k' = (if k' = k then v else field fs k')"
  by (simp add: field_def set_field_def update_conv')

lemma field_digest: "field (set_digest k sha fs) k' = (case sha of Some s \<Rightarrow> if k' = k then PStr s else field fs k' | None \<Rightarrow> field fs k')"
  by (simp add: set_digest_def split: option.split)

text \<open>
  What a calibration measured the lock accepts: the document of a calibration, with no
  outcome that is an empty text, is bound into the lock of the same profile exactly when the lock
  names the two artifacts that were measured; the lock then has the digest of the document and
  its outcomes, and no field outside the calibration changes.
\<close>

theorem calibration_binds_measured_artifacts:
  fixes sha :: string and fs :: lock_fields
  assumes "calibrate_unsynced_outcomes env gn cb s = (Inr d, s')"
    and "cb_image_sha256 cb = Some im" and "cb_payload_sha256 cb = Some pay"
    and "PStr [] \<notin> set (list_of (pget_default d ''outcomes'' PNone))"
  defines "fs' \<equiv> realize_unsynced_calibration (cb_profile cb) (Some (sha, Inr d)) fs"
  shows "(field fs ''image_sha256'' = PStr im \<and> field fs ''payload_sha256'' = PStr pay \<longrightarrow>
      field fs' ''unsynced_outcome_calibration_sha256'' = PStr sha \<and>
      field fs' ''unsynced_outcome_calibration_profile'' = PStr (cb_profile cb) \<and>
      field fs' ''unsynced_outcome_calibration_trial_count'' = PInt (cb_trials cb) \<and>
      field fs' ''unsynced_outcome_calibration_outcomes'' = pget_default d ''outcomes'' PNone) \<and>
    (field fs ''image_sha256'' \<noteq> PStr im \<or> field fs ''payload_sha256'' \<noteq> PStr pay \<longrightarrow> fs' = fs) \<and>
    (\<forall>k. \<not> prefix ''unsynced_outcome_calibration'' k \<longrightarrow> field fs' k = field fs k)"
proof -
  obtain t where d: "d = calibration_document cb im pay t" and ok: "tally_ok (nat (cb_trials cb)) t" and n: "2 \<le> cb_trials cb"
    using calibrate_Inr [OF assms(1)] assms(2,3) by (metis option.inject)
  have ne: "fst t \<noteq> []" and dist: "distinct (map fst (fst t))" using ok n by (auto simp: tally_ok_def)
  let ?os = "sort (map fst (fst t))"
  have os: "pget_default d ''outcomes'' PNone = PList (map PStr ?os)"
    by (simp add: d calibration_document_def pget_default_def pget_def)
  have nonempty: "[] \<notin> set ?os" using assms(4) unfolding os by auto
  have "?os \<noteq> []" using ne by (metis length_0_conv length_map length_sort)
  then have "outcomes_ok (PList (map PStr ?os))"
    using nonempty unfolding outcomes_ok_def by (force simp: list_all_iff simp del: set_sort)
  then have binds: "binds_artifacts (cb_profile cb) fs d \<longleftrightarrow>
      field fs ''image_sha256'' = PStr im \<and> field fs ''payload_sha256'' = PStr pay"
    using os by (simp add: binds_artifacts_def d calibration_document_def pget_default_def pget_def)
  have "sorted_set ?os = ?os"
    using dist by (intro sorted_distinct_set_unique) simp_all
  moreover have "map (str_of \<circ> PStr) xs = xs" for xs by (induction xs) simp_all
  ultimately have outcomes: "sorted_set (map (str_of \<circ> PStr) ?os) = ?os" by simp
  have "is_dict d" by (simp add: d calibration_document_def)
  moreover have "pget_default d ''trial_count'' PNone = PInt (cb_trials cb)"
    by (simp add: d calibration_document_def pget_default_def pget_def)
  ultimately show ?thesis
    unfolding fs'_def realize_unsynced_calibration_def
    using binds os by (auto simp: outcomes)
qed

lemma realize_container_keeps:
  "field (realize_container x fs) ''unsynced_outcome_calibration_sha256'' = field fs ''unsynced_outcome_calibration_sha256''"
  by (simp add: realize_container_def split: option.split prod.split)

lemma realize_installer_keeps:
  "realize_installer m fs = Inr fs1 \<Longrightarrow>
     field fs1 ''unsynced_outcome_calibration_sha256'' = field fs ''unsynced_outcome_calibration_sha256''"
  by (cases m) (auto simp: realize_installer_def rbind_eq_Inr_iff)

lemma realize_inventory_keeps:
  "realize_inventory m fs = Inr fs1 \<Longrightarrow>
     field fs1 ''unsynced_outcome_calibration_sha256'' = field fs ''unsynced_outcome_calibration_sha256''"
  by (cases m) (auto simp: realize_inventory_def rbind_eq_Inr_iff)

lemma realize_packages_keeps:
  "k \<notin> {''firmware_packages'', ''shell_versions'', ''coreutils_version'', ''libc_version'', ''systemd_version'',
     ''kernel_version'', ''kernel_package''} \<Longrightarrow> field (realize_packages text fs) k = field fs k"
  by (auto simp: realize_packages_def Let_def split: option.split)

lemma realize_tools_keeps:
  "k \<notin> {''qemu_version'', ''xorriso_version''} \<Longrightarrow> field (realize_tools q x fs) k = field fs k"
  by (auto simp: realize_tools_def Let_def split: option.split)

lemma py_item_field: "py_item (PDict fs) k = Inr v \<Longrightarrow> v = field fs k"
  by (auto simp: field_def split: option.splits)

lemma map_result_list_all: "map_result f xs = Inr ys \<Longrightarrow> list_all P ys \<Longrightarrow> x \<in> set xs \<Longrightarrow> \<exists>y. f x = Inr y \<and> P y"
  by (auto simp: map_result_iff list_all2_conv_all_nth list_all_length in_set_conv_nth)

text \<open>The calibration field can only come from a bound calibration.\<close>

lemma realized_calibration:
  assumes "realize_fields profile fd fs = Inr fs'"
    and "truthy (field fs' ''unsynced_outcome_calibration_sha256'')"
    and "\<not> truthy (field fs ''unsynced_outcome_calibration_sha256'')"
  shows "\<exists>sha d. fd_calibration fd = Some (sha, Inr d) \<and> binds_artifacts profile fs' d \<and>
    field fs' ''unsynced_outcome_calibration_sha256'' = PStr sha"
proof -
  let ?k = "''unsynced_outcome_calibration_sha256''"
  obtain fs1 fs2 fs4 where
    f1: "realize_installer (fd_installer fd) (realize_container (fd_container fd) fs) = Inr fs1"
    and f2: "realize_inventory (fd_inventory fd) (set_digest ''image_sha256'' (fd_image fd) fs1) = Inr fs2"
    and f4: "fs4 = set_digest ''payload_sha256'' (fd_payload fd)
                   (set_digest ''raw_probe_manifest_sha256'' (fd_probes fd)
                   (set_digest ''workload_fixture_manifest_sha256'' (fd_workloads fd)
                   (set_digest ''oci_archive_sha256'' (fd_oci_archive fd)
                   (set_digest ''oci_rootfs_sha256'' (fd_rootfs fd)
                   (set_digest ''ovmf_sha256'' (fd_ovmf fd)
                     (realize_tools (fd_qemu_version fd) (fd_xorriso_version fd) (realize_packages (fd_packages fd) fs2)))))))"
    and fs': "fs' = realize_unsynced_calibration profile (fd_calibration fd) fs4"
    using assms(1) by (auto simp: realize_fields_def rbind_eq_Inr_iff Let_def)
  have "field fs4 ?k = field fs2 ?k"
    by (simp add: f4 field_digest realize_tools_keeps realize_packages_keeps split: option.split)
  also have "\<dots> = field fs1 ?k" using realize_inventory_keeps [OF f2] by (simp add: field_digest split: option.split)
  also have "\<dots> = field fs ?k" using realize_installer_keeps [OF f1] by (simp add: realize_container_keeps)
  finally have "fs' \<noteq> fs4" using assms(2,3) by auto
  then obtain sha d where c: "fd_calibration fd = Some (sha, Inr d)" "is_dict d \<and> binds_artifacts profile fs4 d"
    unfolding fs' realize_unsynced_calibration_def
    by (auto split: option.splits prod.splits sum.splits if_splits)
  have "field fs' ?k = PStr sha" unfolding fs' realize_unsynced_calibration_def using c by simp
  moreover have "field fs' k = field fs4 k" if "k = ''image_sha256'' \<or> k = ''payload_sha256''" for k
    unfolding fs' realize_unsynced_calibration_def using c that by auto
  then have "binds_artifacts profile fs' d" using c(2) by (simp add: binds_artifacts_def)
  ultimately show ?thesis using c(1) by blast
qed

text \<open>
  C17. A lock is only materialized with a calibration of its own artifacts: if the source lock had
  no calibration digest, a realized lock with the status \<open>materialized\<close> has every required field,
  and its calibration digest is that of a document of its profile whose image and payload digests
  are the ones in the lock, with at least one outcome.
\<close>

theorem materialized_lock_is_bound:
  assumes "realize_lock profile fd lock = Inr rl" and "rl_status rl = ''materialized''"
    and "\<not> truthy (field (items_of (pget_default lock ''resolved_from_installed_system'' PNone))
           ''unsynced_outcome_calibration_sha256'')"
  shows "list_all (\<lambda>k. truthy (field (rl_fields rl) k)) LOCK_REQUIRED \<and>
    (\<exists>sha d. fd_calibration fd = Some (sha, Inr d) \<and>
       field (rl_fields rl) ''unsynced_outcome_calibration_sha256'' = PStr sha \<and>
       py_eq (pget_default d ''profile'' PNone) (PStr profile) \<and>
       py_eq (pget_default d ''reference_image_sha256'' PNone) (field (rl_fields rl) ''image_sha256'') \<and>
       py_eq (pget_default d ''payload_sha256'' PNone) (field (rl_fields rl) ''payload_sha256'') \<and>
       outcomes_ok (pget_default d ''outcomes'' PNone))"
proof -
  obtain resolved fs vals where r: "py_item lock ''resolved_from_installed_system'' = Inr resolved"
    and f: "realize_fields profile fd (items_of resolved) = Inr fs"
    and v: "map_result (py_item (PDict fs)) LOCK_REQUIRED = Inr vals" "list_all truthy vals"
    and rl: "rl_fields rl = fs"
    using assms(1,2) by (auto simp: realize_lock_def rbind_eq_Inr_iff Let_def split: if_splits)
  have resolved: "pget_default lock ''resolved_from_installed_system'' PNone = resolved"
    using r by (cases lock) (auto simp: pget_default_def pget_def split: option.splits)
  have required: "truthy (field fs k)" if "k \<in> set LOCK_REQUIRED" for k
    using map_result_list_all [OF v that] py_item_field [of fs k] by blast
  then have "truthy (field fs ''unsynced_outcome_calibration_sha256'')" by (simp add: LOCK_REQUIRED_def)
  from realized_calibration [OF f this] assms(3) required show ?thesis
    unfolding resolved rl by (auto simp: list_all_iff binds_artifacts_def)
qed

section \<open>A calibration that runs\<close>

definition crash_observation :: pv where
  "crash_observation =
     PDict [(''status'', PStr ''ok''), (''observations'', PDict [(''verify'',
       PDict ((''outcome_class'', PStr ''prefix'') # map (\<lambda>k. (k, PBool True)) REQUIRED_INVARIANTS))])]"

definition crash_env :: "(unit, unit) env" where
  "crash_env =
     \<lparr>e_probe = (\<lambda>_. eret PNone), e_available = (\<lambda>_. True), e_is_file = (\<lambda>_ _. True),
      e_start = (\<lambda>_ _. eret ()), e_wait = (\<lambda>_. eret ()),
      e_agent = (\<lambda>_ _ _. eret crash_observation), e_stop = (\<lambda>_. eret ())\<rparr>"

definition example_setup :: calibration_setup where
  "example_setup =
     \<lparr>cb_trials = 2, cb_profile = ''macos_tcg'', cb_seed = 73013, cb_image = ''ref.qcow2'',
      cb_image_sha256 = Some ''image'', cb_payload = ''payload.iso'', cb_payload_sha256 = Some ''payload'',
      cb_contracts = Inr [example_contract_of CALIBRATED],
      cb_profile_loaded = Inr example_profile\<rparr>"

lemma example_one_case:
  "\<exists>r i. generate_cases example_generation profile seed 1 (Some [example_contract_of c]) loaded = Inr [r] \<and>
     py_item r ''case_id'' = Inr (PStr i)"
proof -
  let ?schedule = "family_schedule (gn_seeded example_generation) (gn_below example_generation) 1 profile seed"
  have "length ?schedule = 1" by (simp add: length_schedule [OF example_lawful])
  then obtain f where f: "?schedule = [f]" by (auto simp: length_Suc_conv)
  then have "f \<in> set CASE_FAMILIES" using schedule_families [OF example_lawful, of _ 1 profile seed] by (metis list.set_intros(1) subsetD)
  then obtain r where r: "slot_case example_generation profile seed ((example_contract_of c, 0), f) = Inr r"
    using example_slot by blast
  have "slots [example_contract_of c] 1 = [(example_contract_of c, 0)]" by (simp add: slots_def)
  with f r have g: "generate_cases example_generation profile seed 1 (Some [example_contract_of c]) loaded = Inr [r]"
    by (simp add: generate_cases_def example_contract_id)
  have "pget_default r ''case_id'' PNone = PStr (c @ '':'' @ take 16 (gn_value_digest example_generation (without_id r)))"
    by (rule generated_case(3) [OF example_lawful r]) (simp add: example_contract_id)
  then have "py_item r ''case_id'' = Inr (PStr (c @ '':'' @ take 16 (gn_value_digest example_generation (without_id r))))"
    by (cases r) (auto simp: pget_default_def pget_def split: option.splits)
  with g show ?thesis by blast
qed

lemma example_trial:
  "\<exists>c. run_trial crash_env example_generation (example_contract_of CALIBRATED) seed i t (QemuTarget img run, ()) =
     (Inr (bump ''prefix'' (fst t), snd t @ [trial_record i c ''prefix'']), QemuTarget img (Some ()), ())"
proof -
  obtain r j where "generate_cases example_generation ''reference-calibration'' (seed + int i) 1
      (Some [example_contract_of CALIBRATED]) (Inr []) = Inr [r]" "py_item r ''case_id'' = Inr (PStr j)"
    using example_one_case by blast
  then obtain c where c: "trial_case example_generation (example_contract_of CALIBRATED) seed i = Inr c"
    by (simp add: trial_case_def)
  have e: "execute crash_env d (QemuTarget img run, ()) = (Inr crash_observation, QemuTarget img (Some ()), ())" for d
    by (cases run) (simp_all add: crash_env_def)
  have "trial_outcome fr i crash_observation = Inr ''prefix''" for fr
    by (simp add: trial_outcome_def crash_observation_def pget_default_def pget_def REQUIRED_INVARIANTS_def)
  then show ?thesis by (auto simp: run_trial_def ebind_eq c e)
qed

lemma example_calibration:
  obtains d where "calibrate_unsynced_outcomes crash_env example_generation example_setup (QemuTarget ''ref.qcow2'' None, ()) =
      (Inr d, QemuTarget ''ref.qcow2'' None, ())"
    and "pget_default d ''outcomes'' PNone = PList [PStr ''prefix'']"
proof -
  have checks: "calibration_checks example_setup = Inr (example_contract_of CALIBRATED, ''image'', ''payload'')"
    by (simp add: calibration_checks_def example_setup_def valid_profile_name_def is_alnum_def example_contract_id)
  obtain c0 where c0: "run_trial crash_env example_generation (example_contract_of CALIBRATED) 73013 0 ([], [])
      (QemuTarget ''ref.qcow2'' None, ()) = (Inr (bump ''prefix'' [], [trial_record 0 c0 ''prefix'']), QemuTarget ''ref.qcow2'' (Some ()), ())"
    using example_trial [of 73013 0 "([], [])"] by force
  obtain c1 where c1: "run_trial crash_env example_generation (example_contract_of CALIBRATED) 73013 1
      (bump ''prefix'' [], [trial_record 0 c0 ''prefix'']) (QemuTarget ''ref.qcow2'' (Some ()), ()) =
      (Inr (bump ''prefix'' (bump ''prefix'' []), [trial_record 0 c0 ''prefix'', trial_record 1 c1 ''prefix'']), QemuTarget ''ref.qcow2'' (Some ()), ())"
    using example_trial [of 73013 1 "(bump ''prefix'' [], [trial_record 0 c0 ''prefix''])"] by force
  have close: "close crash_env (QemuTarget ''ref.qcow2'' (Some ()), ()) = (Inr (), QemuTarget ''ref.qcow2'' None, ())"
    by (simp add: crash_env_def)
  have two: "[0..<nat (cb_trials example_setup)] = [0, 1]" "cb_seed example_setup = 73013"
    by (simp_all add: example_setup_def upt_rec)
  have "calibrate_unsynced_outcomes crash_env example_generation example_setup (QemuTarget ''ref.qcow2'' None, ()) =
      (Inr (calibration_document example_setup ''image'' ''payload''
        (bump ''prefix'' (bump ''prefix'' []), [trial_record 0 c0 ''prefix'', trial_record 1 c1 ''prefix''])),
       QemuTarget ''ref.qcow2'' None, ())"
    by (simp add: calibrate_unsynced_outcomes_def ebind_eq checks two efinally_def c0 c1 [simplified] close del: close.simps)
  then show thesis
    by (rule that) (simp add: calibration_document_def pget_default_def pget_def bump_def)
qed

lemma crash_env_quiet: "quiet_stop crash_env"
  by (simp add: quiet_stop_def crash_env_def)


theorem calibration_binds_measured_artifacts_witness:
  "\<exists>d s. calibrate_unsynced_outcomes crash_env example_generation example_setup (QemuTarget ''ref.qcow2'' None, ()) = (Inr d, s) \<and>
     field (realize_unsynced_calibration ''macos_tcg'' (Some (''sha'', Inr d))
       [(''image_sha256'', PStr ''image''), (''payload_sha256'', PStr ''payload'')]) ''unsynced_outcome_calibration_sha256'' = PStr ''sha'' \<and>
     realize_unsynced_calibration ''macos_tcg'' (Some (''sha'', Inr d)) [(''image_sha256'', PStr ''other'')] =
       [(''image_sha256'', PStr ''other'')]"
proof (rule example_calibration)
  fix d
  assume run: "calibrate_unsynced_outcomes crash_env example_generation example_setup (QemuTarget ''ref.qcow2'' None, ()) =
      (Inr d, QemuTarget ''ref.qcow2'' None, ())" and os: "pget_default d ''outcomes'' PNone = PList [PStr ''prefix'']"
  have s: "cb_image_sha256 example_setup = Some ''image''" "cb_payload_sha256 example_setup = Some ''payload''"
    "cb_profile example_setup = ''macos_tcg''" by (simp_all add: example_setup_def)
  have "PStr [] \<notin> set (list_of (pget_default d ''outcomes'' PNone))" by (simp add: os)
  note binds = calibration_binds_measured_artifacts [OF run s(1,2) this, where sha = "''sha''", unfolded s(3)]
  from binds [where fs = "[(''image_sha256'', PStr ''image''), (''payload_sha256'', PStr ''payload'')]"]
    binds [where fs = "[(''image_sha256'', PStr ''other'')]"] run
  show ?thesis by (intro exI [of _ d] exI [of _ "(QemuTarget ''ref.qcow2'' None, ())"]) (simp add: field_def)
qed

definition example_findings :: findings where
  "example_findings =
     \<lparr>fd_container = None, fd_installer = None, fd_image = Some ''image'', fd_inventory = None, fd_packages = None,
      fd_qemu_version = None, fd_xorriso_version = None, fd_ovmf = None, fd_rootfs = None, fd_oci_archive = None,
      fd_workloads = None, fd_probes = None, fd_payload = Some ''payload'',
      fd_calibration = Some (''sha'', Inr (calibration_document example_setup ''image'' ''payload'' ([(''prefix'', 2)], [])))\<rparr>"

definition example_lock :: pv where
  "example_lock =
     PDict [(''resolved_from_installed_system'', PDict [(''package_manifest_sha256'', PStr ''p''), (''kernel_version'', PStr ''6''),
       (''systemd_version'', PStr ''257''), (''libc_version'', PStr ''2.41'')])]"

theorem materialized_lock_is_bound_witness:
  "\<exists>rl. realize_lock ''macos_tcg'' example_findings example_lock = Inr rl \<and> rl_status rl = ''materialized'' \<and>
     list_all (\<lambda>k. truthy (field (rl_fields rl) k)) LOCK_REQUIRED"
proof -
  have "case realize_lock ''macos_tcg'' example_findings example_lock of Inr rl \<Rightarrow> rl_status rl = ''materialized'' | _ \<Rightarrow> False"
    by (simp add: realize_lock_def example_lock_def example_findings_def realize_fields_def realize_container_def
        realize_installer_def realize_inventory_def realize_packages_def realize_tools_def set_digest_def
        set_field_def realize_unsynced_calibration_def binds_artifacts_def calibration_document_def example_setup_def
        pget_default_def pget_def field_def outcomes_ok_def LOCK_REQUIRED_def Let_def)
  then obtain rl where rl: "realize_lock ''macos_tcg'' example_findings example_lock = Inr rl" "rl_status rl = ''materialized''"
    by (auto split: sum.splits)
  have "\<not> truthy (field (items_of (pget_default example_lock ''resolved_from_installed_system'' PNone))
      ''unsynced_outcome_calibration_sha256'')"
    by (simp add: example_lock_def field_def pget_default_def pget_def)
  from materialized_lock_is_bound [OF rl this] rl show ?thesis by blast
qed

end
