(* ===== verification/Preflight.thy ===== *)
theory Preflight
  imports Calibration
begin

text \<open>
  \<open>preflight_reference\<close> of \<open>reference.py\<close>: which tools, files and documents the materialization of
  the oracle has, whether the calibration and the realized lock are usable, and the next command
  to run. A file is its size and digest; a document is what \<open>read_json\<close> returned or raised.
\<close>

record artifact =
  af_size :: nat
  af_sha256 :: string

type_synonym artifacts = "string \<Rightarrow> artifact option"

definition present :: "artifacts \<Rightarrow> string \<Rightarrow> bool" where
  "present arts name \<longleftrightarrow> arts name \<noteq> None"

text \<open>\<open>artifacts[name].get("sha256")\<close>: a digest is only taken when hashes are verified.\<close>

definition recorded_sha256 :: "bool \<Rightarrow> artifacts \<Rightarrow> string \<Rightarrow> pv" where
  "recorded_sha256 verify arts name =
     (case arts name of Some f \<Rightarrow> if verify then PStr (af_sha256 f) else PNone | None \<Rightarrow> PNone)"

definition artifact_record :: "bool \<Rightarrow> artifacts \<Rightarrow> string \<Rightarrow> string \<Rightarrow> pv" where
  "artifact_record verify arts name path =
     PDict ([(''path'', PStr path), (''present'', PBool (present arts name))] @
       (case arts name of
          None \<Rightarrow> []
        | Some f \<Rightarrow> (''size_bytes'', p_nat (af_size f)) # (if verify then [(''sha256'', PStr (af_sha256 f))] else [])))"

definition check_source_iso ::
  "(string \<Rightarrow> int option) \<Rightarrow> bool \<Rightarrow> artifacts \<Rightarrow> pv \<Rightarrow> bool option result" where
  "check_source_iso fi verify arts lock =
     (case arts ''source_iso'' of
        None \<Rightarrow> Inr None
      | Some f \<Rightarrow>
          rbind (py_item lock ''source'') (\<lambda>source.
          rbind (py_item source ''size_bytes'') (\<lambda>raw.
          rbind (py_int fi raw) (\<lambda>size.
            if int (af_size f) \<noteq> size then Inr (Some False)
            else if \<not> verify then Inr (Some True)
            else rbind (py_item source ''sha256'') (\<lambda>sha.
              Inr (Some (py_eq (recorded_sha256 verify arts ''source_iso'') sha)))))))"

section \<open>Calibration\<close>

record readiness =
  rd_ready :: bool
  rd_reason :: string
  rd_binding :: "bool option"

definition not_ready :: "string \<Rightarrow> readiness" where
  "not_ready reason = \<lparr>rd_ready = False, rd_reason = reason, rd_binding = None\<rparr>"

definition digest_text :: "pv \<Rightarrow> bool" where
  "digest_text v = (case v of PStr s \<Rightarrow> length s = 64 | _ \<Rightarrow> False)"

definition calibration_metadata :: "pv \<Rightarrow> pv \<Rightarrow> bool" where
  "calibration_metadata profile d \<longleftrightarrow>
     py_eq (pget_default d ''schema_version'' PNone) (PStr ''osbench.accepted_outcomes.v1'') \<and>
     py_eq (pget_default d ''benchmark_version'' PNone) (PStr BENCHMARK_VERSION) \<and>
     py_eq (pget_default d ''reference_id'' PNone) (PStr REFERENCE_ID) \<and>
     py_eq (pget_default d ''profile'' PNone) profile \<and>
     py_eq (pget_default d ''contract'' PNone) (PStr CALIBRATED) \<and>
     outcomes_ok (pget_default d ''outcomes'' PNone) \<and>
     digest_text (pget_default d ''reference_image_sha256'' PNone) \<and>
     digest_text (pget_default d ''payload_sha256'' PNone)"

definition calibration_binding :: "bool \<Rightarrow> artifacts \<Rightarrow> pv \<Rightarrow> bool" where
  "calibration_binding verify arts d \<longleftrightarrow>
     py_eq (pget_default d ''reference_image_sha256'' PNone) (recorded_sha256 verify arts ''reference_image'') \<and>
     py_eq (pget_default d ''payload_sha256'' PNone) (recorded_sha256 verify arts ''payload_iso'')"

definition calibration_state :: "bool \<Rightarrow> pv \<Rightarrow> artifacts \<Rightarrow> pv result \<Rightarrow> readiness" where
  "calibration_state verify profile arts document =
     (if \<not> present arts ''calibration'' then not_ready ''missing''
      else
        (case document of
           Inl e \<Rightarrow> not_ready ''invalid_json''
         | Inr d \<Rightarrow>
             if \<not> is_dict d then not_ready ''invalid_document''
             else if \<not> calibration_metadata profile d then not_ready ''metadata_mismatch''
             else if \<not> (present arts ''reference_image'' \<and> present arts ''payload_iso'')
               then not_ready ''artifacts_missing''
             else if verify then
               (let ok = calibration_binding verify arts d
                in \<lparr>rd_ready = ok, rd_reason = (if ok then ''ready'' else ''metadata_or_artifact_mismatch''),
                    rd_binding = Some ok\<rparr>)
             else \<lparr>rd_ready = True, rd_reason = ''ready_unverified'', rd_binding = None\<rparr>))"

section \<open>Realized lock\<close>

definition SOURCE_SECTIONS :: "string list" where
  "SOURCE_SECTIONS =
     [''benchmark_sources'', ''container_build_environment'', ''offline_package_corpus'', ''payload_sources'',
      ''raw_probe_sources'', ''reference_builder_sources'', ''workload_fixture_sources'']"

definition RESOLVED_FIELDS :: "string list" where
  "RESOLVED_FIELDS =
     [''image_sha256'', ''package_manifest_sha256'', ''kernel_version'', ''systemd_version'', ''libc_version'',
      ''payload_sha256'', ''oci_rootfs_sha256'', ''oci_archive_sha256'', ''unsynced_outcome_calibration_sha256'']"

definition REALIZED_ARTIFACTS :: "string list" where
  "REALIZED_ARTIFACTS =
     [''reference_image'', ''payload_iso'', ''inventory_manifest'', ''rootfs_tar'', ''oci_archive'', ''calibration'']"

definition structurally_ready :: "pv \<Rightarrow> artifacts \<Rightarrow> pv \<Rightarrow> bool \<Rightarrow> pv \<Rightarrow> bool" where
  "structurally_ready profile arts lock calibration_ready d =
     (let resolved = pget_default d ''resolved_from_installed_system'' PNone in
      py_eq (pget_default d ''benchmark_version'' PNone) (PStr BENCHMARK_VERSION) \<and>
      py_eq (pget_default d ''reference_id'' PNone) (PStr REFERENCE_ID) \<and>
      py_eq (pget_default d ''status'' PNone) (PStr ''materialized'') \<and> is_dict resolved \<and>
      list_all (\<lambda>s. py_eq (pget_default d s PNone) (pget_default lock s PNone)) SOURCE_SECTIONS \<and>
      list_all (\<lambda>k. truthy (pget_default resolved k PNone)) RESOLVED_FIELDS \<and>
      py_eq (pget_default resolved ''unsynced_outcome_calibration_profile'' PNone) profile \<and>
      list_all (present arts) REALIZED_ARTIFACTS \<and> calibration_ready)"

text \<open>Which field of the lock binds which artifact.\<close>

definition BINDINGS :: "(string \<times> string) list" where
  "BINDINGS =
     [(''image_sha256'', ''reference_image''), (''payload_sha256'', ''payload_iso''),
      (''oci_rootfs_sha256'', ''rootfs_tar''), (''oci_archive_sha256'', ''oci_archive''),
      (''unsynced_outcome_calibration_sha256'', ''calibration'')]"

definition lock_binding :: "bool \<Rightarrow> artifacts \<Rightarrow> pv \<Rightarrow> bool" where
  "lock_binding verify arts resolved =
     list_all (\<lambda>(k, name). py_eq (pget_default resolved k PNone) (recorded_sha256 verify arts name)) BINDINGS"

definition realized_state :: "bool \<Rightarrow> pv \<Rightarrow> artifacts \<Rightarrow> pv \<Rightarrow> bool \<Rightarrow> pv result \<Rightarrow> readiness" where
  "realized_state verify profile arts lock calibration_ready document =
     (if \<not> present arts ''realized_lock'' then not_ready ''missing''
      else
        (case document of
           Inl e \<Rightarrow> not_ready ''invalid_json''
         | Inr d \<Rightarrow>
             if \<not> is_dict d then not_ready ''invalid_document''
             else if \<not> structurally_ready profile arts lock calibration_ready d
               then not_ready ''metadata_source_or_artifact_mismatch''
             else if verify then
               (let ok = lock_binding verify arts (pget_default d ''resolved_from_installed_system'' PNone)
                in \<lparr>rd_ready = ok, rd_reason = (if ok then ''ready'' else ''artifact_hash_mismatch''),
                    rd_binding = Some ok\<rparr>)
             else \<lparr>rd_ready = True, rd_reason = ''ready_unverified'', rd_binding = None\<rparr>))"

section \<open>Stages and the next action\<close>

record stage =
  st_ready :: bool
  st_missing_tools :: "string list"

definition stage_of :: "(string \<Rightarrow> bool) \<Rightarrow> bool \<Rightarrow> string list \<Rightarrow> stage" where
  "stage_of tools extra names =
     \<lparr>st_ready = (list_all tools names \<and> extra), st_missing_tools = filter (\<lambda>n. \<not> tools n) names\<rparr>"

definition stages_of :: "(string \<Rightarrow> bool) \<Rightarrow> bool \<Rightarrow> string option \<Rightarrow> string option \<Rightarrow> (string, stage) dict" where
  "stages_of tools keyring firmware_code firmware_vars =
     [(''source_acquisition'', stage_of tools keyring [''curl'', ''gpgv'', ''sha256sum'']),
      (''payload_build'', stage_of tools True [''xorriso'', ''gcc'', ''x86_64-linux-gnu-gcc'', ''dpkg-deb'', ''make'']),
      (''reference_build'', stage_of tools (firmware_code \<noteq> None \<and> firmware_vars \<noteq> None)
         [''xorriso'', ''qemu-system-x86_64'', ''qemu-img'', ''guestfish'']),
      (''inventory_and_oci'', stage_of tools True [''guestfish'', ''virt-copy-out''])]"

definition next_action ::
  "bool \<Rightarrow> bool \<Rightarrow> bool \<Rightarrow> artifacts \<Rightarrow> (string, stage) dict \<Rightarrow> bool option \<Rightarrow> string \<Rightarrow> string option" where
  "next_action source_lock_valid realized_ready calibration_ready arts stages source_iso_valid source_iso =
     (if \<not> source_lock_valid then Some ''osbench reference lock-sources''
      else if realized_ready then None
      else if list_all (present arts) [''payload_iso'', ''reference_image'', ''inventory_manifest'', ''rootfs_tar'', ''oci_archive'']
              \<and> calibration_ready then Some ''osbench reference lock-realize''
      else if \<not> list_all (\<lambda>(_, s). st_ready s) stages then Some ''docker compose build''
      else if source_iso_valid = Some False then Some (''remove invalid cached source ISO: '' @ source_iso)
      else if \<not> present arts ''payload_iso'' then Some ''osbench payload build''
      else if \<not> present arts ''reference_image'' then Some ''osbench reference build''
      else if \<not> present arts ''inventory_manifest'' then Some ''osbench reference inventory''
      else if \<not> present arts ''rootfs_tar'' \<or> \<not> present arts ''oci_archive'' then Some ''osbench reference export-oci''
      else if \<not> calibration_ready then Some ''osbench reference calibrate-unsynced --trials 20''
      else Some ''osbench reference lock-realize'')"

record preflight_report =
  pf_source_lock_valid :: bool
  pf_stages :: "(string, stage) dict"
  pf_source_iso_valid :: "bool option"
  pf_calibration :: readiness
  pf_realized_lock :: readiness
  pf_materialization_ready :: bool
  pf_next_action :: "string option"

text \<open>What the preflight reads.\<close>

record installation =
  in_artifacts :: artifacts
  in_tools :: "string \<Rightarrow> bool"
  in_keyring :: bool
  in_is_file :: "string \<Rightarrow> bool"
  in_calibration :: "pv result"
  in_realized :: "pv result"
  in_cache_root :: string

definition preflight_reference ::
  "(real \<Rightarrow> string) \<Rightarrow> (string \<Rightarrow> int option) \<Rightarrow> bool \<Rightarrow> qemu_profile \<Rightarrow> pv \<Rightarrow> bool \<Rightarrow> installation \<Rightarrow>
     preflight_report result" where
  "preflight_reference fr fi verify p lock source_lock_valid inst =
     rbind (py_item lock ''source'') (\<lambda>source.
     rbind (py_item source ''filename'') (\<lambda>filename.
     rbind (find_existing (in_is_file inst) (qp_code_candidates p)) (\<lambda>firmware_code.
     rbind (find_existing (in_is_file inst) (qp_vars_candidates p)) (\<lambda>firmware_vars.
     rbind (check_source_iso fi verify (in_artifacts inst) lock) (\<lambda>source_iso_valid.
       (let calibration = calibration_state verify (qp_name p) (in_artifacts inst) (in_calibration inst);
            realized = realized_state verify (qp_name p) (in_artifacts inst) lock (rd_ready calibration) (in_realized inst);
            stages = stages_of (in_tools inst) (in_keyring inst) firmware_code firmware_vars;
            action = next_action source_lock_valid (rd_ready realized) (rd_ready calibration) (in_artifacts inst)
              stages source_iso_valid (in_cache_root inst @ ''/reference/'' @ py_str fr filename)
        in rbind (py_item lock ''reference_id'') (\<lambda>_.
             Inr \<lparr>pf_source_lock_valid = source_lock_valid, pf_stages = stages,
                  pf_source_iso_valid = source_iso_valid, pf_calibration = calibration,
                  pf_realized_lock = realized, pf_materialization_ready = (action = None),
                  pf_next_action = action\<rparr>)))))))"

section \<open>What the report means\<close>

lemma py_eq_digest: "py_eq v (PStr s) \<longleftrightarrow> v = PStr s"
  by (cases v) auto

lemma next_action_None: "next_action v r c arts st siv path = None \<longleftrightarrow> v \<and> r"
  by (simp add: next_action_def)

lemma next_action_realize:
  "next_action v r c arts st siv path = Some ''osbench reference lock-realize'' \<longleftrightarrow>
     v \<and> \<not> r \<and> c \<and>
     list_all (present arts) [''payload_iso'', ''reference_image'', ''inventory_manifest'', ''rootfs_tar'', ''oci_archive'']"
  by (auto simp: next_action_def)

lemma recorded_verified: "present arts name \<Longrightarrow> \<exists>f. arts name = Some f \<and> recorded_sha256 True arts name = PStr (af_sha256 f)"
  by (auto simp: present_def recorded_sha256_def)

lemma realized_verified:
  assumes "rd_ready (realized_state True profile arts lock cal document)"
  shows "\<exists>d resolved. document = Inr d \<and> pget_default d ''resolved_from_installed_system'' PNone = resolved \<and> cal \<and>
    (\<forall>(k, name)\<in>set BINDINGS. \<exists>f. arts name = Some f \<and> pget_default resolved k PNone = PStr (af_sha256 f))"
proof -
  from assms obtain d where d: "document = Inr d" "structurally_ready profile arts lock cal d"
    "lock_binding True arts (pget_default d ''resolved_from_installed_system'' PNone)"
    by (auto simp: realized_state_def not_ready_def Let_def split: sum.splits if_splits)
  have arts: "present arts name" if "(k, name) \<in> set BINDINGS" for k name
    using d(2) that by (auto simp: structurally_ready_def Let_def REALIZED_ARTIFACTS_def BINDINGS_def)
  have "\<exists>f. arts name = Some f \<and> pget_default (pget_default d ''resolved_from_installed_system'' PNone) k PNone = PStr (af_sha256 f)"
    if b: "(k, name) \<in> set BINDINGS" for k name
  proof -
    obtain f where f: "arts name = Some f" "recorded_sha256 True arts name = PStr (af_sha256 f)"
      using recorded_verified [OF arts [OF b]] by blast
    moreover have "py_eq (pget_default (pget_default d ''resolved_from_installed_system'' PNone) k PNone) (recorded_sha256 True arts name)"
      using d(3) b by (auto simp: lock_binding_def list_all_iff)
    ultimately show ?thesis by (simp add: py_eq_digest)
  qed
  moreover have cal using d(2) by (simp add: structurally_ready_def Let_def)
  ultimately show ?thesis using d(1) by auto
qed


section \<open>A complete installation\<close>

definition ready_profile :: qemu_profile where
  "ready_profile =
     \<lparr>qp_name = PStr ''macos_tcg'', qp_binary = ''qemu-system-x86_64'', qp_machine = ''q35'',
      qp_accelerator = ''tcg'', qp_cpu = ''max'', qp_memory_mb = 2048, qp_smp = 2,
      qp_code_candidates = [PStr ''code.fd''], qp_vars_candidates = [PStr ''vars.fd''],
      qp_disk_interface = ''virtio'', qp_network_device = ''virtio-net-pci'', qp_rng_device = ''virtio-rng-pci'',
      qp_boot_timeout = 180, qp_case_timeout = 30, qp_shutdown_timeout = 20\<rparr>"

definition ready_digest :: "string \<Rightarrow> string" where
  "ready_digest name = take 64 (name @ replicate 64 (CHR ''0''))"

definition ready_lock :: pv where
  "ready_lock =
     PDict [(''reference_id'', PStr REFERENCE_ID),
            (''source'', PDict [(''filename'', PStr ''debian.iso''), (''size_bytes'', PInt 7), (''sha256'', PStr (ready_digest ''source_iso''))])]"

definition ready_realized :: pv where
  "ready_realized =
     PDict [(''benchmark_version'', PStr BENCHMARK_VERSION), (''reference_id'', PStr REFERENCE_ID), (''status'', PStr ''materialized''),
       (''resolved_from_installed_system'', PDict
          ([(''package_manifest_sha256'', PStr ''p''), (''kernel_version'', PStr ''6''), (''systemd_version'', PStr ''257''),
            (''libc_version'', PStr ''2''), (''unsynced_outcome_calibration_profile'', PStr ''macos_tcg'')] @
           map (\<lambda>(k, name). (k, PStr (ready_digest name))) BINDINGS))]"

definition ready_calibration :: pv where
  "ready_calibration =
     PDict [(''schema_version'', PStr ''osbench.accepted_outcomes.v1''), (''benchmark_version'', PStr BENCHMARK_VERSION),
            (''reference_id'', PStr REFERENCE_ID), (''contract'', PStr CALIBRATED), (''profile'', PStr ''macos_tcg''),
            (''outcomes'', PList [PStr ''prefix'']),
            (''reference_image_sha256'', PStr (ready_digest ''reference_image'')),
            (''payload_sha256'', PStr (ready_digest ''payload_iso''))]"

definition ready_installation :: installation where
  "ready_installation =
     \<lparr>in_artifacts = (\<lambda>name. Some \<lparr>af_size = 7, af_sha256 = ready_digest name\<rparr>), in_tools = (\<lambda>_. True), in_keyring = True,
      in_is_file = (\<lambda>_. True), in_calibration = Inr ready_calibration, in_realized = Inr ready_realized,
      in_cache_root = ''/cache''\<rparr>"

lemma ready_preflight:
  "case preflight_reference (\<lambda>_. []) (\<lambda>_. None) True ready_profile ready_lock True ready_installation of
     Inr report \<Rightarrow> pf_next_action report = None | _ \<Rightarrow> False"
  by code_simp


end
