(* ===== verification/Bootstrap.thy ===== *)
theory Bootstrap
  imports Contracts
begin

text \<open>
  \<open>tools/bootstrap_contracts.py\<close>: the generation of the Contract corpus from the catalog. The
  catalog is ordered by level with one root in front; every other item gets prerequisites among
  the items before it, in three passes, the last of which is a loop that need not end; then each
  item becomes a Contract document, and the documents replace the files of the corpus. Catalog ids
  are ASCII.
\<close>

section \<open>Tables\<close>

definition BOOT_LEVELS :: "string list" where
  "BOOT_LEVELS =
     [''boot'', ''machine'', ''linux_primitives'', ''kernel_subsystems'',
      ''linux_process_environment'', ''posix_userspace'', ''linux_system'', ''distro'',
      ''package_ecosystem'', ''real_workloads'', ''full_reconstruction'']"

definition CASE_DIMENSIONS :: "string list" where
  "CASE_DIMENSIONS =
     [''primitive'', ''boundary'', ''state_transition'', ''composition'', ''concurrency'',
      ''isolation'', ''failure'', ''persistence'', ''exhaustion'', ''workload'', ''performance'']"

definition SOURCE_BY_LEVEL :: "(string \<times> string \<times> string) list" where
  "SOURCE_BY_LEVEL =
     [(''boot'', ''linux'', ''Linux kernel boot protocol and UEFI observable behavior''),
      (''machine'', ''linux'', ''Linux x86-64 ABI and QEMU virtual hardware behavior''),
      (''linux_primitives'', ''posix'', ''POSIX.1-2024 and Linux man-pages''),
      (''kernel_subsystems'', ''linux'', ''Linux man-pages, UAPI, kselftest, and LTP coverage''),
      (''linux_process_environment'', ''linux'', ''Linux ABI documentation and man-pages''),
      (''posix_userspace'', ''posix'', ''POSIX.1-2024 utilities and shell requirements''),
      (''linux_system'', ''linux'', ''Linux UAPI and admin-guide ABI documentation''),
      (''distro'', ''debian'', ''Debian 13.6 reference oracle and Debian Policy''),
      (''package_ecosystem'', ''autopkgtest'', ''Debian Policy, dpkg behavior, and offline package oracle''),
      (''real_workloads'', ''debian_oracle'', ''Unmodified workload execution on the pinned Debian reference''),
      (''full_reconstruction'', ''empirical'', ''End-to-end differential workflow on the pinned Debian reference'')]"

definition OBSERVABLES_BY_DOMAIN :: "(string \<times> string list) list" where
  "OBSERVABLES_BY_DOMAIN =
     [(''boot'', [''boot_log'', ''serial_output'', ''exit_code'']),
      (''machine'', [''syscall_return'', ''signal'', ''device_state'', ''timing'']),
      (''filesystem'', [''syscall_return'', ''errno'', ''filesystem_state'', ''file_contents'', ''metadata'', ''links'']),
      (''fd'', [''syscall_return'', ''errno'', ''fd_state'']),
      (''process'', [''syscall_return'', ''errno'', ''exit_code'', ''process_tree'', ''environment'']),
      (''thread'', [''syscall_return'', ''errno'', ''process_tree'', ''memory_state'']),
      (''signal'', [''syscall_return'', ''errno'', ''signal'', ''process_tree'']),
      (''memory'', [''syscall_return'', ''errno'', ''memory_state'', ''resource_usage'']),
      (''socket'', [''syscall_return'', ''errno'', ''socket_behavior'']),
      (''network'', [''socket_behavior'', ''packet_trace'', ''identity'']),
      (''permission'', [''syscall_return'', ''errno'', ''permissions'', ''identity'']),
      (''identity'', [''identity'', ''permissions'', ''environment'']),
      (''package'', [''exit_code'', ''stdout'', ''stderr'', ''package_state'', ''filesystem_state'', ''service_state'']),
      (''service'', [''exit_code'', ''service_state'', ''boot_log'']),
      (''persistence'', [''persistent_state'', ''filesystem_state'', ''service_state'', ''package_state'']),
      (''workload'', [''exit_code'', ''stdout'', ''stderr'', ''filesystem_state'', ''socket_behavior'']),
      (''full'', [''boot_log'', ''exit_code'', ''persistent_state'', ''service_state'', ''package_state''])]"

definition NORMALIZATION_BY_DOMAIN :: "(string \<times> string list) list" where
  "NORMALIZATION_BY_DOMAIN =
     [(''filesystem'', [''temporary_paths'', ''inode'', ''timestamps'', ''directory_order'']),
      (''fd'', [''pid'']),
      (''process'', [''pid'', ''ppid'', ''timestamps'']),
      (''thread'', [''pid'', ''tid'', ''scheduler_order'']),
      (''signal'', [''pid'', ''scheduler_order'']),
      (''scheduling'', [''pid'', ''tid'', ''scheduler_order'', ''timestamps'']),
      (''socket'', [''ephemeral_port'', ''addresses'', ''scheduler_order'']),
      (''network'', [''ephemeral_port'', ''addresses'', ''host_metadata'']),
      (''time'', [''timestamps'']),
      (''distro'', [''host_metadata'', ''timestamps'']),
      (''service'', [''pid'', ''timestamps'', ''scheduler_order'']),
      (''persistence'', [''timestamps'', ''inode'']),
      (''workload'', [''temporary_paths'', ''pid'', ''timestamps'', ''ephemeral_port'']),
      (''full'', [''temporary_paths'', ''pid'', ''timestamps'', ''ephemeral_port'', ''inode''])]"

definition WORKLOADS :: "string list" where
  "WORKLOADS =
     [''static_elf'', ''dynamic_elf'', ''shell_script'', ''coreutils_pipeline'', ''pthread'',
      ''python'', ''sqlite'', ''git'', ''compression'', ''http'', ''tcp'', ''dns'', ''ssh'',
      ''compiler'', ''package_install'', ''service_start'', ''reboot_persistent'', ''full_workflow'']"

section \<open>Texts derived from an id\<close>

text \<open>\<open>str.upper\<close> and \<open>str.title\<close> on ASCII: a letter is upper case after a character that is no letter.\<close>

definition ascii_upper :: "char \<Rightarrow> char" where
  "ascii_upper c = (let n = (of_char c :: nat) in if 97 \<le> n \<and> n \<le> 122 then char_of (n - 32) else c)"

definition ascii_lower :: "char \<Rightarrow> char" where
  "ascii_lower c = (let n = (of_char c :: nat) in if 65 \<le> n \<and> n \<le> 90 then char_of (n + 32) else c)"

definition is_letter :: "char \<Rightarrow> bool" where
  "is_letter c = (let n = (of_char c :: nat) in (65 \<le> n \<and> n \<le> 90) \<or> (97 \<le> n \<and> n \<le> 122))"

fun title_case :: "bool \<Rightarrow> string \<Rightarrow> string" where
  "title_case after_letter [] = []"
| "title_case after_letter (c # cs) =
     (if after_letter then ascii_lower c else ascii_upper c) # title_case (is_letter c) cs"

definition replace_char :: "char \<Rightarrow> string \<Rightarrow> string \<Rightarrow> string" where
  "replace_char old new s = concat (map (\<lambda>c. if c = old then new else [c]) s)"

definition title :: "string \<Rightarrow> string" where
  "title contract_id =
     join '' '' (map (\<lambda>token.
         if token \<in> {''elf'', ''ipc'', ''tty'', ''dns'', ''tcp'', ''udp'', ''vfs'', ''uid'', ''gid''}
         then map ascii_upper token
         else title_case False (replace_char (CHR ''_'') '' '' token))
       (split_on (CHR ''.'') contract_id))"

definition operation :: "string \<Rightarrow> string" where
  "operation contract_id = join ''.'' (drop 1 (split_on (CHR ''.'') contract_id))"

definition ALIASES :: "(string \<times> string) list" where
  "ALIASES =
     [(''c_compile_link_run'', ''compiler''), (''coreutils_pipeline'', ''coreutils_pipeline''),
      (''dynamic_elf'', ''dynamic_elf''), (''static_elf'', ''static_elf''),
      (''pthread_program'', ''pthread''), (''python_basic'', ''python''),
      (''sqlite_transaction'', ''sqlite''), (''git_repository'', ''git''),
      (''compression_roundtrip'', ''compression''), (''http_server_client'', ''http''),
      (''tcp_client_server'', ''tcp''), (''dns_lookup'', ''dns''), (''ssh_loopback'', ''ssh''),
      (''package_install'', ''package_install''), (''service_start'', ''service_start''),
      (''shell_script'', ''shell_script'')]"

text \<open>The set \<open>links\<close> as a list: it is filtered and sorted at the end.\<close>

definition workload_links :: "string \<Rightarrow> string \<Rightarrow> string list" where
  "workload_links contract_id domain =
     (let token = replace_char (CHR ''.'') ''_'' (operation contract_id);
          links =
            (if prefix ''workload.'' contract_id
             then [case map_of ALIASES token of Some a \<Rightarrow> a | None \<Rightarrow> token] else []) @
            (if domain \<in> {''filesystem'', ''fd'', ''process'', ''shell'', ''posix''}
             then [''shell_script'', ''coreutils_pipeline''] else []) @
            (if domain \<in> {''thread'', ''sync'', ''scheduling''} then [''pthread''] else []) @
            (if domain \<in> {''socket'', ''network'', ''poll''} then [''http'', ''tcp''] else []) @
            (if domain = ''package'' then [''package_install''] else []) @
            (if domain = ''service'' then [''service_start''] else []) @
            (if domain = ''persistence'' then [''reboot_persistent''] else []) @
            (if domain = ''full'' then [''full_workflow''] else [])
      in sorted_set (filter (\<lambda>link. link \<in> set WORKLOADS) links))"

section \<open>Ordering and prerequisites\<close>

record catalog_item =
  ci_id :: string
  ci_domain :: string
  ci_level :: string
  ci_host :: bool

definition ROOT_ID :: string where
  "ROOT_ID = ''boot.firmware.uefi_entry''"

definition TARGET_EDGES :: nat where
  "TARGET_EDGES = 503"

definition level_index :: "string \<Rightarrow> nat" where
  "level_index level = length (takeWhile (\<lambda>l. l \<noteq> level) BOOT_LEVELS)"

text \<open>The sort keys raise for the first item whose level is unknown.\<close>

definition ordered_items :: "catalog_item list \<Rightarrow> catalog_item list result" where
  "ordered_items catalog =
     (case find (\<lambda>item. ci_level item \<notin> set BOOT_LEVELS) catalog of
        Some item \<Rightarrow> Inl (KeyError (ci_level item))
      | None \<Rightarrow>
          Inr (sort_key (\<lambda>item. (if ci_id item = ROOT_ID then 0 else 1 :: nat, level_index (ci_level item), ci_id item))
            (sort_key (\<lambda>item. (level_index (ci_level item), ci_id item)) catalog)))"

text \<open>\<open>list(dict.fromkeys(xs))\<close>.\<close>

definition from_keys :: "string list \<Rightarrow> string list" where
  "from_keys xs = map fst (dict_of (\<lambda>x. x) (\<lambda>x. ()) xs)"

definition set_default :: "'k \<Rightarrow> 'v \<Rightarrow> ('k, 'v) dict \<Rightarrow> ('k, 'v) dict" where
  "set_default k v d = (if k \<in> fst ` set d then d else AList.update k v d)"

record plan =
  pl_prerequisites :: "(string, string list) dict"
  pl_last_domain :: "(string, string) dict"
  pl_anchor :: "(string, string) dict"
  pl_prior :: "string list"

definition candidates_of :: "catalog_item \<Rightarrow> plan \<Rightarrow> string list" where
  "candidates_of item s =
     (case map_of (pl_last_domain s) (ci_domain item) of Some c \<Rightarrow> [c] | None \<Rightarrow> []) @
     (case map_of (pl_anchor s) (BOOT_LEVELS ! (level_index (ci_level item) - 1)) of Some c \<Rightarrow> [c] | None \<Rightarrow> [])"

definition note_item :: "catalog_item \<Rightarrow> plan \<Rightarrow> plan" where
  "note_item item s =
     s\<lparr>pl_last_domain := AList.update (ci_domain item) (ci_id item) (pl_last_domain s),
       pl_anchor := set_default (ci_level item) (ci_id item) (pl_anchor s),
       pl_prior := pl_prior s @ [ci_id item]\<rparr>"

definition plan_item :: "catalog_item \<Rightarrow> plan \<Rightarrow> plan result" where
  "plan_item item s =
     (if ci_id item = ROOT_ID then Inr (note_item item s)
      else if candidates_of item s = [] \<and> pl_prior s = []
      then Inl (OtherError ''IndexError'' ''list index out of range'')
      else
        (let candidates = (if candidates_of item s = [] then [last (pl_prior s)] else candidates_of item s)
         in Inr (note_item item
              (s\<lparr>pl_prerequisites := AList.update (ci_id item) (from_keys candidates) (pl_prerequisites s)\<rparr>))))"

fun plan_items :: "catalog_item list \<Rightarrow> plan \<Rightarrow> plan result" where
  "plan_items [] s = Inr s"
| "plan_items (item # items) s = rbind (plan_item item s) (plan_items items)"

definition first_plan :: plan where
  "first_plan = \<lparr>pl_prerequisites = [(ROOT_ID, [])], pl_last_domain = [], pl_anchor = [], pl_prior = []\<rparr>"

text \<open>The prerequisites and the number of edges, \<open>current\<close>.\<close>

type_synonym edges = "(string, string list) dict \<times> nat"

definition edge_count :: "(string, string list) dict \<Rightarrow> nat" where
  "edge_count pr = sum_list (map (\<lambda>(k, ds). length ds) pr)"

fun add_choices :: "string \<Rightarrow> string list \<Rightarrow> edges \<Rightarrow> edges" where
  "add_choices cid [] s = s"
| "add_choices cid (c # cs) (pr, n) =
     (if TARGET_EDGES \<le> n then (pr, n)
      else add_choices cid cs
        (if c \<noteq> cid \<and> c \<notin> set (dict_get pr cid []) then (dict_append cid c pr, Suc n) else (pr, n)))"

definition choices_at :: "string list \<Rightarrow> nat \<Rightarrow> string list" where
  "choices_at ids i =
     (let earlier = take i ids in
      [earlier ! 0, earlier ! (i div 3), earlier ! (i div 2), last earlier])"

definition widen :: "string list \<Rightarrow> edges \<Rightarrow> edges" where
  "widen ids s =
     foldl (\<lambda>s (i, cid). if TARGET_EDGES \<le> snd s \<or> i < 2 then s else add_choices cid (choices_at ids i) s)
       s (enumerate 0 ids)"

text \<open>One pass of the loop at \<open>cursor\<close>, for a catalog that is not empty.\<close>

definition top_up_step :: "string list \<Rightarrow> nat \<Rightarrow> edges \<Rightarrow> edges" where
  "top_up_step ids cursor s =
     (let cid = ids ! (cursor mod length ids);
          earlier = takeWhile (\<lambda>x. x \<noteq> cid) ids
      in if earlier = [] then s
         else
           (let candidate = earlier ! ((cursor * 17) mod length earlier)
            in if candidate \<in> set (dict_get (fst s) cid []) then s
               else (dict_append cid candidate (fst s), Suc (snd s))))"

definition zero_division :: exn where
  "zero_division = OtherError ''ZeroDivisionError'' ''integer modulo by zero''"

partial_function (option) top_up :: "string list \<Rightarrow> nat \<Rightarrow> edges \<Rightarrow> edges result option" where
  "top_up ids cursor s =
     (if TARGET_EDGES \<le> snd s then Some (Inr s)
      else if ids = [] then Some (Inl zero_division)
      else top_up ids (Suc cursor) (top_up_step ids cursor s))"

section \<open>Documents\<close>

definition p_strs :: "string list \<Rightarrow> pv" where
  "p_strs xs = PList (map PStr xs)"

definition peers_of :: "string list \<Rightarrow> nat \<Rightarrow> string \<Rightarrow> string list" where
  "peers_of ids index cid =
     filter (\<lambda>peer. peer \<noteq> cid) (map (\<lambda>offset. ids ! ((index + offset) mod length ids)) [1, 7])"

definition faults_of :: "catalog_item \<Rightarrow> string list" where
  "faults_of item =
     [''invalid_argument'', ''resource_exhaustion'', ''interrupted_operation''] @
     (if ci_level item \<in> {''distro'', ''package_ecosystem'', ''full_reconstruction''} then [''power_loss''] else []) @
     (if ci_domain item \<in> {''permission'', ''security'', ''identity''} then [''permission_denied''] else [])"

definition transport_of :: "catalog_item \<Rightarrow> string" where
  "transport_of item =
     (if ci_id item \<in> {''boot.firmware.uefi_entry'', ''boot.kernel.entry'', ''boot.rootfs.mount''} then ''serial''
      else if ci_host item then ''host'' else ''guest_agent'')"

definition difficulty_of :: "string \<Rightarrow> string" where
  "difficulty_of level =
     (if level \<in> {''boot'', ''machine'', ''linux_primitives''} then ''foundational''
      else if level \<in> {''real_workloads'', ''full_reconstruction''} then ''macro''
      else if level \<in> {''linux_system'', ''distro'', ''package_ecosystem''} then ''advanced''
      else ''intermediate'')"

definition description_of :: "string \<Rightarrow> string \<Rightarrow> string" where
  "description_of cid domain =
     ''Measures the externally observable Linux-compatible semantics of '' @
     replace_char (CHR ''.'') '' '' (operation cid) @ '' for the '' @ domain @
     '' abstraction, including successful execution, errors, state changes, cleanup, '' @
     ''composition, contention, and behavior under bounded resource pressure.''"

definition constant_texts :: "(string \<times> pv) list" where
  "constant_texts =
     [(''invariants'', p_strs
        [''The operation produces the same externally visible state relation as the pinned Debian reference.'',
         ''Successful completion preserves all unrelated process, filesystem, memory, device, and credential state.'',
         ''Repeated execution with the same initial state and seed remains within the Contract'' @ [CHR 0x27] @
           ''s declared equivalence relation.'']),
      (''error_conditions'', p_strs
        [''Invalid arguments return the reference error without committing forbidden partial state.'',
         ''Insufficient permissions or resources fail with reference-compatible authorization and cleanup behavior.'']),
      (''state_transitions'', p_strs
        [''initial -> operation in progress -> completed or rejected'',
         ''failure -> resources released -> known-good follow-up operation succeeds'']),
      (''cleanup_invariants'', p_strs
        [''All evaluator-created resources are released or remain only when persistence is part of the Contract.'',
         ''A failed operation does not accumulate leaked descriptors, processes, memory, locks, sockets, or package state.'']),
      (''resource_invariants'', p_strs
        [''Resource ownership and accounting match the observable reference relation.'',
         ''Exhaustion is bounded and leaves the system able to execute a known-good follow-up operation.'']),
      (''legal_nondeterminism'', p_strs
        [''Opaque identifiers and scheduling order may differ only when explicitly normalized.''])]"

definition table_get :: "(string \<times> 'a) list \<Rightarrow> string \<Rightarrow> 'a \<Rightarrow> 'a" where
  "table_get table k dflt = (case map_of table k of Some v \<Rightarrow> v | None \<Rightarrow> dflt)"

definition contract_doc ::
  "string list \<Rightarrow> (string, string list) dict \<Rightarrow> nat \<Rightarrow> catalog_item \<Rightarrow> pv" where
  "contract_doc ids pr index item =
     (let cid = ci_id item; domain = ci_domain item; level = ci_level item;
          source = table_get SOURCE_BY_LEVEL level ([], [])
      in PDict ([(''schema_version'', PStr ''osbench.contract.v1''),
          (''id'', PStr cid),
          (''title'', PStr (title cid)),
          (''domain'', PStr domain),
          (''level'', PStr level),
          (''abstraction'', PStr (hd (split_on (CHR ''.'') cid))),
          (''operation'', PStr (operation cid)),
          (''description'', PStr (description_of cid domain)),
          (''prerequisites'', p_strs (dict_get pr cid [])),
          (''sources'', PList
             [PDict [(''type'', PStr (fst source)), (''reference'', PStr (snd source))],
              PDict [(''type'', PStr ''book''),
                (''reference'', PStr ''Modern Operating Systems, 5th ed., relevant subsystem and design chapters'')]]),
          (''observables'', p_strs (table_get OBSERVABLES_BY_DOMAIN domain
             [''syscall_return'', ''errno'', ''stdout'', ''stderr'', ''exit_code''])),
          (''normalization'', p_strs (table_get NORMALIZATION_BY_DOMAIN domain [''none''])),
          (''equivalence'', PDict [(''type'', PStr ''semantic''), (''comparator'', PStr ''osbench.comparators.compare'')])] @
         constant_texts @
         [(''case_dimensions'', p_strs CASE_DIMENSIONS),
          (''orthogonal_with'', p_strs (sorted_set (peers_of ids index cid))),
          (''fault_injection'', p_strs (sorted_set (faults_of item))),
          (''generator'', PDict
             [(''implementation'', PStr ''generators.common.contract_case''), (''version'', PStr ''1''),
              (''parameters'', PDict [(''contract_id'', PStr cid)]),
              (''probe'', PStr (if ci_host item then ''generic'' else ''guest.generic'')),
              (''cases_per_contract'', PInt 10)]),
          (''timeouts'', PDict [(''case_seconds'', PInt 20), (''boot_seconds'', PInt 240)]),
          (''transport'', PStr (transport_of item)),
          (''workloads'', p_strs (workload_links cid domain)),
          (''difficulty'', PStr (difficulty_of level)),
          (''status'', PStr ''accepted''),
          (''tags'', p_strs (sorted_set [domain, level, ''linux'', ''behavioral'']))]))"

definition contract_docs :: "catalog_item list \<Rightarrow> (string, string list) dict \<Rightarrow> pv list" where
  "contract_docs ordered pr =
     map (\<lambda>(index, item). contract_doc (map ci_id ordered) pr index item) (enumerate 0 ordered)"

definition edge_mismatch :: "nat \<Rightarrow> exn" where
  "edge_mismatch n = RuntimeError (''('' @ str_of_nat n @ '', '' @ str_of_nat TARGET_EDGES @ '')'')"

definition build_contracts :: "catalog_item list \<Rightarrow> pv list result option" where
  "build_contracts catalog =
     (case ordered_items catalog of
        Inl e \<Rightarrow> Some (Inl e)
      | Inr ordered \<Rightarrow>
          (case plan_items ordered first_plan of
             Inl e \<Rightarrow> Some (Inl e)
           | Inr s \<Rightarrow>
               (let ids = map ci_id ordered; pr = pl_prerequisites s in
                case top_up ids 2 (widen ids (pr, edge_count pr)) of
                  None \<Rightarrow> None
                | Some (Inl e) \<Rightarrow> Some (Inl e)
                | Some (Inr (pr', n)) \<Rightarrow>
                    Some (if n \<noteq> TARGET_EDGES then Inl (edge_mismatch n)
                          else Inr (contract_docs ordered pr')))))"

section \<open>Writing the corpus\<close>

text \<open>
  \<open>main\<close>: the files below \<open>contracts\<close> by their parts, each with the document it parses to. A
  Contract is written under the directory of its domain.
\<close>

type_synonym corpus_files = "(string list, pv) dict"

definition contract_path :: "pv \<Rightarrow> string list" where
  "contract_path doc =
     [str_field doc ''domain'', replace_char (CHR ''.'') ''__'' (str_field doc ''id'') @ ''.yaml'']"

definition unlink_contracts :: "corpus_files \<Rightarrow> corpus_files" where
  "unlink_contracts files =
     filter (\<lambda>(parts, _). \<not> (length parts = 2 \<and> suffix ''.yaml'' (last parts))) files"

definition write_contracts :: "pv list \<Rightarrow> corpus_files \<Rightarrow> corpus_files" where
  "write_contracts docs files =
     foldl (\<lambda>fs doc. AList.update (contract_path doc) doc fs) (unlink_contracts files) docs"

text \<open>What the loader of the package then finds.\<close>

definition corpus_listing :: "corpus_files \<Rightarrow> (string \<times> pv result) list" where
  "corpus_listing files =
     map (\<lambda>parts. (join ''/'' parts, Inr (dict_get files parts PNone))) (contract_files (map fst files))"

end
