(* ===== verification/BootstrapFacts.thy ===== *)
theory BootstrapFacts
  imports Bootstrap
begin

text \<open>
  The corpus generated from a catalog: prerequisites point backwards in the order of the items, so
  the capability graph is acyclic and the validator accepts what is written; the number of edges is
  the published one whenever generation returns; and when it returns.
\<close>

section \<open>Order\<close>

lemma ordered_items_Inr:
  assumes "ordered_items catalog = Inr ordered"
  shows "mset ordered = mset catalog" and "\<forall>item\<in>set ordered. ci_level item \<in> set BOOT_LEVELS"
proof -
  show *: "mset ordered = mset catalog"
    using assms by (auto simp: ordered_items_def split: option.splits)
  have "\<forall>item\<in>set catalog. ci_level item \<in> set BOOT_LEVELS"
    using assms by (auto simp: ordered_items_def find_None_iff split: option.splits)
  then show "\<forall>item\<in>set ordered. ci_level item \<in> set BOOT_LEVELS"
    using mset_eq_setD [OF *] by simp
qed

lemma ordered_ids:
  assumes "ordered_items catalog = Inr ordered"
  shows "mset (map ci_id ordered) = mset (map ci_id catalog)"
  using ordered_items_Inr(1) [OF assms] by simp

lemma ordered_items_ok:
  "ordered_items catalog = Inr ordered \<Longrightarrow> length ordered = length catalog \<and> set ordered = set catalog"
  using ordered_items_Inr(1) by (metis mset_eq_setD size_mset)

lemma ordered_root_first:
  assumes "ordered_items catalog = Inr ordered" and "ROOT_ID \<in> ci_id ` set catalog"
  shows "ordered \<noteq> [] \<and> ci_id (hd ordered) = ROOT_ID"
proof -
  let ?key = "\<lambda>item. (if ci_id item = ROOT_ID then 0 else 1 :: nat, level_index (ci_level item), ci_id item)"
  have s: "sorted (map ?key ordered)"
    using assms(1) by (auto simp: ordered_items_def split: option.splits)
  obtain r where r: "r \<in> set ordered" "ci_id r = ROOT_ID"
    using assms ordered_items_ok by fastforce
  obtain x xs where o: "ordered = x # xs" using r by (cases ordered) auto
  have "?key x \<le> ?key r" using s r(1) o by auto
  then have "ci_id x = ROOT_ID" using r(2) by (auto simp: less_eq_prod_def split: if_splits)
  then show ?thesis using o by simp
qed

section \<open>Dictionaries of edges\<close>

definition backwards :: "string list \<Rightarrow> (string, string list) dict \<Rightarrow> bool" where
  "backwards ids pr \<longleftrightarrow>
     (\<forall>k. set (dict_get pr k []) \<subseteq> set (takeWhile (\<lambda>x. x \<noteq> k) ids) \<and> distinct (dict_get pr k [])) \<and>
     fst ` set pr \<subseteq> set ids \<and> distinct (map fst pr)"

lemma takeWhile_take_nth:
  assumes "distinct ids" and "i < length ids"
  shows "takeWhile (\<lambda>x. x \<noteq> ids ! i) ids = take i ids"
proof (rule takeWhile_eq_take_P_nth)
  fix j assume "j < i" "j < length ids"
  then show "ids ! j \<noteq> ids ! i" using assms by (simp add: nth_eq_iff_index_eq)
qed simp

lemma edge_count_append:
  "distinct (map fst pr) \<Longrightarrow> edge_count (dict_append k v pr) = Suc (edge_count pr)"
proof -
  have "edge_count (AList.update k ds pr) + length (dict_get pr k []) = edge_count pr + length ds"
    if "distinct (map fst pr)" for ds
    using that
    by (induction pr) (auto simp: edge_count_def dict_get_def split: option.splits prod.splits)
  from this [of "dict_get pr k [] @ [v]"] show "distinct (map fst pr) \<Longrightarrow> ?thesis"
    by (simp add: dict_append_def)
qed

lemma backwards_append:
  assumes "backwards ids pr" and "k \<in> set ids" and "v \<in> set (takeWhile (\<lambda>x. x \<noteq> k) ids)"
    and "v \<notin> set (dict_get pr k [])"
  shows "backwards ids (dict_append k v pr)"
  using assms by (auto simp: backwards_def dict_simps distinct_dict_append)

section \<open>The three passes\<close>

subsection \<open>The plan\<close>

definition plan_ok :: "string list \<Rightarrow> nat \<Rightarrow> plan \<Rightarrow> bool" where
  "plan_ok ids i s \<longleftrightarrow>
     pl_prior s = take i ids \<and>
     (\<forall>d c. map_of (pl_last_domain s) d = Some c \<longrightarrow> c \<in> set (take i ids)) \<and>
     (\<forall>d c. map_of (pl_anchor s) d = Some c \<longrightarrow> c \<in> set (take i ids)) \<and>
     (\<forall>k. length (dict_get (pl_prerequisites s) k []) \<le> 2) \<and>
     backwards ids (pl_prerequisites s)"

lemma from_keys_facts: "set (from_keys xs) = set xs" "distinct (from_keys xs)"
  using keys_dict_of [of "\<lambda>x. x" "\<lambda>x. ()" xs] distinct_dict_of [of "\<lambda>x. x" "\<lambda>x. ()" xs]
  by (simp_all add: from_keys_def)

lemma length_from_keys: "length (from_keys xs) \<le> length xs"
  by (metis card_length distinct_card from_keys_facts)

lemma candidates_earlier: "plan_ok ids i s \<Longrightarrow> set (candidates_of item s) \<subseteq> set (take i ids)"
  by (auto simp: plan_ok_def candidates_of_def split: option.splits)

lemma length_candidates: "length (candidates_of item s) \<le> 2"
  by (simp add: candidates_of_def split: option.split)

lemma note_item_ok:
  assumes "plan_ok ids i s" and "i < length ids" and "ci_id item = ids ! i"
  shows "plan_ok ids (Suc i) (note_item item s)"
  using assms
  by (auto simp: plan_ok_def note_item_def set_default_def dict_simps take_Suc_conv_app_nth split: if_splits)

lemma plan_item_ok:
  assumes "plan_ok ids i s" and "distinct ids" and "i < length ids" and "ci_id item = ids ! i"
    and "plan_item item s = Inr t"
  shows "plan_ok ids (Suc i) t"
proof (cases "ci_id item = ROOT_ID")
  case True
  then have "t = note_item item s" using assms(5) by (simp add: plan_item_def)
  then show ?thesis using note_item_ok [OF assms(1,3,4)] by simp
next
  case False
  define cs where "cs = (if candidates_of item s = [] then [last (pl_prior s)] else candidates_of item s)"
  define s' where "s' = s\<lparr>pl_prerequisites := AList.update (ci_id item) (from_keys cs) (pl_prerequisites s)\<rparr>"
  have t: "t = note_item item s'" and ne: "candidates_of item s = [] \<longrightarrow> pl_prior s \<noteq> []"
    using False assms(5) by (auto simp: plan_item_def cs_def s'_def Let_def split: if_splits)
  have "set cs \<subseteq> set (take i ids)"
    using candidates_earlier [OF assms(1), of item] ne last_in_set [of "pl_prior s"] assms(1)
    by (auto simp: cs_def plan_ok_def)
  moreover have "takeWhile (\<lambda>x. x \<noteq> ci_id item) ids = take i ids"
    using takeWhile_take_nth assms by simp
  ultimately have "backwards ids (pl_prerequisites s')"
    using assms(1,3,4)
    by (auto simp: plan_ok_def s'_def backwards_def dict_simps from_keys_facts distinct_update)
  moreover have "length (from_keys cs) \<le> 2"
    using length_from_keys [of cs] length_candidates [of item s] by (auto simp: cs_def)
  ultimately have "plan_ok ids i s'" using assms(1) by (simp add: plan_ok_def s'_def dict_simps)
  then show ?thesis using t note_item_ok assms(3,4) by simp
qed

lemma plan_items_ok:
  assumes "plan_items items s = Inr t" and "plan_ok ids i s" and "distinct ids"
    and "map ci_id items = drop i ids"
  shows "plan_ok ids (length ids) t"
  using assms
proof (induction items arbitrary: i s)
  case Nil
  then have "length ids \<le> i" by simp
  with Nil show ?case by (simp add: plan_ok_def)
next
  case (Cons item items)
  have i: "i < length ids" using Cons.prems(4) by (metis drop_eq_Nil leI list.discI list.simps(9))
  then have e: "ci_id item = ids ! i" "map ci_id items = drop (Suc i) ids"
    using Cons.prems(4) by (auto simp: Cons_nth_drop_Suc [symmetric])
  obtain u where "plan_item item s = Inr u" "plan_items items u = Inr t"
    using Cons.prems(1) by (auto simp: result_simps)
  with Cons.IH [of u "Suc i"] plan_item_ok [OF Cons.prems(2,3) i e(1)] e(2) Cons.prems(3)
  show ?case by simp
qed

lemma first_plan_ok: "ROOT_ID \<in> set ids \<Longrightarrow> plan_ok ids 0 first_plan"
  by (simp add: plan_ok_def first_plan_def backwards_def dict_get_def)

text \<open>With the root in front, planning does not raise.\<close>

lemma plan_items_total:
  assumes "items = [] \<or> ci_id (hd items) = ROOT_ID \<or> pl_prior s \<noteq> []"
  shows "\<exists>t. plan_items items s = Inr t"
  using assms
proof (induction items arbitrary: s)
  case (Cons item items)
  have "\<exists>t. plan_item item s = Inr t \<and> pl_prior t \<noteq> []"
    using Cons.prems by (auto simp: plan_item_def note_item_def Let_def)
  then show ?case using Cons.IH by fastforce
qed simp

section \<open>Widening and topping up\<close>

definition edges_ok :: "string list \<Rightarrow> edges \<Rightarrow> bool" where
  "edges_ok ids s \<longleftrightarrow> backwards ids (fst s) \<and> snd s = edge_count (fst s)"

text \<open>What later edges keep: the earlier ones; and the number of edges does not pass the target.\<close>

definition grows :: "edges \<Rightarrow> edges \<Rightarrow> bool" where
  "grows s t \<longleftrightarrow> (\<forall>k. set (dict_get (fst s) k []) \<subseteq> set (dict_get (fst t) k [])) \<and> snd s \<le> snd t \<and>
     (snd s \<le> TARGET_EDGES \<longrightarrow> snd t \<le> TARGET_EDGES)"

lemma grows_refl [simp]: "grows s s"
  by (simp add: grows_def)

lemma grows_trans: "grows s t \<Longrightarrow> grows t u \<Longrightarrow> grows s u"
  by (auto simp: grows_def)

lemma grows_append:
  "n < TARGET_EDGES \<Longrightarrow> grows (pr, n) (dict_append k v pr, Suc n)"
  by (auto simp: grows_def dict_simps)

lemma edges_ok_append:
  assumes "edges_ok ids (pr, n)" and "k \<in> set ids" and "v \<in> set (takeWhile (\<lambda>x. x \<noteq> k) ids)"
    and "v \<notin> set (dict_get pr k [])"
  shows "edges_ok ids (dict_append k v pr, Suc n)"
  using assms backwards_append [of ids pr k v] edge_count_append [of pr k v]
  by (simp add: edges_ok_def backwards_def)

lemma add_choices_facts:
  assumes "edges_ok ids s" and "cid \<in> set ids" and "set cs \<subseteq> insert cid (set (takeWhile (\<lambda>x. x \<noteq> cid) ids))"
  shows "edges_ok ids (add_choices cid cs s) \<and> grows s (add_choices cid cs s) \<and>
    (snd (add_choices cid cs s) < TARGET_EDGES \<longrightarrow>
       set cs - {cid} \<subseteq> set (dict_get (fst (add_choices cid cs s)) cid []))"
  using assms
proof (induction cid cs s rule: add_choices.induct)
  case (2 cid c cs pr n)
  show ?case
  proof (cases "TARGET_EDGES \<le> n")
    case True
    with 2 show ?thesis by simp
  next
    case False
    define s' where
      "s' = (if c \<noteq> cid \<and> c \<notin> set (dict_get pr cid []) then (dict_append cid c pr, Suc n) else (pr, n))"
    have ok: "edges_ok ids s'" using 2 edges_ok_append by (auto simp: s'_def)
    have g: "grows (pr, n) s'" using False grows_append by (simp add: s'_def)
    have c: "c \<noteq> cid \<longrightarrow> c \<in> set (dict_get (fst s') cid [])" by (auto simp: s'_def dict_simps)
    have eq: "add_choices cid (c # cs) (pr, n) = add_choices cid cs s'"
      using False by (simp add: s'_def)
    have IH: "edges_ok ids (add_choices cid cs s') \<and> grows s' (add_choices cid cs s') \<and>
      (snd (add_choices cid cs s') < TARGET_EDGES \<longrightarrow>
         set cs - {cid} \<subseteq> set (dict_get (fst (add_choices cid cs s')) cid []))"
      using 2 False ok unfolding s'_def by simp
    have kept: "c \<noteq> cid \<longrightarrow> c \<in> set (dict_get (fst (add_choices cid cs s')) cid [])"
      using IH c by (auto simp: grows_def)
    show ?thesis unfolding eq using IH kept g grows_trans by auto
  qed
qed auto

lemma choices_earlier:
  assumes "2 \<le> i" and "i < length ids"
  shows "set (choices_at ids i) \<subseteq> set (take i ids)"
proof -
  have "take i ids \<noteq> []" "length (take i ids) = i" using assms by auto
  then have "last (take i ids) = ids ! (i - 1)" using assms by (simp add: last_conv_nth)
  moreover have "ids ! j \<in> set (take i ids)" if "j < i" for j
    using that assms by (metis in_set_conv_nth length_take min.absorb4 nth_take)
  ultimately show ?thesis using assms by (simp add: choices_at_def Let_def)
qed

text \<open>The items widened so far, as a prefix of the enumeration.\<close>

definition widen_upto :: "string list \<Rightarrow> nat \<Rightarrow> edges \<Rightarrow> edges" where
  "widen_upto ids m s =
     foldl (\<lambda>s (i, cid). if TARGET_EDGES \<le> snd s \<or> i < 2 then s else add_choices cid (choices_at ids i) s)
       s (take m (enumerate 0 ids))"

lemma widen_upto_Suc:
  "m < length ids \<Longrightarrow> widen_upto ids (Suc m) s =
     (let t = widen_upto ids m s in
      if TARGET_EDGES \<le> snd t \<or> m < 2 then t else add_choices (ids ! m) (choices_at ids m) t)"
  by (simp add: widen_upto_def take_Suc_conv_app_nth nth_enumerate_eq Let_def)

lemma widen_upto_facts:
  assumes "edges_ok ids s" and "distinct ids" and "m \<le> length ids"
  shows "edges_ok ids (widen_upto ids m s) \<and> grows s (widen_upto ids m s) \<and>
    (snd (widen_upto ids m s) < TARGET_EDGES \<longrightarrow>
       (\<forall>i. 2 \<le> i \<and> i < m \<longrightarrow> set (choices_at ids i) \<subseteq> set (dict_get (fst (widen_upto ids m s)) (ids ! i) [])))"
  using assms(3)
proof (induction m)
  case 0
  then show ?case using assms by (simp add: widen_upto_def)
next
  case (Suc m)
  let ?t = "widen_upto ids m s"
  have m: "m < length ids" using Suc by simp
  show ?case
  proof (cases "TARGET_EDGES \<le> snd ?t \<or> m < 2")
    case True
    then have eq: "widen_upto ids (Suc m) s = ?t" by (simp add: widen_upto_Suc [OF m])
    show ?thesis
      unfolding eq using Suc True m by (auto simp: less_Suc_eq)
  next
    case False
    then have eq: "widen_upto ids (Suc m) s = add_choices (ids ! m) (choices_at ids m) ?t"
      by (simp add: widen_upto_Suc [OF m])
    have tw: "takeWhile (\<lambda>x. x \<noteq> ids ! m) ids = take m ids"
      by (rule takeWhile_take_nth [OF assms(2) m])
    have ch: "set (choices_at ids m) \<subseteq> set (take m ids)"
      using choices_earlier False m by simp
    have notin: "ids ! m \<notin> set (take m ids)"
      using tw set_takeWhileD by metis
    note facts = add_choices_facts [of ids ?t "ids ! m" "choices_at ids m"]
    have *: "edges_ok ids (widen_upto ids (Suc m) s) \<and> grows ?t (widen_upto ids (Suc m) s) \<and>
      (snd (widen_upto ids (Suc m) s) < TARGET_EDGES \<longrightarrow>
        set (choices_at ids m) \<subseteq> set (dict_get (fst (widen_upto ids (Suc m) s)) (ids ! m) []))"
      unfolding eq using facts Suc m ch notin by (auto simp: tw)
    have old: "snd (widen_upto ids (Suc m) s) < TARGET_EDGES \<longrightarrow>
        (\<forall>i. 2 \<le> i \<and> i < m \<longrightarrow>
          set (choices_at ids i) \<subseteq> set (dict_get (fst (widen_upto ids (Suc m) s)) (ids ! i) []))"
      using * Suc m unfolding grows_def by (meson Suc_leD le_less_trans order_trans)
    have "grows s (widen_upto ids (Suc m) s)" using * Suc m grows_trans [of s ?t] by simp
    then show ?thesis using * old by (simp add: less_Suc_eq) blast
  qed
qed

lemma widen_facts:
  assumes "edges_ok ids s" and "distinct ids"
  shows "edges_ok ids (widen ids s)" and "grows s (widen ids s)"
    and "snd (widen ids s) < TARGET_EDGES \<Longrightarrow> 2 \<le> i \<Longrightarrow> i < length ids \<Longrightarrow>
      set (choices_at ids i) \<subseteq> set (dict_get (fst (widen ids s)) (ids ! i) [])"
  using widen_upto_facts [OF assms order_refl] by (simp_all add: widen_upto_def widen_def)

lemma top_up_step_facts:
  assumes "edges_ok ids s" and "distinct ids" and "ids \<noteq> []" and "snd s < TARGET_EDGES"
  shows "edges_ok ids (top_up_step ids cursor s)" and "grows s (top_up_step ids cursor s)"
proof -
  obtain pr n where s: "s = (pr, n)" by (cases s)
  let ?cid = "ids ! (cursor mod length ids)"
  let ?earlier = "takeWhile (\<lambda>x. x \<noteq> ?cid) ids"
  have "?cid \<in> set ids" using assms(3) by simp
  moreover have "?earlier \<noteq> [] \<Longrightarrow> ?earlier ! ((cursor * 17) mod length ?earlier) \<in> set ?earlier"
    by (intro nth_mem) simp
  ultimately show "edges_ok ids (top_up_step ids cursor s)"
    using assms edges_ok_append unfolding s by (auto simp: top_up_step_def Let_def)
  show "grows s (top_up_step ids cursor s)"
    using assms(4) grows_append unfolding s by (auto simp: top_up_step_def Let_def)
qed

lemma top_up_edges:
  assumes "top_up ids cursor s = Some r" and "edges_ok ids s" and "distinct ids"
  shows "case r of Inl e \<Rightarrow> ids = [] \<and> e = zero_division
    | Inr t \<Rightarrow> edges_ok ids t \<and> TARGET_EDGES \<le> snd t \<and> (snd s \<le> TARGET_EDGES \<longrightarrow> snd t = TARGET_EDGES)"
    (is "?P ids s r")
proof -
  have "edges_ok ids s \<longrightarrow> distinct ids \<longrightarrow> ?P ids s r"
  proof (rule top_up.raw_induct [where P = "\<lambda>ids _ s r. edges_ok ids s \<longrightarrow> distinct ids \<longrightarrow> ?P ids s r",
        OF _ assms(1)])
    fix f and ids :: "string list" and cursor and s :: edges and r
    assume IH: "\<And>ids cursor s r. f ids cursor s = Some r \<Longrightarrow> edges_ok ids s \<longrightarrow> distinct ids \<longrightarrow> ?P ids s r"
      and r: "(if TARGET_EDGES \<le> snd s then Some (Inr s) else if ids = [] then Some (Inl zero_division)
           else f ids (Suc cursor) (top_up_step ids cursor s)) = Some r"
    show "edges_ok ids s \<longrightarrow> distinct ids \<longrightarrow> ?P ids s r"
    proof (cases "TARGET_EDGES \<le> snd s \<or> ids = []")
      case True
      with r show ?thesis by (auto split: if_splits)
    next
      case False
      then have "f ids (Suc cursor) (top_up_step ids cursor s) = Some r" using r by simp
      note step = IH [OF this]
      show ?thesis
      proof (intro impI)
        assume s: "edges_ok ids s" and d: "distinct ids"
        have lt: "snd s < TARGET_EDGES" and ne: "ids \<noteq> []" using False by simp_all
        have "?P ids (top_up_step ids cursor s) r" using step top_up_step_facts(1) [OF s d ne lt] d by blast
        moreover have "snd (top_up_step ids cursor s) \<le> TARGET_EDGES"
          using top_up_step_facts(2) [OF s d ne lt, of cursor] lt by (simp add: grows_def)
        ultimately show "?P ids s r" by (cases r) simp_all
      qed
    qed
  qed
  then show ?thesis using assms by blast
qed

section \<open>Counting\<close>

lemma sum_lengths_distinct_keys:
  assumes "distinct (map fst pr)" and "distinct ids" and "fst ` set pr \<subseteq> set ids"
  shows "edge_count pr = sum_list (map (\<lambda>k. length (dict_get pr k [])) ids)"
proof -
  have "edge_count pr = sum_list (map (\<lambda>k. length (dict_get pr k [])) (map fst pr))"
  proof -
    have "length ds = length (dict_get pr k [])" if "(k, ds) \<in> set pr" for k ds
      using assms(1) that by (simp add: dict_get_def)
    then show ?thesis unfolding edge_count_def map_map
      by (intro arg_cong [where f = sum_list] map_cong) (auto split: prod.split)
  qed
  also have "\<dots> = (\<Sum>k\<in>fst ` set pr. length (dict_get pr k []))"
    using sum_list_distinct_conv_sum_set [OF assms(1)] by simp
  also have "\<dots> = (\<Sum>k\<in>set ids. length (dict_get pr k []))"
    using assms(3) by (intro sum.mono_neutral_left) (auto simp: dict_get_notin)
  also have "\<dots> = sum_list (map (\<lambda>k. length (dict_get pr k [])) ids)"
    using assms(2) by (simp add: sum_list_distinct_conv_sum_set)
  finally show ?thesis .
qed

lemma edge_count_sum:
  assumes "backwards ids pr" and "distinct ids"
  shows "edge_count pr = (\<Sum>i<length ids. length (dict_get pr (ids ! i) []))"
proof -
  have "edge_count pr = sum_list (map (\<lambda>k. length (dict_get pr k [])) ids)"
    using assms sum_lengths_distinct_keys unfolding backwards_def by blast
  then show ?thesis by (simp add: sum_list_sum_nth atLeast0LessThan)
qed

text \<open>An item has at most as many prerequisites as items before it.\<close>

lemma prerequisites_bounded:
  assumes "backwards ids pr" and "distinct ids" and "i < length ids"
  shows "length (dict_get pr (ids ! i) []) \<le> i"
proof -
  have "set (dict_get pr (ids ! i) []) \<subseteq> set (take i ids)"
    using assms(1) takeWhile_take_nth [OF assms(2,3)] unfolding backwards_def by metis
  then have "card (set (dict_get pr (ids ! i) [])) \<le> card (set (take i ids))"
    by (intro card_mono) simp_all
  also have "\<dots> \<le> i" using card_length [of "take i ids"] by simp
  finally show ?thesis
    using assms(1) distinct_card unfolding backwards_def by metis
qed

lemma edge_count_bounded:
  assumes "backwards ids pr" and "distinct ids"
  shows "2 * edge_count pr \<le> length ids * (length ids - 1)"
proof -
  have "edge_count pr \<le> (\<Sum>i<length ids. i)"
    unfolding edge_count_sum [OF assms]
    using prerequisites_bounded [OF assms] by (intro sum_mono) simp
  moreover have "2 * (\<Sum>i<n. i) = n * (n - 1)" for n :: nat
    by (induction n) (simp_all add: algebra_simps)
  ultimately show ?thesis by (metis mult_le_mono2)
qed

text \<open>From the fifth item on, the four choices are four items.\<close>

lemma choices_distinct:
  assumes "distinct ids" and "4 \<le> i" and "i < length ids"
  shows "card (set (choices_at ids i)) = 4"
proof -
  have "take i ids \<noteq> []" "length (take i ids) = i" using assms by auto
  then have "last (take i ids) = ids ! (i - 1)" using assms by (simp add: last_conv_nth)
  moreover have "0 < i div 3" "i div 3 < i div 2" "i div 2 < i - 1" using assms(2) by linarith+
  ultimately have "set (choices_at ids i) = (!) ids ` {0, i div 3, i div 2, i - 1}"
    using assms by (simp add: choices_at_def Let_def)
  moreover have "inj_on ((!) ids) {0, i div 3, i div 2, i - 1}"
    using assms by (intro inj_on_nth) auto
  moreover have "card {0, i div 3, i div 2, i - 1} = 4"
    using \<open>0 < i div 3\<close> \<open>i div 3 < i div 2\<close> \<open>i div 2 < i - 1\<close> by simp
  ultimately show ?thesis by (metis card_image)
qed

lemma widen_reaches_target:
  assumes "edges_ok ids s" and "distinct ids" and "130 \<le> length ids"
  shows "TARGET_EDGES \<le> snd (widen ids s)"
proof (rule ccontr)
  assume "\<not> TARGET_EDGES \<le> snd (widen ids s)"
  then have lt: "snd (widen ids s) < TARGET_EDGES" by simp
  obtain pr n where w: "widen ids s = (pr, n)" by (cases "widen ids s")
  have ok: "backwards ids pr" "n = edge_count pr"
    using widen_facts(1) [OF assms(1,2)] by (simp_all add: w edges_ok_def)
  have four: "4 \<le> length (dict_get pr (ids ! i) [])" if "4 \<le> i" "i < length ids" for i
  proof -
    have "set (choices_at ids i) \<subseteq> set (dict_get pr (ids ! i) [])"
      using widen_facts(3) [OF assms(1,2) lt, of i] that by (simp add: w)
    then have "card (set (choices_at ids i)) \<le> card (set (dict_get pr (ids ! i) []))"
      by (intro card_mono) simp_all
    then show ?thesis
      using choices_distinct [OF assms(2) that] card_length le_trans by metis
  qed
  have "(\<Sum>i<length ids. if 4 \<le> i then 4 else 0) \<le> (\<Sum>i<length ids. length (dict_get pr (ids ! i) []))"
    using four by (intro sum_mono) simp
  moreover have "(\<Sum>i<m. if 4 \<le> i then 4 else 0) = 4 * (m - 4)" for m :: nat
    by (induction m) auto
  ultimately have "4 * (length ids - 4) \<le> n" using edge_count_sum [OF ok(1) assms(2)] ok(2) by simp
  then show False using lt assms(3) by (simp add: w TARGET_EDGES_def)
qed

section \<open>When generation returns\<close>

text \<open>What the first pass leaves, for a catalog with distinct ids and the root.\<close>

definition catalog_ok :: "catalog_item list \<Rightarrow> bool" where
  "catalog_ok catalog \<longleftrightarrow>
     distinct (map ci_id catalog) \<and> ROOT_ID \<in> ci_id ` set catalog \<and>
     (\<forall>item\<in>set catalog. ci_level item \<in> set BOOT_LEVELS)"

definition planned_edges :: "catalog_item list \<Rightarrow> nat" where
  "planned_edges catalog =
     (case rbind (ordered_items catalog) (\<lambda>ordered. plan_items ordered first_plan) of
        Inl e \<Rightarrow> 0
      | Inr s \<Rightarrow> edge_count (pl_prerequisites s))"

lemma planning:
  assumes "catalog_ok catalog"
  obtains ordered s where "ordered_items catalog = Inr ordered" and "plan_items ordered first_plan = Inr s"
    and "distinct (map ci_id ordered)" and "ROOT_ID \<in> set (map ci_id ordered)"
    and "edges_ok (map ci_id ordered) (pl_prerequisites s, planned_edges catalog)"
    and "edge_count (pl_prerequisites s) = planned_edges catalog"
    and "planned_edges catalog \<le> 2 * length catalog"
proof -
  have "find (\<lambda>item. ci_level item \<notin> set BOOT_LEVELS) catalog = None"
    using assms by (auto simp: catalog_ok_def find_None_iff)
  then obtain ordered where o: "ordered_items catalog = Inr ordered" by (simp add: ordered_items_def)
  have ids: "distinct (map ci_id ordered)" "ROOT_ID \<in> set (map ci_id ordered)"
    using assms mset_eq_imp_distinct_iff [OF ordered_ids [OF o]] ordered_items_ok [OF o]
    by (auto simp: catalog_ok_def)
  have "\<exists>s. plan_items ordered first_plan = Inr s"
    using ordered_root_first [OF o] assms by (intro plan_items_total) (simp add: catalog_ok_def)
  then obtain s where s: "plan_items ordered first_plan = Inr s" ..
  have "plan_ok (map ci_id ordered) (length (map ci_id ordered)) s"
    by (rule plan_items_ok [OF s first_plan_ok [OF ids(2)] ids(1)]) simp
  then have ok: "backwards (map ci_id ordered) (pl_prerequisites s)"
      "\<forall>k. length (dict_get (pl_prerequisites s) k []) \<le> 2"
    by (simp_all add: plan_ok_def)
  have "edge_count (pl_prerequisites s) \<le> (\<Sum>i<length (map ci_id ordered). 2)"
    unfolding edge_count_sum [OF ok(1) ids(1)] using ok(2) by (intro sum_mono) blast
  moreover have n: "edge_count (pl_prerequisites s) = planned_edges catalog"
    by (simp add: planned_edges_def o s)
  ultimately have "planned_edges catalog \<le> 2 * length catalog" using ordered_items_ok [OF o] by simp
  then show thesis using that [OF o s ids _ n] ok(1) n by (simp add: edges_ok_def)
qed

lemma build_contracts_unfold:
  assumes "ordered_items catalog = Inr ordered" and "plan_items ordered first_plan = Inr s"
  shows "build_contracts catalog =
     (case top_up (map ci_id ordered) 2 (widen (map ci_id ordered) (pl_prerequisites s, edge_count (pl_prerequisites s))) of
        None \<Rightarrow> None
      | Some (Inl e) \<Rightarrow> Some (Inl e)
      | Some (Inr (pr, n)) \<Rightarrow> Some (if n \<noteq> TARGET_EDGES then Inl (edge_mismatch n) else Inr (contract_docs ordered pr)))"
  using assms by (simp add: build_contracts_def Let_def)

lemma widen_full: "TARGET_EDGES \<le> snd s \<Longrightarrow> widen ids s = s"
proof -
  have "foldl (\<lambda>s (i, cid). if TARGET_EDGES \<le> snd s \<or> i < 2 then s else add_choices cid (choices_at ids i) s) s ps = s"
    if "TARGET_EDGES \<le> snd s" for ps
    using that by (induction ps) auto
  then show "TARGET_EDGES \<le> snd s \<Longrightarrow> ?thesis" by (simp add: widen_def)
qed

text \<open>What \<open>main\<close> prints as the number of edges.\<close>

definition printed_edges :: "pv list \<Rightarrow> nat" where
  "printed_edges docs = sum_list (map (\<lambda>d. length (strs_field d ''prerequisites'')) docs)"

lemma pget_contract_doc:
  "str_field (contract_doc ids pr i item) ''id'' = ci_id item"
  "str_field (contract_doc ids pr i item) ''domain'' = ci_domain item"
  "strs_field (contract_doc ids pr i item) ''prerequisites'' = dict_get pr (ci_id item) []"
  "strs_field (contract_doc ids pr i item) ''orthogonal_with'' = sorted_set (peers_of ids i (ci_id item))"
  "strs_field (contract_doc ids pr i item) ''normalization'' =
     table_get NORMALIZATION_BY_DOMAIN (ci_domain item) [''none'']"
  "is_dict (contract_doc ids pr i item)"
  by (simp_all add: contract_doc_def str_field_def strs_field_def pget_default_def pget_def p_strs_def
      constant_texts_def Let_def comp_def)

lemma map_contract_docs:
  assumes "\<And>i item. i < length ordered \<Longrightarrow> item = ordered ! i \<Longrightarrow> f (contract_doc (map ci_id ordered) pr i item) = g item"
  shows "map f (contract_docs ordered pr) = map g ordered"
  using assms by (intro nth_equalityI) (auto simp: contract_docs_def nth_enumerate_eq)

lemma printed_edges_docs:
  assumes "backwards (map ci_id ordered) pr" and "distinct (map ci_id ordered)"
  shows "printed_edges (contract_docs ordered pr) = edge_count pr"
proof -
  have "map (\<lambda>d. length (strs_field d ''prerequisites'')) (contract_docs ordered pr) =
      map (\<lambda>item. length (dict_get pr (ci_id item) [])) ordered"
    by (rule map_contract_docs) (simp add: pget_contract_doc)
  then show ?thesis
    using sum_lengths_distinct_keys [of pr "map ci_id ordered"] assms
    by (simp add: printed_edges_def backwards_def comp_def)
qed

lemma build_total:
  assumes "catalog_ok catalog" and "130 \<le> length catalog"
  shows "\<exists>r. build_contracts catalog = Some r \<and>
    (case r of
       Inl e \<Rightarrow> TARGET_EDGES < planned_edges catalog \<and> e = edge_mismatch (planned_edges catalog)
     | Inr docs \<Rightarrow> planned_edges catalog \<le> TARGET_EDGES \<and> length docs = length catalog \<and>
         printed_edges docs = TARGET_EDGES)"
proof -
  obtain ordered s where o: "ordered_items catalog = Inr ordered" "plan_items ordered first_plan = Inr s"
    and ids: "distinct (map ci_id ordered)" "ROOT_ID \<in> set (map ci_id ordered)"
    and ok: "edges_ok (map ci_id ordered) (pl_prerequisites s, planned_edges catalog)"
    and n: "edge_count (pl_prerequisites s) = planned_edges catalog"
    using planning [OF assms(1)] by metis
  have len: "length ordered = length catalog" using ordered_items_ok [OF o(1)] by simp
  let ?s = "(pl_prerequisites s, planned_edges catalog)"
  let ?w = "widen (map ci_id ordered) ?s"
  obtain pr m where w: "?w = (pr, m)" by (cases ?w)
  have "TARGET_EDGES \<le> m"
    using widen_reaches_target [OF ok ids(1)] assms(2) len by (simp add: w)
  then have top: "top_up (map ci_id ordered) 2 ?w = Some (Inr (pr, m))"
    by (subst top_up.simps) (simp add: w)
  have b: "backwards (map ci_id ordered) pr" "m = edge_count pr"
    using widen_facts(1) [OF ok ids(1)] by (simp_all add: w edges_ok_def)
  have g: "planned_edges catalog \<le> TARGET_EDGES \<longrightarrow> m = TARGET_EDGES"
    using widen_facts(2) [OF ok ids(1)] \<open>TARGET_EDGES \<le> m\<close> by (simp add: grows_def w)
  have f: "TARGET_EDGES \<le> planned_edges catalog \<longrightarrow> m = planned_edges catalog"
    using widen_full [of ?s "map ci_id ordered"] w by auto
  show ?thesis
    unfolding build_contracts_unfold [OF o] n top
    using g f printed_edges_docs [OF b(1) ids(1)] b(2) len
    by (cases "planned_edges catalog \<le> TARGET_EDGES") (auto simp: contract_docs_def)
qed

lemma build_small:
  assumes "catalog_ok catalog" and "length catalog * (length catalog - 1) < 2 * TARGET_EDGES"
  shows "build_contracts catalog = None"
proof -
  obtain ordered s where o: "ordered_items catalog = Inr ordered" "plan_items ordered first_plan = Inr s"
    and ids: "distinct (map ci_id ordered)" "ROOT_ID \<in> set (map ci_id ordered)"
    and ok: "edges_ok (map ci_id ordered) (pl_prerequisites s, planned_edges catalog)"
    and n: "edge_count (pl_prerequisites s) = planned_edges catalog"
    using planning [OF assms(1)] by metis
  have len: "length (map ci_id ordered) = length catalog" using ordered_items_ok [OF o(1)] by simp
  let ?w = "widen (map ci_id ordered) (pl_prerequisites s, planned_edges catalog)"
  have "top_up (map ci_id ordered) 2 ?w = None"
  proof (rule ccontr)
    assume "top_up (map ci_id ordered) 2 ?w \<noteq> None"
    then obtain r where r: "top_up (map ci_id ordered) 2 ?w = Some r" by blast
    from top_up_edges [OF r widen_facts(1) [OF ok ids(1)] ids(1)] ids(2)
    obtain t where t: "edges_ok (map ci_id ordered) t" "TARGET_EDGES \<le> snd t"
      by (cases r) auto
    have "2 * edge_count (fst t) \<le> length catalog * (length catalog - 1)"
      using edge_count_bounded [of "map ci_id ordered" "fst t"] t(1) ids(1) len
      by (simp add: edges_ok_def)
    then show False using assms(2) t by (simp add: edges_ok_def)
  qed
  then show ?thesis by (simp add: build_contracts_unfold [OF o] n)
qed

section \<open>What is written validates\<close>

definition position_in :: "string list \<Rightarrow> string \<Rightarrow> nat" where
  "position_in ids x = length (takeWhile (\<lambda>y. y \<noteq> x) ids)"

lemma position_in_earlier:
  assumes "x \<in> set (takeWhile (\<lambda>y. y \<noteq> k) ids)"
  shows "position_in ids x < position_in ids k"
  using assms by (induction ids) (auto simp: position_in_def split: if_splits)

lemma acyclic_backwards:
  fixes ids :: "string list"
  assumes "\<And>a d. (a, d) \<in> r \<Longrightarrow> d \<in> set (takeWhile (\<lambda>y. y \<noteq> a) ids)"
  shows "acyclic r"
proof -
  have "r \<subseteq> (measure (position_in ids))\<inverse>" using assms position_in_earlier by auto
  moreover have "acyclic ((measure (position_in ids))\<inverse>)"
    using wf_acyclic [OF wf_measure [of "position_in ids"]] by simp
  ultimately show ?thesis by (rule acyclic_subset [rotated])
qed

lemma none_alone:
  "''none'' \<in> set (table_get NORMALIZATION_BY_DOMAIN d [''none'']) \<longrightarrow>
     length (table_get NORMALIZATION_BY_DOMAIN d [''none'']) \<le> 1"
proof -
  have "list_all (\<lambda>(k, rules). ''none'' \<notin> set rules) NORMALIZATION_BY_DOMAIN"
    by (simp add: NORMALIZATION_BY_DOMAIN_def)
  then show ?thesis
    by (auto simp: table_get_def list_all_iff dest!: map_of_SomeD split: option.split)
qed

lemma contract_of_contract_doc:
  "c_id (contract_of_doc (contract_doc ids pr i item)) = ci_id item"
  "c_prerequisites (contract_of_doc (contract_doc ids pr i item)) = dict_get pr (ci_id item) []"
  "c_orthogonal_with (contract_of_doc (contract_doc ids pr i item)) = sorted_set (peers_of ids i (ci_id item))"
  "c_normalization (contract_of_doc (contract_doc ids pr i item)) =
     table_get NORMALIZATION_BY_DOMAIN (ci_domain item) [''none'']"
  by (simp_all add: contract_of_doc_def pget_contract_doc)

lemma consistent_cong:
  assumes "mset cs = mset ds"
  shows "consistent cs = consistent ds"
proof -
  have "distinct (map c_id cs) = distinct (map c_id ds)"
    using assms by (metis mset_eq_imp_distinct_iff mset_map)
  moreover have "prereq_rel cs = prereq_rel ds" and "set cs = set ds"
    using mset_eq_setD [OF assms] by (simp_all add: prereq_rel_def)
  ultimately show ?thesis by (simp add: consistent_def)
qed

lemma contract_docs_consistent:
  assumes "backwards (map ci_id ordered) pr" and "distinct (map ci_id ordered)"
  shows "consistent (map contract_of_doc (contract_docs ordered pr))"
proof -
  let ?ids = "map ci_id ordered"
  let ?cs = "map contract_of_doc (contract_docs ordered pr)"
  have ids: "map c_id ?cs = ?ids"
    unfolding map_map by (rule map_contract_docs) (simp add: contract_of_contract_doc)
  have docE: "\<exists>i<length ordered. c = contract_of_doc (contract_doc ?ids pr i (ordered ! i))" if "c \<in> set ?cs" for c
    using that by (auto simp: contract_docs_def in_set_enumerate_eq)
  have before: "set (dict_get pr k []) \<subseteq> set (takeWhile (\<lambda>y. y \<noteq> k) ?ids)" for k
    using assms(1) by (simp add: backwards_def)
  have "references_ok (set ?ids) c" if "c \<in> set ?cs" for c
  proof -
    from docE [OF that] obtain i where i: "i < length ordered"
      and c: "c = contract_of_doc (contract_doc ?ids pr i (ordered ! i))" by blast
    have "set (dict_get pr (ci_id (ordered ! i)) []) \<subseteq> set ?ids - {ci_id (ordered ! i)}"
      using before set_takeWhileD by fastforce
    moreover have "set (peers_of ?ids i (ci_id (ordered ! i))) \<subseteq> set ?ids - {ci_id (ordered ! i)}"
    proof -
      have "?ids ! ((i + offset) mod length ?ids) \<in> set ?ids" for offset
        using i by (intro nth_mem) (auto intro!: mod_less_divisor)
      from this [of 1] this [of 7] show ?thesis by (auto simp: peers_of_def)
    qed
    ultimately show ?thesis
      using none_alone by (simp add: references_ok_def c contract_of_contract_doc)
  qed
  moreover have "acyclic (prereq_rel ?cs)"
  proof (rule acyclic_backwards [of _ ?ids])
    fix a d assume "(a, d) \<in> prereq_rel ?cs"
    then obtain c where c: "c \<in> set ?cs" "a = c_id c" "d \<in> set (c_prerequisites c)"
      by (auto simp: prereq_rel_def)
    then show "d \<in> set (takeWhile (\<lambda>y. y \<noteq> a) ?ids)"
      using docE [OF c(1)] before [of "c_id c"] by (auto simp: contract_of_contract_doc)
  qed
  moreover have "c_id ` set ?cs = set ?ids" by (simp only: ids flip: list.set_map)
  ultimately show ?thesis unfolding consistent_def using assms(2) ids by metis
qed

subsection \<open>The files\<close>

lemma write_contracts_files:
  assumes "distinct (map contract_path docs)" and "distinct (map fst old)"
  shows "distinct (map fst (write_contracts docs old))"
    and "d \<in> set docs \<Longrightarrow> dict_get (write_contracts docs old) (contract_path d) dflt = d"
    and "fst ` set (write_contracts docs old) = contract_path ` set docs \<union> fst ` set (unlink_contracts old)"
proof -
  have u: "distinct (map fst (unlink_contracts old))"
    using assms(2) by (auto simp: unlink_contracts_def intro: distinct_map_filter)
  let ?w = "\<lambda>docs. foldl (\<lambda>fs doc. AList.update (contract_path doc) doc fs) (unlink_contracts old) docs"
  have "distinct (map fst (?w docs)) \<and> (\<forall>d\<in>set docs. dict_get (?w docs) (contract_path d) dflt = d) \<and>
      fst ` set (?w docs) = contract_path ` set docs \<union> fst ` set (unlink_contracts old)"
    using assms(1)
  proof (induction docs rule: rev_induct)
    case (snoc d docs)
    have "contract_path e \<noteq> contract_path d" if "e \<in> set docs" for e
      using snoc.prems that by (force simp: image_iff)
    with snoc show ?case by (auto simp: dict_simps distinct_update)
  qed (simp add: u)
  then show "distinct (map fst (write_contracts docs old))"
    "d \<in> set docs \<Longrightarrow> dict_get (write_contracts docs old) (contract_path d) dflt = d"
    "fst ` set (write_contracts docs old) = contract_path ` set docs \<union> fst ` set (unlink_contracts old)"
    by (simp_all add: write_contracts_def)
qed

text \<open>
  Nothing the loader would read lies deeper than a directory below the corpus, so that unlinking
  leaves no Contract file behind.
\<close>

definition is_contract_file :: "string list \<Rightarrow> bool" where
  "is_contract_file parts \<longleftrightarrow> parts \<noteq> [] \<and> suffix ''.yaml'' (last parts) \<and> ''schema'' \<notin> set parts"

definition flat_corpus :: "corpus_files \<Rightarrow> bool" where
  "flat_corpus files \<longleftrightarrow>
     distinct (map fst files) \<and> (\<forall>parts\<in>fst ` set files. is_contract_file parts \<longrightarrow> length parts = 2)"

lemma contract_files_filter: "contract_files entries = sort (filter is_contract_file entries)"
  unfolding contract_files_def is_contract_file_def [abs_def] by (simp add: conj_ac)

lemma listing_of_written:
  assumes "flat_corpus old" and "distinct (map contract_path docs)"
    and "\<forall>d\<in>set docs. is_contract_file (contract_path d)"
  shows "mset (map snd (corpus_listing (write_contracts docs old))) = mset (map Inr docs)"
proof -
  let ?fs = "write_contracts docs old"
  note files = write_contracts_files [OF assms(2), of old]
  have d: "distinct (map fst old)" using assms(1) by (simp add: flat_corpus_def)
  let ?listed = "filter is_contract_file (map fst ?fs)"
  have gone: "\<not> is_contract_file p" if "p \<in> fst ` set (unlink_contracts old)" for p
    using that assms(1) by (auto simp: unlink_contracts_def flat_corpus_def is_contract_file_def)
  have "set ?listed = set (map contract_path docs)"
    using files(3) [OF d] gone assms(3) by auto
  moreover have "distinct ?listed" using files(1) [OF d] by simp
  ultimately have "mset ?listed = mset (map contract_path docs)"
    using assms(2) set_eq_iff_mset_eq_distinct by blast
  then have "mset (map (\<lambda>p. Inr (dict_get ?fs p PNone)) (sort ?listed)) =
      mset (map (\<lambda>p. Inr (dict_get ?fs p PNone)) (map contract_path docs))"
    by (metis mset_map mset_sort)
  also have "map (\<lambda>p. Inr (dict_get ?fs p PNone)) (map contract_path docs) = map Inr docs"
    using files(2) [OF d] by simp
  finally show ?thesis by (simp add: corpus_listing_def contract_files_filter comp_def)
qed

lemma yaml_not_schema: "xs @ ''.yaml'' \<noteq> ''schema''"
proof
  assume eq: "xs @ ''.yaml'' = ''schema''"
  have "last (xs @ ''.yaml'') = CHR ''l''" by simp
  then show False by (simp add: eq)
qed

definition item_path :: "catalog_item \<Rightarrow> string list" where
  "item_path item = [ci_domain item, replace_char (CHR ''.'') ''__'' (ci_id item) @ ''.yaml'']"

lemma map_contract_path: "map contract_path (contract_docs ordered pr) = map item_path ordered"
  by (rule map_contract_docs) (simp add: contract_path_def item_path_def pget_contract_doc)

lemma item_path_is_contract_file: "is_contract_file (item_path item) \<longleftrightarrow> ci_domain item \<noteq> ''schema''"
  using yaml_not_schema by (auto simp: is_contract_file_def item_path_def suffix_def)

lemma well_formed_listing:
  assumes "mset (map snd files) = mset (map Inr docs)" and "\<forall>d\<in>set docs. is_dict d \<and> ie d = []"
    and "consistent (map contract_of_doc docs)"
  shows "well_formed_corpus ie files" and "mset (corpus_of files) = mset (map contract_of_doc docs)"
proof -
  have "mset (corpus_of files) = image_mset (\<lambda>r. contract_of_doc (projr r)) (mset (map snd files))"
    by (simp add: corpus_of_def image_mset.compositionality comp_def)
  also have "\<dots> = image_mset (\<lambda>r. contract_of_doc (projr r)) (mset (map Inr docs :: pv result list))"
    by (simp only: assms(1))
  also have "\<dots> = mset (map contract_of_doc docs)"
    by (simp add: image_mset.compositionality comp_def)
  finally show m: "mset (corpus_of files) = mset (map contract_of_doc docs)" .
  have "good_document ie f" if "f \<in> set files" for f
  proof -
    have "snd f \<in> Inr ` set docs" using that mset_eq_setD [OF assms(1)] by (metis image_eqI list.set_map)
    then show ?thesis using assms(2) by (auto simp: good_document_def)
  qed
  then show "well_formed_corpus ie files"
    using consistent_cong [OF m] assms(3) by (simp add: well_formed_corpus_def)
qed

section \<open>Properties\<close>

lemma build_documents:
  assumes "catalog_ok catalog" and "build_contracts catalog = Some (Inr docs)"
  obtains ordered pr where "docs = contract_docs ordered pr" and "mset ordered = mset catalog"
    and "backwards (map ci_id ordered) pr" and "distinct (map ci_id ordered)" and "edge_count pr = TARGET_EDGES"
proof -
  obtain ordered s where o: "ordered_items catalog = Inr ordered" "plan_items ordered first_plan = Inr s"
    and ids: "distinct (map ci_id ordered)"
    and ok: "edges_ok (map ci_id ordered) (pl_prerequisites s, planned_edges catalog)"
    and n: "edge_count (pl_prerequisites s) = planned_edges catalog"
    using planning [OF assms(1)] by metis
  let ?w = "widen (map ci_id ordered) (pl_prerequisites s, planned_edges catalog)"
  obtain pr m where t: "top_up (map ci_id ordered) 2 ?w = Some (Inr (pr, m))"
    and m: "m = TARGET_EDGES" and docs: "docs = contract_docs ordered pr"
    using assms(2) by (auto simp: build_contracts_unfold [OF o] n split: option.splits sum.splits if_splits)
  have "edges_ok (map ci_id ordered) (pr, m)"
    using top_up_edges [OF t widen_facts(1) [OF ok ids] ids] by simp
  then show thesis
    using that [OF docs ordered_items_Inr(1) [OF o(1)] _ ids] m by (simp add: edges_ok_def)
qed

lemma written_corpus_valid:
  assumes "catalog_ok catalog" and "build_contracts catalog = Some (Inr docs)"
    and "distinct (map item_path catalog)" and "''schema'' \<notin> ci_domain ` set catalog"
    and "\<forall>d\<in>set docs. iter_errors d = []" and "flat_corpus old" and "length catalog < limit"
  shows "\<exists>r. validate_contracts limit iter_errors (corpus_listing (write_contracts docs old)) = Inr r \<and> valid r \<and>
    mset (map c_id (r_contracts r)) = mset (map ci_id catalog)"
proof -
  obtain ordered pr where docs: "docs = contract_docs ordered pr" and m: "mset ordered = mset catalog"
    and b: "backwards (map ci_id ordered) pr" and ids: "distinct (map ci_id ordered)"
    using build_documents [OF assms(1,2)] by metis
  have set_eq: "set ordered = set catalog" by (rule mset_eq_setD [OF m])
  have paths: "map contract_path docs = map item_path ordered" by (simp only: docs map_contract_path)
  have "distinct (map contract_path docs)"
    unfolding paths using assms(3) mset_eq_imp_distinct_iff m by (metis mset_map)
  moreover have "is_contract_file p" if "p \<in> set (map contract_path docs)" for p
  proof -
    from that obtain item where "item \<in> set catalog" "p = item_path item"
      unfolding paths set_map set_eq by blast
    then show ?thesis using assms(4) by (simp add: item_path_is_contract_file) (metis imageI)
  qed
  ultimately have listing: "mset (map snd (corpus_listing (write_contracts docs old))) = mset (map Inr docs)"
    using listing_of_written [OF assms(6), of docs] by simp
  have dicts: "\<forall>d\<in>set docs. is_dict d \<and> iter_errors d = []"
    using assms(5) by (auto simp: docs contract_docs_def pget_contract_doc)
  have cons: "consistent (map contract_of_doc docs)"
    unfolding docs by (rule contract_docs_consistent [OF b ids])
  note wf = well_formed_listing [OF listing dicts cons]
  have len: "length (corpus_listing (write_contracts docs old)) = length catalog"
    using arg_cong [OF listing, of size] arg_cong [OF m, of size] by (simp add: docs contract_docs_def)
  obtain r where r: "validate_contracts limit iter_errors (corpus_listing (write_contracts docs old)) = Inr r"
      "valid r" "r_contracts r = corpus_of (corpus_listing (write_contracts docs old))"
    using validate_ok [of "corpus_listing (write_contracts docs old)" limit iter_errors] wf(1) assms(7) len
    by auto
  have "map (c_id \<circ> contract_of_doc) docs = map ci_id ordered"
    unfolding docs by (rule map_contract_docs) (simp add: contract_of_contract_doc)
  then have "mset (map c_id (r_contracts r)) = mset (map ci_id ordered)"
    using arg_cong [OF wf(2), of "image_mset c_id"] by (simp add: r(3) flip: mset_map)
  then show ?thesis using r m by auto
qed

text \<open>
  C26. Generation returns for every catalog of at least 130 items with distinct ids, known levels
  and the root: either with one document per item and the published 503 edges, or, when the first
  pass alone has made more edges than that, with the error that names the number.
\<close>

theorem bootstrap_returns:
  assumes "catalog_ok catalog" and "130 \<le> length catalog"
  shows "\<exists>r. build_contracts catalog = Some r \<and>
    (case r of
       Inl e \<Rightarrow> 503 < planned_edges catalog \<and> e = edge_mismatch (planned_edges catalog)
     | Inr docs \<Rightarrow> planned_edges catalog \<le> 503 \<and> length docs = length catalog \<and> printed_edges docs = 503)"
  using build_total [OF assms] unfolding TARGET_EDGES_def .



subsection \<open>A catalog\<close>

definition demo_item :: "nat \<Rightarrow> catalog_item" where
  "demo_item n =
     \<lparr>ci_id = (if n = 0 then ROOT_ID else ''boot.'' @ replicate n (CHR ''a'')), ci_domain = ''boot'',
      ci_level = ''boot'', ci_host = True\<rparr>"

definition demo_catalog :: "nat \<Rightarrow> catalog_item list" where
  "demo_catalog n = map demo_item [0..<n]"

lemma replace_append: "replace_char a b (xs @ ys) = replace_char a b xs @ replace_char a b ys"
  by (simp add: replace_char_def)

lemma replace_replicate: "a \<noteq> c \<Longrightarrow> replace_char a b (replicate n c) = replicate n c"
  by (induction n) (simp_all add: replace_char_def)

lemma demo_path: "n \<noteq> 0 \<Longrightarrow> item_path (demo_item n) = [''boot'', ''boot__'' @ replicate n (CHR ''a'') @ ''.yaml'']"
  by (simp add: item_path_def demo_item_def replace_append replace_replicate, simp add: replace_char_def)

lemma demo_root_path: "item_path (demo_item 0) = [''boot'', ''boot__firmware__uefi_entry.yaml'']"
  by (simp add: item_path_def demo_item_def ROOT_ID_def replace_char_def)

lemma demo_paths: "distinct (map item_path (demo_catalog n))"
proof -
  have "inj_on (\<lambda>k. item_path (demo_item k)) (set [0..<n])"
  proof (rule inj_onI)
    fix i j assume eq: "item_path (demo_item i) = item_path (demo_item j)"
    show "i = j"
    proof (cases "i = 0 \<or> j = 0")
      case True
      then show ?thesis using eq demo_path [of i] demo_path [of j]
        by (cases i; cases j) (auto simp: demo_root_path)
    next
      case False
      then show ?thesis using eq demo_path [of i] demo_path [of j] by (auto dest: arg_cong [of _ _ length])
    qed
  qed
  then show ?thesis by (simp add: demo_catalog_def distinct_map comp_def)
qed

lemma demo_catalog_ok: "0 < n \<Longrightarrow> catalog_ok (demo_catalog n)"
proof -
  assume n: "0 < n"
  have "map item_path (demo_catalog n) =
      map (\<lambda>i. [''boot'', replace_char (CHR ''.'') ''__'' i @ ''.yaml'']) (map ci_id (demo_catalog n))"
    by (simp add: item_path_def demo_catalog_def demo_item_def)
  then have "distinct (map ci_id (demo_catalog n))" using demo_paths [of n] by (metis distinct_map)
  moreover have "demo_item 0 \<in> set (demo_catalog n)" "ci_id (demo_item 0) = ROOT_ID"
    using n by (simp_all add: demo_catalog_def, simp add: demo_item_def)
  then have "ROOT_ID \<in> ci_id ` set (demo_catalog n)" by (metis imageI)
  moreover have "\<forall>item\<in>set (demo_catalog n). ci_level item \<in> set BOOT_LEVELS"
    by (simp add: demo_catalog_def demo_item_def BOOT_LEVELS_def)
  ultimately show ?thesis by (simp add: catalog_ok_def)
qed

lemma demo_builds: "\<exists>docs. build_contracts (demo_catalog 130) = Some (Inr docs)"
proof -
  have ok: "catalog_ok (demo_catalog 130)" by (rule demo_catalog_ok) simp
  have len: "length (demo_catalog 130) = 130" by (simp add: demo_catalog_def)
  have "planned_edges (demo_catalog 130) \<le> 2 * length (demo_catalog 130)"
    using planning [OF ok] by metis
  then have le: "planned_edges (demo_catalog 130) \<le> TARGET_EDGES" by (simp add: len TARGET_EDGES_def)
  have "130 \<le> length (demo_catalog 130)" by (simp add: len)
  from build_total [OF ok this] obtain r where r: "build_contracts (demo_catalog 130) = Some r"
    and "case r of Inl e \<Rightarrow> TARGET_EDGES < planned_edges (demo_catalog 130) \<and> e = edge_mismatch (planned_edges (demo_catalog 130))
      | Inr docs \<Rightarrow> planned_edges (demo_catalog 130) \<le> TARGET_EDGES \<and> length docs = length (demo_catalog 130) \<and>
         printed_edges docs = TARGET_EDGES"
    by blast
  with le show ?thesis by (cases r) auto
qed

theorem bootstrap_returns_witness:
  "\<exists>r. build_contracts (demo_catalog 130) = Some r \<and>
    (case r of
       Inl e \<Rightarrow> 503 < planned_edges (demo_catalog 130) \<and> e = edge_mismatch (planned_edges (demo_catalog 130))
     | Inr docs \<Rightarrow> planned_edges (demo_catalog 130) \<le> 503 \<and> length docs = length (demo_catalog 130) \<and>
         printed_edges docs = 503)"
  by (rule bootstrap_returns [OF demo_catalog_ok]) (simp_all add: demo_catalog_def)



end
