(* ===== verification/Trajectory.thy ===== *)
theory Trajectory
  imports Dataset Effects
begin

text \<open>
  \<open>trajectory.py\<close>: the recorder of build trajectories and its summary. The state is the files, by
  path, each with the document it parses to; a recorder holds the document it has read or written.
  The clocks and the generated run id are arguments.
\<close>

section \<open>The recorder\<close>

type_synonym documents = "(string, pv) dict"

record recorder =
  tr_path :: string
  tr_run_id :: string
  tr_data :: pv

definition read_json :: "string \<Rightarrow> (documents, pv) eff" where
  "read_json path s =
     (case map_of s path of
        None \<Rightarrow> (Inl (FileNotFoundError (''No such file or directory: '' @ path)), s)
      | Some v \<Rightarrow> (Inr v, s))"

definition write_json :: "string \<Rightarrow> pv \<Rightarrow> (documents, unit) eff" where
  "write_json path v = emodify (AList.update path v)"

definition or_str :: "string option \<Rightarrow> string \<Rightarrow> string" where
  "or_str x dflt = (case x of Some s \<Rightarrow> if s = [] then dflt else s | None \<Rightarrow> dflt)"

definition create ::
  "(real \<Rightarrow> string) \<Rightarrow> string \<Rightarrow> int \<Rightarrow> string option \<Rightarrow> string option \<Rightarrow> (string \<times> pv) list \<Rightarrow>
     (documents, recorder) eff" where
  "create fr generated now path run_id metadata s =
     (let run_id = or_str run_id generated;
          path = (case path of Some p \<Rightarrow> p | None \<Rightarrow> ''artifacts/trajectories/'' @ run_id @ ''.json'')
      in if path \<in> fst ` set s then
           ebind (read_json path) (\<lambda>v.
             ebind (elift (py_get v ''run_id'' PNone)) (\<lambda>existing.
               eret \<lparr>tr_path = path,
                     tr_run_id = py_str fr (if truthy existing then existing else PStr run_id),
                     tr_data = v\<rparr>)) s
         else
           (let v = PDict [(''schema_version'', PStr ''osbench.trajectory.v1''), (''run_id'', PStr run_id),
                           (''created_at_unix'', PInt now), (''metadata'', PDict metadata), (''events'', PList [])]
            in eseq (write_json path v) (eret \<lparr>tr_path = path, tr_run_id = run_id, tr_data = v\<rparr>) s))"

definition event_record :: "nat \<Rightarrow> string \<Rightarrow> int \<Rightarrow> (string \<times> pv) list \<Rightarrow> pv" where
  "event_record n name now extra =
     PDict (merge_fields [(''sequence'', PInt (int n)), (''event'', PStr name), (''timestamp_unix_ns'', PInt now)] extra)"

fun py_append :: "pv \<Rightarrow> pv \<Rightarrow> pv result" where
  "py_append (PList xs) v = Inr (PList (xs @ [v]))"
| "py_append _ v = Inl (AttributeError ''object has no attribute append'')"

definition append_event ::
  "int \<Rightarrow> string \<Rightarrow> (string \<times> pv) list \<Rightarrow> recorder \<Rightarrow> (documents, recorder \<times> pv) eff" where
  "append_event now name extra r =
     ebind (elift (py_item (tr_data r) ''events'')) (\<lambda>events.
     ebind (elift (py_len events)) (\<lambda>n.
       (let event = event_record n name now extra in
        ebind (elift (py_append events event)) (\<lambda>events'.
          (let v = PDict (AList.update ''events'' events' (items_of (tr_data r))) in
           eseq (write_json (tr_path r) v) (eret (r\<lparr>tr_data := v\<rparr>, event)))))))"

text \<open>One call of \<open>osbench trajectory record\<close>: the recorder is opened again for every event.\<close>

record tnote =
  nt_now :: int
  nt_name :: string
  nt_contracts_passed :: "int option"
  nt_level :: "string option"
  nt_tokens :: "int option"

definition note_fields :: "tnote \<Rightarrow> (string \<times> pv) list" where
  "note_fields e =
     List.map_filter (\<lambda>(k, v). map_option (Pair k) v)
       [(''contracts_passed'', map_option PInt (nt_contracts_passed e)),
        (''level'', map_option PStr (nt_level e)),
        (''tokens'', map_option PInt (nt_tokens e))]"

definition path_stem :: "string \<Rightarrow> string" where
  "path_stem path =
     (let base = rev (takeWhile (\<lambda>c. c \<noteq> CHR ''/'') (rev path));
          stem = rev (drop 1 (dropWhile (\<lambda>c. c \<noteq> CHR ''.'') (rev base)))
      in if CHR ''.'' \<in> set (drop 1 base) \<and> last base \<noteq> CHR ''.'' then stem else base)"

definition trajectory_record ::
  "(real \<Rightarrow> string) \<Rightarrow> string \<Rightarrow> string \<Rightarrow> tnote \<Rightarrow> (documents, pv) eff" where
  "trajectory_record fr generated path e =
     ebind (create fr generated (nt_now e div 1000000000) (Some path) (Some (path_stem path)) []) (\<lambda>r.
       ebind (append_event (nt_now e) (nt_name e) (note_fields e) r) (\<lambda>(r', event). eret event))"

text \<open>One call of \<open>osbench trajectory init\<close>.\<close>

definition trajectory_init ::
  "(real \<Rightarrow> string) \<Rightarrow> string \<Rightarrow> string option \<Rightarrow> string option \<Rightarrow> int \<Rightarrow> (documents, pv) eff" where
  "trajectory_init fr generated path run_id now =
     ebind (create fr generated (now div 1000000000) path run_id []) (\<lambda>r.
       ebind (append_event now ''run_started'' [] r) (\<lambda>(r', event).
         eret (PDict [(''path'', PStr (tr_path r')), (''run_id'', PStr (tr_run_id r')), (''event'', event)])))"

section \<open>The summary\<close>

fun hashable :: "pv \<Rightarrow> bool" where
  "hashable (PList _) = False"
| "hashable (PDict _) = False"
| "hashable _ = True"

definition distinct_values :: "pv list \<Rightarrow> pv list" where
  "distinct_values vs = foldl (\<lambda>acc v. if list_ex (py_eq v) acc then acc else acc @ [v]) [] vs"

text \<open>\<open>sorted(set(vs))\<close>: strings with strings and numbers with numbers can be ordered.\<close>

definition sorted_distinct :: "pv list \<Rightarrow> pv list result" where
  "sorted_distinct vs =
     (if \<not> list_all hashable vs then Inl (TypeError ''unhashable type'')
      else
        (let ds = distinct_values vs in
         if length ds \<le> 1 then Inr ds
         else if list_all (\<lambda>v. \<exists>s\<in>{str_of v}. v = PStr s) ds then Inr (sort_key str_of ds)
         else if list_all (\<lambda>v. num_of v \<noteq> None) ds then Inr (sort_key (\<lambda>v. the (num_of v)) ds)
         else Inl (TypeError ''not supported between instances'')))"

text \<open>\<open>events[0]\<close> and \<open>events[-1]\<close>.\<close>

fun py_end :: "bool \<Rightarrow> pv \<Rightarrow> pv result" where
  "py_end front (PList xs) =
     (if xs = [] then Inl (OtherError ''IndexError'' ''list index out of range'')
      else Inr (if front then hd xs else last xs))"
| "py_end front (PStr s) =
     (if s = [] then Inl (OtherError ''IndexError'' ''string index out of range'')
      else Inr (PStr [if front then hd s else last s]))"
| "py_end front (PDict kvs) = Inl (KeyError (if front then ''0'' else ''-1''))"
| "py_end front _ = Inl (TypeError ''object is not subscriptable'')"

definition end_of :: "bool \<Rightarrow> pv \<Rightarrow> pv result" where
  "end_of front events = (if truthy events then py_end front events else Inr PNone)"

definition stamp_of :: "bool \<Rightarrow> pv \<Rightarrow> pv result" where
  "stamp_of front events =
     (if truthy events then rbind (py_end front events) (\<lambda>e. py_get e ''timestamp_unix_ns'' PNone) else Inr PNone)"

definition elapsed_of :: "pv \<Rightarrow> pv \<Rightarrow> real" where
  "elapsed_of first_stamp last_stamp =
     (case (as_int first_stamp, as_int last_stamp) of
        (Some a, Some b) \<Rightarrow> of_int (b - a) / 1000000000
      | _ \<Rightarrow> 0)"

definition summarize_trajectory :: "pv \<Rightarrow> pv result" where
  "summarize_trajectory doc =
     rbind (py_get doc ''events'' (PList [])) (\<lambda>events.
     rbind (stamp_of True events) (\<lambda>first_stamp.
     rbind (stamp_of False events) (\<lambda>last_stamp.
     rbind (py_get doc ''run_id'' PNone) (\<lambda>run_id.
     rbind (py_len events) (\<lambda>n.
     rbind (rbind (py_iter events) (map_result (\<lambda>e. py_get e ''event'' PNone))) (\<lambda>names.
     rbind (sorted_distinct names) (\<lambda>kinds.
     rbind (end_of True events) (\<lambda>first_event.
     rbind (end_of False events) (\<lambda>last_event.
       Inr (PDict [(''run_id'', run_id), (''events'', PInt (int n)), (''event_types'', PList kinds),
                   (''first'', first_event), (''last'', last_event),
                   (''elapsed_seconds'', PFloat (elapsed_of first_stamp last_stamp))]))))))))))"

definition trajectory_summarize :: "string \<Rightarrow> (documents, pv) eff" where
  "trajectory_summarize path = ebind (read_json path) (\<lambda>v. elift (summarize_trajectory v))"

section \<open>What was recorded is what the summary sees\<close>

text \<open>Any sequence of calls of \<open>osbench trajectory record\<close> on one path.\<close>

definition record_all ::
  "(real \<Rightarrow> string) \<Rightarrow> string \<Rightarrow> string \<Rightarrow> tnote list \<Rightarrow> (documents, unit) eff" where
  "record_all fr generated path ns =
     efor ns (\<lambda>e. ebind (trajectory_record fr generated path e) (\<lambda>_. eret ()))"

definition recorded_event :: "nat \<times> tnote \<Rightarrow> pv" where
  "recorded_event ne = event_record (fst ne) (nt_name (snd ne)) (nt_now (snd ne)) (note_fields (snd ne))"

definition trajectory_doc :: "string \<Rightarrow> int \<Rightarrow> pv list \<Rightarrow> pv" where
  "trajectory_doc run_id now events =
     PDict [(''schema_version'', PStr ''osbench.trajectory.v1''), (''run_id'', PStr run_id),
            (''created_at_unix'', PInt now), (''metadata'', PDict []), (''events'', PList events)]"

lemma trajectory_doc_simps:
  "py_item (trajectory_doc i t es) ''events'' = Inr (PList es)"
  "py_get (trajectory_doc i t es) ''run_id'' PNone = Inr (PStr i)"
  "py_get (trajectory_doc i t es) ''events'' d = Inr (PList es)"
  "PDict (AList.update ''events'' (PList fs) (items_of (trajectory_doc i t es))) = trajectory_doc i t fs"
  by (simp_all add: trajectory_doc_def py_get_def pget_default_def pget_def)

lemma create_existing:
  "map_of s path = Some (trajectory_doc i t es) \<Longrightarrow> i \<noteq> [] \<Longrightarrow>
     create fr generated now (Some path) run_id md s =
       (Inr \<lparr>tr_path = path, tr_run_id = i, tr_data = trajectory_doc i t es\<rparr>, s)"
  by (auto simp: create_def Let_def ebind_eq read_json_def trajectory_doc_simps dest: map_of_SomeD
      intro: rev_image_eqI)

lemma create_fresh:
  "path \<notin> fst ` set s \<Longrightarrow> run_id \<noteq> [] \<Longrightarrow>
     create fr generated now (Some path) (Some run_id) [] s =
       (Inr \<lparr>tr_path = path, tr_run_id = run_id, tr_data = trajectory_doc run_id now []\<rparr>,
        AList.update path (trajectory_doc run_id now []) s)"
  by (simp add: create_def Let_def eseq_eq write_json_def or_str_def trajectory_doc_def)

lemma append_to_doc:
  "tr_data r = trajectory_doc i t es \<Longrightarrow>
     append_event now name extra r s =
       (let event = event_record (length es) name now extra; v = trajectory_doc i t (es @ [event])
        in (Inr (r\<lparr>tr_data := v\<rparr>, event), AList.update (tr_path r) v s))"
  by (simp add: append_event_def ebind_eq eseq_eq write_json_def trajectory_doc_simps Let_def)

lemma note_fields_keys: "fst ` set (note_fields e) \<subseteq> {''contracts_passed'', ''level'', ''tokens''}"
  by (auto simp: note_fields_def List.map_filter_def split: option.splits)

lemma recorded_event_fields:
  "py_get (recorded_event ne) ''event'' PNone = Inr (PStr (nt_name (snd ne)))"
  "py_get (recorded_event ne) ''timestamp_unix_ns'' PNone = Inr (PInt (nt_now (snd ne)))"
  "py_get (recorded_event ne) ''sequence'' PNone = Inr (PInt (int (fst ne)))"
proof -
  have "''event'' \<notin> fst ` set (note_fields e)" "''timestamp_unix_ns'' \<notin> fst ` set (note_fields e)"
    "''sequence'' \<notin> fst ` set (note_fields e)" for e
    using note_fields_keys [of e] by blast+
  note keys = this [THEN map_of_merge_fields]
  show "py_get (recorded_event ne) ''event'' PNone = Inr (PStr (nt_name (snd ne)))"
    "py_get (recorded_event ne) ''timestamp_unix_ns'' PNone = Inr (PInt (nt_now (snd ne)))"
    "py_get (recorded_event ne) ''sequence'' PNone = Inr (PInt (int (fst ne)))"
    by (simp_all add: recorded_event_def event_record_def py_get_def pget_default_def pget_def keys)
qed

lemma record_step:
  assumes "map_of s path = Some (trajectory_doc i t es)" and "i \<noteq> []"
  shows "trajectory_record fr generated path e s =
    (Inr (recorded_event (length es, e)),
     AList.update path (trajectory_doc i t (es @ [recorded_event (length es, e)])) s)"
  using create_existing [OF assms, of fr generated "nt_now e div 1000000000" "Some (path_stem path)" "[]"]
  by (simp add: trajectory_record_def ebind_eq append_to_doc recorded_event_def Let_def)

lemma record_many:
  assumes "map_of s path = Some (trajectory_doc i t es)" and "i \<noteq> []"
  shows "\<exists>s'. record_all fr generated path ns s = (Inr (), s') \<and>
    map_of s' path = Some (trajectory_doc i t (es @ map recorded_event (enumerate (length es) ns))) \<and>
    (\<forall>q. q \<noteq> path \<longrightarrow> map_of s' q = map_of s q)"
  using assms
proof (induction ns arbitrary: s es)
  case (Cons e ns)
  let ?ev = "recorded_event (length es, e)"
  let ?s = "AList.update path (trajectory_doc i t (es @ [?ev])) s"
  obtain s' where s': "record_all fr generated path ns ?s = (Inr (), s')"
    "map_of s' path = Some (trajectory_doc i t ((es @ [?ev]) @ map recorded_event (enumerate (length (es @ [?ev])) ns)))"
    "\<forall>q. q \<noteq> path \<longrightarrow> map_of s' q = map_of ?s q"
    using Cons.IH [of ?s "es @ [?ev]"] Cons.prems(2) by (auto simp: map_of_update)
  then show ?case
    using record_step [OF Cons.prems, of fr generated e]
    by (simp add: record_all_def eseq_eq ebind_eq map_of_update)
qed (simp add: record_all_def)

lemma record_first:
  assumes "path \<notin> fst ` set s" and "path_stem path \<noteq> []"
  shows "trajectory_record fr generated path e s =
    (let es = [recorded_event (0, e)] in
     (Inr (hd es), AList.update path (trajectory_doc (path_stem path) (nt_now e div 1000000000) es)
        (AList.update path (trajectory_doc (path_stem path) (nt_now e div 1000000000) []) s)))"
  using create_fresh [OF assms]
  by (simp add: trajectory_record_def ebind_eq append_to_doc recorded_event_def Let_def)

lemma record_fresh:
  assumes "path \<notin> fst ` set s" and "path_stem path \<noteq> []" and "ns \<noteq> []"
  shows "\<exists>s'. record_all fr generated path ns s = (Inr (), s') \<and>
    map_of s' path = Some (trajectory_doc (path_stem path) (nt_now (hd ns) div 1000000000)
      (map recorded_event (enumerate 0 ns))) \<and>
    (\<forall>q. q \<noteq> path \<longrightarrow> map_of s' q = map_of s q)"
proof -
  obtain e rest where n: "ns = e # rest" using assms(3) by (cases ns) auto
  let ?t = "nt_now e div 1000000000"
  let ?s = "AList.update path (trajectory_doc (path_stem path) ?t [recorded_event (0, e)])
    (AList.update path (trajectory_doc (path_stem path) ?t []) s)"
  have "map_of ?s path = Some (trajectory_doc (path_stem path) ?t [recorded_event (0, e)])"
    by (simp add: map_of_update)
  from record_many [OF this assms(2), of fr generated rest]
  show ?thesis
    using record_first [OF assms(1,2), of fr generated e]
    by (auto simp: n record_all_def eseq_eq ebind_eq map_of_update Let_def)
qed

lemma distinct_values_strings:
  "\<exists>ds. distinct_values (map PStr names) = map PStr ds \<and> distinct ds \<and> set ds = set names"
proof (induction names rule: rev_induct)
  case (snoc n names)
  then obtain ds where ds: "distinct_values (map PStr names) = map PStr ds" "distinct ds" "set ds = set names"
    by blast
  have "distinct_values (map PStr (names @ [n])) = (if n \<in> set ds then map PStr ds else map PStr (ds @ [n]))"
    using ds(1) by (auto simp: distinct_values_def list_ex_iff)
  then show ?case using ds by (intro exI [of _ "if n \<in> set ds then ds else ds @ [n]"]) auto
qed (simp add: distinct_values_def)

lemma sort_key_strings: "sort_key str_of (map PStr ds) = map PStr (sort ds)"
proof -
  have "insort_key str_of (PStr d) (map PStr ds) = map PStr (insort d ds)" for d ds
    by (induction ds) simp_all
  then show ?thesis by (induction ds) simp_all
qed

lemma sorted_distinct_strings: "sorted_distinct (map PStr names) = Inr (map PStr (sorted_set names))"
proof -
  obtain ds where ds: "distinct_values (map PStr names) = map PStr ds" "distinct ds" "set ds = set names"
    using distinct_values_strings by blast
  have s: "sort ds = sorted_set names"
    using ds by (intro sorted_distinct_set_unique) simp_all
  have "sort ds = ds" if "length ds \<le> 1" using that by (cases ds; cases "tl ds") auto
  then have "length ds \<le> 1 \<Longrightarrow> sorted_set names = ds" using s by simp
  then show ?thesis
    by (auto simp: sorted_distinct_def Let_def ds(1) list_all_iff sort_key_strings s)
qed

text \<open>
  C28. A trajectory file that does not exist yet, recorded event by event with the recorder opened
  again each time, is summarized faithfully: the run id is the stem of the path, all events are
  counted, their names sorted without repetition, the first and the last event are the ones that
  were recorded with their positions as sequence numbers, and the elapsed time is the difference of
  their stamps. Other files are not touched.
\<close>

theorem trajectory_roundtrip:
  assumes "path \<notin> fst ` set s" and "path_stem path \<noteq> []" and "ns \<noteq> []"
  shows "\<exists>t. record_all fr generated path ns s = (Inr (), t) \<and>
    (\<forall>q. q \<noteq> path \<longrightarrow> map_of t q = map_of s q) \<and>
    trajectory_summarize path t =
      (Inr (PDict [(''run_id'', PStr (path_stem path)), (''events'', PInt (int (length ns))),
         (''event_types'', PList (map PStr (sorted_set (map nt_name ns)))),
         (''first'', recorded_event (0, hd ns)),
         (''last'', recorded_event (length ns - 1, last ns)),
         (''elapsed_seconds'', PFloat (of_int (nt_now (last ns) - nt_now (hd ns)) / 1000000000))]), t)"
proof -
  let ?es = "map recorded_event (enumerate 0 ns)"
  obtain t where t: "record_all fr generated path ns s = (Inr (), t)"
    "map_of t path = Some (trajectory_doc (path_stem path) (nt_now (hd ns) div 1000000000) ?es)"
    "\<forall>q. q \<noteq> path \<longrightarrow> map_of t q = map_of s q"
    using record_fresh [OF assms] by blast
  have ne: "enumerate 0 ns \<noteq> []" using assms(3) by (metis length_0_conv length_enumerate)
  then have ends: "hd ?es = recorded_event (0, hd ns)" "last ?es = recorded_event (length ns - 1, last ns)"
    using assms(3) by (simp_all add: hd_map last_map) (simp_all add: hd_conv_nth last_conv_nth nth_enumerate_eq)
  have "map_result (\<lambda>e. py_get e ''event'' PNone) ?es = Inr (map (PStr \<circ> nt_name \<circ> snd) (enumerate 0 ns))"
    by (subst map_result_ok [of _ _ "\<lambda>e. PStr (str_of (projr (py_get e ''event'' PNone)))"])
       (auto simp: recorded_event_fields)
  also have "map (PStr \<circ> nt_name \<circ> snd) (enumerate 0 ns) = map PStr (map nt_name ns)"
    by (simp flip: map_map)
  finally have names: "map_result (\<lambda>e. py_get e ''event'' PNone) ?es = Inr (map PStr (map nt_name ns))" .
  have "trajectory_summarize path t = (Inr (PDict [(''run_id'', PStr (path_stem path)), (''events'', PInt (int (length ns))),
         (''event_types'', PList (map PStr (sorted_set (map nt_name ns)))),
         (''first'', recorded_event (0, hd ns)),
         (''last'', recorded_event (length ns - 1, last ns)),
         (''elapsed_seconds'', PFloat (of_int (nt_now (last ns) - nt_now (hd ns)) / 1000000000))]), t)"
    using ne ends
    by (simp add: trajectory_summarize_def read_json_def ebind_eq t(2) summarize_trajectory_def
        trajectory_doc_simps stamp_of_def end_of_def names sorted_distinct_strings recorded_event_fields
        elapsed_of_def del: map_map list.map_comp)
  then show ?thesis using t(1,3) by blast
qed

definition demo_notes :: "tnote list" where
  "demo_notes =
     [\<lparr>nt_now = 0, nt_name = ''test'', nt_contracts_passed = None, nt_level = None, nt_tokens = None\<rparr>,
      \<lparr>nt_now = 2000000000, nt_name = ''build'', nt_contracts_passed = Some 3, nt_level = None, nt_tokens = None\<rparr>]"

theorem trajectory_roundtrip_witness:
  "\<exists>t. record_all (\<lambda>_. []) ''generated'' ''runs/t.json'' demo_notes [] = (Inr (), t) \<and>
    (\<exists>d. trajectory_summarize ''runs/t.json'' t = (Inr (PDict d), t) \<and>
       map_of d ''run_id'' = Some (PStr ''t'') \<and>
       map_of d ''event_types'' = Some (PList [PStr ''build'', PStr ''test'']))"
proof -
  have "path_stem ''runs/t.json'' = ''t''" "sorted_set (map nt_name demo_notes) = [''build'', ''test'']"
    by code_simp+
  then show ?thesis
    using trajectory_roundtrip [of "''runs/t.json''" "[]" demo_notes "\<lambda>_. []" "''generated''"]
    by (auto simp: demo_notes_def)
qed

end
