(* ===== verification/AtomicFiles.thy ===== *)
theory AtomicFiles
  imports Effects Constants
begin

text \<open>
  The file writing of \<open>util.py\<close>: \<open>_atomic_write\<close>, on which \<open>write_json\<close> and \<open>write_yaml\<close> rest, and
  \<open>jsonl_write\<close>. Both write a temporary file beside the target, force it to the disk and rename
  it. The disk is what the directory shows, each file with its contents and whether they were
  forced to the disk; every operation that the operating system may refuse takes the next entry of
  a script of faults; the history keeps the disk after every operation, so that it lists what a
  crash can leave behind.
\<close>

section \<open>The disk\<close>

record stored_file =
  fi_contents :: string
  fi_synced :: bool

type_synonym disk = "(string, stored_file) dict"

record writer =
  wr_disk :: disk
  wr_history :: "disk list"
  wr_faults :: "exn option list"

text \<open>One system call: it fails as the script says, or changes the disk.\<close>

definition syscall :: "(disk \<Rightarrow> disk) \<Rightarrow> (writer, unit) eff" where
  "syscall f s =
     (case wr_faults s of
        Some e # faults \<Rightarrow> (Inl e, s\<lparr>wr_faults := faults\<rparr>)
      | _ \<Rightarrow> (Inr (), s\<lparr>wr_disk := f (wr_disk s), wr_history := wr_history s @ [f (wr_disk s)],
                       wr_faults := drop 1 (wr_faults s)\<rparr>))"

definition change_file :: "string \<Rightarrow> (stored_file \<Rightarrow> stored_file) \<Rightarrow> disk \<Rightarrow> disk" where
  "change_file p f d = (case map_of d p of None \<Rightarrow> d | Some x \<Rightarrow> AList.update p (f x) d)"

definition mkstemp :: "string \<Rightarrow> (writer, unit) eff" where
  "mkstemp temporary = syscall (AList.update temporary \<lparr>fi_contents = [], fi_synced = False\<rparr>)"

definition write_chunk :: "string \<Rightarrow> string \<Rightarrow> (writer, unit) eff" where
  "write_chunk temporary chunk =
     syscall (change_file temporary (\<lambda>x. x\<lparr>fi_contents := fi_contents x @ chunk, fi_synced := False\<rparr>))"

definition fsync :: "string \<Rightarrow> (writer, unit) eff" where
  "fsync temporary = syscall (change_file temporary (fi_synced_update (\<lambda>_. True)))"

definition replace_file :: "string \<Rightarrow> string \<Rightarrow> (writer, unit) eff" where
  "replace_file temporary path =
     syscall (\<lambda>d. case map_of d temporary of
       None \<Rightarrow> d | Some x \<Rightarrow> AList.update path x (AList.delete temporary d))"

definition unlink_file :: "string \<Rightarrow> (writer, unit) eff" where
  "unlink_file temporary = syscall (AList.delete temporary)"

section \<open>The writers\<close>

text \<open>
  The common part: \<open>chunks\<close> are the texts to write, or the exception that producing one raises.
  A text is written in one call and is on the disk at the latest after the flush, so that the
  flush is part of the last write.
\<close>

definition write_through :: "string \<Rightarrow> string \<Rightarrow> string result list \<Rightarrow> (writer, unit) eff" where
  "write_through temporary path chunks =
     eseq (mkstemp temporary)
       (efinally
         (eseq (efor chunks (\<lambda>c. ebind (elift c) (write_chunk temporary)))
           (eseq (fsync temporary) (replace_file temporary path)))
         (\<lambda>s. if temporary \<in> fst ` set (wr_disk s) then unlink_file temporary s else (Inr (), s)))"

definition atomic_write :: "string \<Rightarrow> string \<Rightarrow> string \<Rightarrow> (writer, unit) eff" where
  "atomic_write temporary path payload = write_through temporary path [Inr payload]"

text \<open>\<open>jsonl_write\<close>: each row is encoded when it is its turn, which may raise.\<close>

definition jsonl_write ::
  "('a \<Rightarrow> string result) \<Rightarrow> string \<Rightarrow> string \<Rightarrow> 'a list \<Rightarrow> (writer, unit) eff" where
  "jsonl_write stable_json temporary path rows =
     write_through temporary path (map (\<lambda>r. rbind (stable_json r) (\<lambda>text. Inr (text @ [CHR 0x0A]))) rows)"

text \<open>
  \<open>jsonl_iter\<close> and \<open>jsonl_load\<close>: text mode reads a carriage return, a line feed and the pair of both
  as the end of a line; blank lines are skipped but counted.
\<close>

definition row_error :: "string \<Rightarrow> nat \<Rightarrow> exn" where
  "row_error path n = ValueError (path @ '':'' @ str_of_nat n @ '': JSONL row must be an object'')"

fun jsonl_rows :: "(string \<Rightarrow> pv result) \<Rightarrow> string \<Rightarrow> nat \<Rightarrow> string list \<Rightarrow> pv list result" where
  "jsonl_rows loads path n [] = Inr []"
| "jsonl_rows loads path n (line # rest) =
     (if is_blank line then jsonl_rows loads path (Suc n) rest
      else rbind (loads line) (\<lambda>v.
        if \<not> is_dict v then Inl (row_error path n)
        else rbind (jsonl_rows loads path (Suc n) rest) (\<lambda>vs. Inr (v # vs))))"

definition jsonl_load :: "(string \<Rightarrow> pv result) \<Rightarrow> string \<Rightarrow> disk \<Rightarrow> pv list result" where
  "jsonl_load loads path d =
     (case map_of d path of
        None \<Rightarrow> Inl (FileNotFoundError (''No such file or directory: '' @ path))
      | Some x \<Rightarrow> jsonl_rows loads path 1 (split_lines False [] (fi_contents x)))"

section \<open>What is on the disk at every moment\<close>

text \<open>
  The abstract operation that the writers implement: the target holds its old file until it holds
  the whole new one, forced to the disk; other files stay as they are.
\<close>

definition target_states :: "string \<Rightarrow> string \<Rightarrow> string \<Rightarrow> disk \<Rightarrow> disk \<Rightarrow> bool" where
  "target_states temporary path payload old d \<longleftrightarrow>
     (map_of d path = map_of old path \<or> map_of d path = Some \<lparr>fi_contents = payload, fi_synced = True\<rparr>) \<and>
     (\<forall>q. q \<noteq> path \<longrightarrow> q \<noteq> temporary \<longrightarrow> map_of d q = map_of old q)"

definition kept :: "string \<Rightarrow> string \<Rightarrow> string \<Rightarrow> writer \<Rightarrow> writer \<Rightarrow> bool" where
  "kept temporary path payload s0 s \<longleftrightarrow>
     (\<exists>new. wr_history s = wr_history s0 @ new \<and>
        (\<forall>d\<in>set new. target_states temporary path payload (wr_disk s0) d))"

text \<open>How many system calls the script still refuses.\<close>

definition refusals :: "writer \<Rightarrow> nat" where
  "refusals s = length (filter (\<lambda>f. f \<noteq> None) (wr_faults s))"

text \<open>The temporary file holds \<open>x\<close>, the target its old file; \<open>n\<close> refusals are left at most.\<close>

definition writing :: "string \<Rightarrow> string \<Rightarrow> string \<Rightarrow> writer \<Rightarrow> nat \<Rightarrow> stored_file \<Rightarrow> writer \<Rightarrow> bool" where
  "writing temporary path payload s0 n x s \<longleftrightarrow>
     kept temporary path payload s0 s \<and> map_of (wr_disk s) = (map_of (wr_disk s0))(temporary \<mapsto> x) \<and> refusals s \<le> n"

definition written :: "string \<Rightarrow> string \<Rightarrow> string \<Rightarrow> writer \<Rightarrow> writer \<Rightarrow> bool" where
  "written temporary path payload s0 s \<longleftrightarrow>
     kept temporary path payload s0 s \<and>
     map_of (wr_disk s) = (map_of (wr_disk s0))(path \<mapsto> \<lparr>fi_contents = payload, fi_synced = True\<rparr>)"

lemma syscall_cases:
  obtains (fault) e faults where "wr_faults s = Some e # faults" and "syscall f s = (Inl e, s\<lparr>wr_faults := faults\<rparr>)"
  | (ok) "syscall f s = (Inr (), s\<lparr>wr_disk := f (wr_disk s), wr_history := wr_history s @ [f (wr_disk s)],
       wr_faults := drop 1 (wr_faults s)\<rparr>)"
  by (cases "wr_faults s" rule: list.exhaust; cases "hd (wr_faults s)") (auto simp: syscall_def)

lemma refusals_fault: "wr_faults s = Some e # faults \<Longrightarrow> refusals (s\<lparr>wr_faults := faults\<rparr>) < refusals s"
  by (simp add: refusals_def)

lemma refusals_drop: "length (filter (\<lambda>f. f \<noteq> None) (drop 1 fs)) \<le> length (filter (\<lambda>f. f \<noteq> None) fs)"
  by (cases fs) simp_all

text \<open>A system call on the disk: what it must establish when it works, and what a refusal leaves.\<close>

lemma triple_syscall:
  assumes "\<And>s. P s \<Longrightarrow> Q () (s\<lparr>wr_disk := f (wr_disk s), wr_history := wr_history s @ [f (wr_disk s)],
      wr_faults := drop 1 (wr_faults s)\<rparr>)"
    and "\<And>s e faults. P s \<Longrightarrow> wr_faults s = Some e # faults \<Longrightarrow> E e (s\<lparr>wr_faults := faults\<rparr>)"
  shows "triple P (syscall f) Q E"
proof (rule tripleI)
  fix s x t assume "P s" "syscall f s = (Inr x, t)"
  then show "Q x t" using assms(1) by (cases rule: syscall_cases [of s f]) auto
next
  fix s e t assume "P s" "syscall f s = (Inl e, t)"
  then show "E e t" using assms(2) by (cases rule: syscall_cases [of s f]) auto
qed

lemma writing_refused:
  assumes "writing temporary path payload s0 n x s" and "wr_faults s = Some e # faults"
  shows "writing temporary path payload s0 (n - 1) x (s\<lparr>wr_faults := faults\<rparr>)"
  using assms refusals_fault [OF assms(2)] by (auto simp: writing_def kept_def)

definition fresh_beside :: "string \<Rightarrow> string \<Rightarrow> writer \<Rightarrow> bool" where
  "fresh_beside temporary path s \<longleftrightarrow> map_of (wr_disk s) temporary = None \<and> temporary \<noteq> path"

lemma writing_step:
  assumes "fresh_beside temporary path s0" and "writing temporary path payload s0 n x s"
  shows "writing temporary path payload s0 n (f x)
    (s\<lparr>wr_disk := change_file temporary f (wr_disk s),
       wr_history := wr_history s @ [change_file temporary f (wr_disk s)], wr_faults := drop 1 (wr_faults s)\<rparr>)"
proof -
  have d: "map_of (change_file temporary f (wr_disk s)) = (map_of (wr_disk s0))(temporary \<mapsto> f x)"
    using assms by (auto simp: writing_def change_file_def map_of_update)
  then have "target_states temporary path payload (wr_disk s0) (change_file temporary f (wr_disk s))"
    using assms(1) by (auto simp: target_states_def fresh_beside_def)
  with d assms refusals_drop [of "wr_faults s"] show ?thesis
    by (auto simp: writing_def kept_def refusals_def)
qed

lemma triple_change:
  "fresh_beside temporary path s0 \<Longrightarrow> triple (writing temporary path payload s0 n x) (syscall (change_file temporary f))
     (\<lambda>_. writing temporary path payload s0 n (f x)) (\<lambda>_. writing temporary path payload s0 (n - 1) x)"
  by (rule triple_syscall) (erule (1) writing_step, erule (1) writing_refused)

lemma triple_mkstemp:
  "fresh_beside temporary path s0 \<Longrightarrow> triple (\<lambda>s. s = s0) (mkstemp temporary)
     (\<lambda>_. writing temporary path payload s0 (refusals s0) \<lparr>fi_contents = [], fi_synced = False\<rparr>)
     (\<lambda>_ s. wr_disk s = wr_disk s0 \<and> wr_history s = wr_history s0)"
  unfolding mkstemp_def
  using refusals_drop [of "wr_faults s0"]
  by (intro triple_syscall)
     (auto simp: fresh_beside_def writing_def kept_def target_states_def map_of_update refusals_def)

lemma triple_replace:
  assumes "fresh_beside temporary path s0"
  shows "triple (writing temporary path payload s0 n \<lparr>fi_contents = payload, fi_synced = True\<rparr>) (replace_file temporary path)
     (\<lambda>_. written temporary path payload s0)
     (\<lambda>_. writing temporary path payload s0 (n - 1) \<lparr>fi_contents = payload, fi_synced = True\<rparr>)"
  unfolding replace_file_def
proof (rule triple_syscall)
  fix s assume w: "writing temporary path payload s0 n \<lparr>fi_contents = payload, fi_synced = True\<rparr> s"
  let ?f = "\<lambda>d. case map_of d temporary of None \<Rightarrow> d | Some x \<Rightarrow> AList.update path x (AList.delete temporary d)"
  have d: "map_of (?f (wr_disk s)) = (map_of (wr_disk s0))(path \<mapsto> \<lparr>fi_contents = payload, fi_synced = True\<rparr>)"
    using w assms by (auto simp: fresh_beside_def writing_def map_of_update delete_conv')
  then have "target_states temporary path payload (wr_disk s0) (?f (wr_disk s))"
    by (simp add: target_states_def)
  with d w show "written temporary path payload s0 (s\<lparr>wr_disk := ?f (wr_disk s),
      wr_history := wr_history s @ [?f (wr_disk s)], wr_faults := drop 1 (wr_faults s)\<rparr>)"
    by (auto simp: written_def writing_def kept_def)
qed (erule (1) writing_refused)

text \<open>The loop over the chunks, of which some may raise.\<close>

definition raising :: "string result list \<Rightarrow> nat" where
  "raising chunks = (if list_ex (\<lambda>c. \<exists>e. c = Inl e) chunks then 1 else 0)"

definition text_of :: "string result list \<Rightarrow> string" where
  "text_of chunks = concat (map (case_sum (\<lambda>_. []) (\<lambda>t. t)) chunks)"

definition stopped :: "string \<Rightarrow> string \<Rightarrow> string \<Rightarrow> writer \<Rightarrow> nat \<Rightarrow> writer \<Rightarrow> bool" where
  "stopped temporary path payload s0 n s \<longleftrightarrow> (\<exists>x. writing temporary path payload s0 n x s)"

lemma writing_stopped:
  "writing temporary path payload s0 m x s \<Longrightarrow> m \<le> n \<Longrightarrow> stopped temporary path payload s0 n s"
  by (auto simp: stopped_def writing_def)

lemma triple_chunk:
  assumes "fresh_beside temporary path s0" and "\<exists>e. c = Inl e \<Longrightarrow> n \<le> m" and "n - 1 \<le> m"
  shows "triple (writing temporary path payload s0 n \<lparr>fi_contents = text, fi_synced = False\<rparr>)
     (ebind (elift c) (write_chunk temporary))
     (\<lambda>_. writing temporary path payload s0 n \<lparr>fi_contents = text @ case_sum (\<lambda>_. []) (\<lambda>t. t) c, fi_synced = False\<rparr>)
     (\<lambda>_. stopped temporary path payload s0 m)"
proof (cases c)
  case (Inl e)
  then show ?thesis
    using assms(2) by (auto simp: triple_def ebind_eq stopped_def writing_def)
next
  case (Inr t)
  have "triple (writing temporary path payload s0 n \<lparr>fi_contents = text, fi_synced = False\<rparr>) (write_chunk temporary t)
     (\<lambda>_. writing temporary path payload s0 n \<lparr>fi_contents = text @ t, fi_synced = False\<rparr>)
     (\<lambda>_. stopped temporary path payload s0 m)"
    unfolding write_chunk_def
    by (rule triple_weaken [OF triple_change [OF assms(1), of payload n "\<lparr>fi_contents = text, fi_synced = False\<rparr>"]])
       (use assms(3) writing_stopped in \<open>fastforce+\<close>)
  then show ?thesis by (simp add: Inr triple_def ebind_eq)
qed

lemma text_of_take: "i < length chunks \<Longrightarrow> text_of (take (Suc i) chunks) =
    text_of (take i chunks) @ case_sum (\<lambda>_. []) (\<lambda>t. t) (chunks ! i)"
  by (simp add: text_of_def take_Suc_conv_app_nth)

lemma triple_chunks:
  assumes "fresh_beside temporary path s0"
  shows "triple (writing temporary path payload s0 n \<lparr>fi_contents = [], fi_synced = False\<rparr>)
     (efor chunks (\<lambda>c. ebind (elift c) (write_chunk temporary)))
     (\<lambda>_. writing temporary path payload s0 n \<lparr>fi_contents = text_of chunks, fi_synced = False\<rparr>)
     (\<lambda>_. stopped temporary path payload s0 (n - 1 + raising chunks))"
proof -
  have "triple (writing temporary path payload s0 n \<lparr>fi_contents = text_of (take 0 chunks), fi_synced = False\<rparr>)
     (efor chunks (\<lambda>c. ebind (elift c) (write_chunk temporary)))
     (\<lambda>_. writing temporary path payload s0 n \<lparr>fi_contents = text_of (take (length chunks) chunks), fi_synced = False\<rparr>)
     (\<lambda>_. stopped temporary path payload s0 (n - 1 + raising chunks))"
    by (rule triple_for [where I = "\<lambda>i. writing temporary path payload s0 n
          \<lparr>fi_contents = text_of (take i chunks), fi_synced = False\<rparr>"], subst text_of_take, assumption,
        rule triple_chunk [OF assms])
       (auto simp: raising_def list_ex_iff dest: nth_mem)
  then show ?thesis by (simp add: text_of_def)
qed

text \<open>The whole: what holds when it returns, and when it raises.\<close>

definition untouched :: "string \<Rightarrow> string \<Rightarrow> string \<Rightarrow> writer \<Rightarrow> nat \<Rightarrow> writer \<Rightarrow> bool" where
  "untouched temporary path payload s0 n s \<longleftrightarrow>
     kept temporary path payload s0 s \<and>
     (\<forall>q. q \<noteq> temporary \<longrightarrow> map_of (wr_disk s) q = map_of (wr_disk s0) q) \<and>
     (n = 0 \<longrightarrow> map_of (wr_disk s) temporary = None)"

lemma triple_cleanup_failed:
  assumes "fresh_beside temporary path s0"
  shows "triple (stopped temporary path payload s0 n)
     (\<lambda>s. if temporary \<in> fst ` set (wr_disk s) then unlink_file temporary s else (Inr (), s))
     (\<lambda>_. untouched temporary path payload s0 0) (\<lambda>_. untouched temporary path payload s0 n)"
proof -
  have "triple (stopped temporary path payload s0 n) (unlink_file temporary)
     (\<lambda>_. untouched temporary path payload s0 0) (\<lambda>_. untouched temporary path payload s0 n)"
    unfolding unlink_file_def
  proof (rule triple_syscall)
    fix s assume "stopped temporary path payload s0 n s"
    then obtain x where w: "writing temporary path payload s0 n x s" by (auto simp: stopped_def)
    then have d: "map_of (AList.delete temporary (wr_disk s)) = (map_of (wr_disk s0))(temporary := None)"
      by (simp add: writing_def delete_conv')
    then have "target_states temporary path payload (wr_disk s0) (AList.delete temporary (wr_disk s))"
      using assms by (auto simp: target_states_def fresh_beside_def)
    with d w show "untouched temporary path payload s0 0
        (s\<lparr>wr_disk := AList.delete temporary (wr_disk s),
           wr_history := wr_history s @ [AList.delete temporary (wr_disk s)], wr_faults := drop 1 (wr_faults s)\<rparr>)"
      by (auto simp: untouched_def writing_def kept_def)
  next
    fix s e faults assume "stopped temporary path payload s0 n s" and f: "wr_faults s = Some e # faults"
    then show "untouched temporary path payload s0 n (s\<lparr>wr_faults := faults\<rparr>)"
      by (auto simp: stopped_def untouched_def writing_def kept_def refusals_def)
  qed
  moreover have "temporary \<in> fst ` set (wr_disk s)" if "stopped temporary path payload s0 n s" for s
  proof -
    have "map_of (wr_disk s) temporary \<noteq> None" using that by (auto simp: stopped_def writing_def)
    then show ?thesis by (simp add: map_of_eq_None_iff)
  qed
  ultimately show ?thesis by (simp add: triple_def)
qed

lemma triple_cleanup_written:
  assumes "fresh_beside temporary path s0"
  shows "triple (written temporary path payload s0)
     (\<lambda>s. if temporary \<in> fst ` set (wr_disk s) then unlink_file temporary s else (Inr (), s))
     (\<lambda>_. written temporary path payload s0) (\<lambda>_ _. False)"
proof -
  have "temporary \<notin> fst ` set (wr_disk s)" if "written temporary path payload s0 s" for s
    using that assms by (simp add: written_def fresh_beside_def flip: map_of_eq_None_iff)
  then show ?thesis by (simp add: triple_def)
qed

lemma triple_write_through:
  assumes "fresh_beside temporary path s0" and "payload = text_of chunks"
  shows "triple (\<lambda>s. s = s0) (write_through temporary path chunks)
     (\<lambda>_. written temporary path payload s0)
     (\<lambda>_ s. untouched temporary path payload s0 (refusals s0 - 1 + raising chunks) s)"
proof -
  let ?n = "refusals s0"
  let ?m = "?n - 1 + raising chunks"
  have body: "triple (writing temporary path payload s0 ?n \<lparr>fi_contents = [], fi_synced = False\<rparr>)
     (eseq (efor chunks (\<lambda>c. ebind (elift c) (write_chunk temporary)))
           (eseq (fsync temporary) (replace_file temporary path)))
     (\<lambda>_. written temporary path payload s0) (\<lambda>_. stopped temporary path payload s0 ?m)"
  proof (rule triple_seq [OF triple_chunks [OF assms(1)]], rule triple_seq)
    show "triple (writing temporary path payload s0 ?n \<lparr>fi_contents = text_of chunks, fi_synced = False\<rparr>)
       (fsync temporary)
       (\<lambda>_. writing temporary path payload s0 ?n \<lparr>fi_contents = payload, fi_synced = True\<rparr>)
       (\<lambda>_. stopped temporary path payload s0 ?m)"
      unfolding fsync_def
      by (rule triple_weaken [OF triple_change [OF assms(1), of payload ?n
              "\<lparr>fi_contents = text_of chunks, fi_synced = False\<rparr>"]])
         (simp_all add: assms(2), erule writing_stopped, simp)
    show "triple (writing temporary path payload s0 ?n \<lparr>fi_contents = payload, fi_synced = True\<rparr>)
       (replace_file temporary path) (\<lambda>_. written temporary path payload s0)
       (\<lambda>_. stopped temporary path payload s0 ?m)"
      by (rule triple_weaken [OF triple_replace [OF assms(1), of payload ?n]])
         (simp_all, erule writing_stopped, simp)
  qed
  have start: "triple (\<lambda>s. s = s0) (mkstemp temporary)
     (\<lambda>_. writing temporary path payload s0 ?n \<lparr>fi_contents = [], fi_synced = False\<rparr>)
     (\<lambda>_ s. untouched temporary path payload s0 ?m s)"
    by (rule triple_weaken [OF triple_mkstemp [OF assms(1)]])
       (use assms(1) in \<open>simp_all add: untouched_def kept_def fresh_beside_def\<close>)
  show ?thesis
    unfolding write_through_def
  proof (rule triple_seq [OF start], rule triple_finally [OF body])
    show "triple (written temporary path payload s0)
       (\<lambda>s. if temporary \<in> fst ` set (wr_disk s) then unlink_file temporary s else (Inr (), s))
       (\<lambda>_. written temporary path payload s0) (\<lambda>_ s. untouched temporary path payload s0 ?m s)"
      by (rule triple_weaken [OF triple_cleanup_written [OF assms(1)]]) simp_all
    show "triple (stopped temporary path payload s0 ?m)
       (\<lambda>s. if temporary \<in> fst ` set (wr_disk s) then unlink_file temporary s else (Inr (), s))
       (\<lambda>_ s. untouched temporary path payload s0 ?m s) (\<lambda>_ s. untouched temporary path payload s0 ?m s)"
      by (rule triple_weaken [OF triple_cleanup_failed [OF assms(1)]]) (auto simp: untouched_def)
  qed
qed

text \<open>
  C27. \<open>_atomic_write\<close> implements an atomic update of one file. Whatever system calls are refused:
  after every operation, and so after a crash, the target holds its old file or the whole payload
  forced to the disk, and no other file than the temporary one differs; when it returns, the target
  holds the payload and the temporary file is gone; when it raises, every file is as before, and
  the temporary file is gone too unless a second system call was refused.
\<close>

theorem atomic_write_refines_update:
  assumes "map_of (wr_disk s) temporary = None" and "temporary \<noteq> path"
    and "atomic_write temporary path payload s = (r, t)"
  shows "\<exists>crashes. wr_history t = wr_history s @ crashes \<and>
      (\<forall>d\<in>set crashes. target_states temporary path payload (wr_disk s) d) \<and>
      (case r of
         Inr _ \<Rightarrow> map_of (wr_disk t) = (map_of (wr_disk s))(path \<mapsto> \<lparr>fi_contents = payload, fi_synced = True\<rparr>)
       | Inl _ \<Rightarrow> (\<forall>q. q \<noteq> temporary \<longrightarrow> map_of (wr_disk t) q = map_of (wr_disk s) q) \<and>
           (refusals s \<le> 1 \<longrightarrow> map_of (wr_disk t) temporary = None))"
proof -
  have "fresh_beside temporary path s" and "payload = text_of [Inr payload]"
    using assms(1,2) by (simp_all add: fresh_beside_def text_of_def)
  note tr = triple_write_through [OF this]
  show ?thesis
  proof (cases r)
    case (Inl e)
    then have "untouched temporary path payload s (refusals s - 1 + raising [Inr payload]) t"
      using triple_Inl [OF tr refl, of e t] assms(3) by (simp add: atomic_write_def)
    then show ?thesis by (auto simp: Inl untouched_def kept_def raising_def)
  next
    case (Inr u)
    then have "written temporary path payload s t"
      using triple_Inr [OF tr refl, of u t] assms(3) by (simp add: atomic_write_def)
    then show ?thesis by (auto simp: Inr written_def kept_def)
  qed
qed

theorem atomic_write_refines_update_witness:
  "\<exists>r t crashes. atomic_write ''r.tmp'' ''r.json'' ''new''
      \<lparr>wr_disk = [(''r.json'', \<lparr>fi_contents = ''old'', fi_synced = True\<rparr>)], wr_history = [],
       wr_faults = [None, None, Some (OtherError ''OSError'' ''no space'')]\<rparr> = (r, t) \<and>
    wr_history t = crashes \<and> length crashes = 3 \<and>
    (\<forall>d\<in>set crashes. map_of d ''r.json'' = Some \<lparr>fi_contents = ''old'', fi_synced = True\<rparr>) \<and>
    map_of (wr_disk t) ''r.tmp'' = None"
proof -
  let ?s = "\<lparr>wr_disk = [(''r.json'', \<lparr>fi_contents = ''old'', fi_synced = True\<rparr>)], wr_history = [],
       wr_faults = [None, None, Some (OtherError ''OSError'' ''no space'')]\<rparr>"
  obtain r t where e: "atomic_write ''r.tmp'' ''r.json'' ''new'' ?s = (r, t)"
    by (cases "atomic_write ''r.tmp'' ''r.json'' ''new'' ?s")
  have "case r of
         Inr _ \<Rightarrow> map_of (wr_disk t) = (map_of (wr_disk ?s))(''r.json'' \<mapsto> \<lparr>fi_contents = ''new'', fi_synced = True\<rparr>)
       | Inl _ \<Rightarrow> (\<forall>q. q \<noteq> ''r.tmp'' \<longrightarrow> map_of (wr_disk t) q = map_of (wr_disk ?s) q) \<and>
           (refusals ?s \<le> 1 \<longrightarrow> map_of (wr_disk t) ''r.tmp'' = None)"
    using atomic_write_refines_update [OF _ _ e] by auto
  moreover have "r = Inl (OtherError ''OSError'' ''no space'')" "length (wr_history t) = 3"
    "\<forall>d\<in>set (wr_history t). map_of d ''r.json'' = Some \<lparr>fi_contents = ''old'', fi_synced = True\<rparr>"
    using e by (auto simp: atomic_write_def write_through_def mkstemp_def write_chunk_def fsync_def unlink_file_def
        syscall_def change_file_def eseq_eq ebind_eq efinally_def)
  moreover have "refusals ?s = 1" by (simp add: refusals_def)
  ultimately show ?thesis using e by auto
qed

section \<open>Rows read back\<close>

definition one_line :: "string \<Rightarrow> bool" where
  "one_line text \<longleftrightarrow> CHR 0x0A \<notin> set text \<and> CHR 0x0D \<notin> set text \<and> \<not> is_blank text"

lemma split_lines_line:
  "CHR 0x0A \<notin> set line \<Longrightarrow> CHR 0x0D \<notin> set line \<Longrightarrow>
     split_lines False acc (line @ CHR 0x0A # rest) = (acc @ line) # split_lines False [] rest"
  by (induction line arbitrary: acc) auto

lemma split_lines_rows:
  "\<forall>text\<in>set texts. one_line text \<Longrightarrow> split_lines False [] (concat (map (\<lambda>text. text @ [CHR 0x0A]) texts)) = texts"
  by (induction texts) (simp_all add: split_lines_line one_line_def)

lemma jsonl_rows_texts:
  assumes "\<forall>v\<in>set rows. is_dict v \<and> (\<exists>text. stable_json v = Inr text \<and> one_line text \<and> loads text = Inr v)"
  shows "jsonl_rows loads path n (map (\<lambda>v. projr (stable_json v)) rows) = Inr rows"
  using assms by (induction rows arbitrary: n) (auto simp: one_line_def)

lemma efor_chunks_encoded:
  "efor chunks (\<lambda>c. ebind (elift c) (write_chunk temporary)) s = (Inr u, t) \<Longrightarrow> \<forall>c\<in>set chunks. \<exists>x. c = Inr x"
proof (induction chunks arbitrary: s)
  case (Cons c chunks)
  then show ?case by (cases c) (auto simp: eseq_eq ebind_eq split: prod.splits sum.splits)
qed simp

lemma write_through_encoded:
  "write_through temporary path chunks s = (Inr u, t) \<Longrightarrow> \<forall>c\<in>set chunks. \<exists>x. c = Inr x"
  unfolding write_through_def
  by (auto simp: efinally_def elim!: eseq_InrE split: prod.splits sum.splits dest!: efor_chunks_encoded)

text \<open>
  Rows that \<open>jsonl_write\<close> has written are the rows that \<open>jsonl_load\<close> reads: for rows that are
  objects, an encoder whose texts stay on one line (JSON escapes line ends) and a decoder that reads
  such a text back. When a row cannot be encoded it raises, and whenever it raises the file is as
  it was.
\<close>

theorem jsonl_roundtrip:
  assumes "map_of (wr_disk s) temporary = None" and "temporary \<noteq> path"
    and "jsonl_write stable_json temporary path rows s = (r, t)"
    and "\<forall>v\<in>set rows. is_dict v \<and>
      (\<forall>text. stable_json v = Inr text \<longrightarrow> one_line text \<and> loads text = Inr v)"
  shows "case r of
      Inr _ \<Rightarrow> (\<forall>v\<in>set rows. \<exists>text. stable_json v = Inr text) \<and> jsonl_load loads path (wr_disk t) = Inr rows
    | Inl _ \<Rightarrow> map_of (wr_disk t) path = map_of (wr_disk s) path"
proof -
  let ?chunks = "map (\<lambda>r. rbind (stable_json r) (\<lambda>text. Inr (text @ [CHR 0x0A]))) rows"
  have fresh: "fresh_beside temporary path s" using assms(1,2) by (simp add: fresh_beside_def)
  note tr = triple_write_through [OF fresh refl, of ?chunks]
  note w = assms(3) [unfolded jsonl_write_def]
  show ?thesis
  proof (cases r)
    case (Inl e)
    then show ?thesis using triple_Inl [OF tr refl, of e t] w assms(2) by (simp add: untouched_def)
  next
    case (Inr u)
    have enc: "\<exists>text. stable_json v = Inr text" if "v \<in> set rows" for v
      using write_through_encoded [OF w [unfolded Inr]] that by (auto simp: result_simps)
    let ?texts = "map (\<lambda>v. projr (stable_json v)) rows"
    have "text_of ?chunks = concat (map (\<lambda>text. text @ [CHR 0x0A]) ?texts)"
      using enc by (force simp: text_of_def intro!: arg_cong [where f = concat])
    moreover have "written temporary path (text_of ?chunks) s t"
      using triple_Inr [OF tr refl, of u t] w Inr by simp
    ultimately have "map_of (wr_disk t) path =
        Some \<lparr>fi_contents = concat (map (\<lambda>text. text @ [CHR 0x0A]) ?texts), fi_synced = True\<rparr>"
      by (simp add: written_def)
    moreover have "\<forall>text\<in>set ?texts. one_line text" using assms(4) enc by fastforce
    note split_lines_rows [OF this]
    moreover have "jsonl_rows loads path 1 ?texts = Inr rows"
      using assms(4) enc by (intro jsonl_rows_texts) blast
    ultimately show ?thesis using enc by (simp add: Inr jsonl_load_def del: map_map)
  qed
qed

theorem jsonl_roundtrip_witness:
  "\<exists>r t. jsonl_write (\<lambda>v. if v = PDict [] then Inr ''{}'' else Inl RecursionError) ''x.tmp'' ''x'' [PDict [], PDict []]
      \<lparr>wr_disk = [], wr_history = [], wr_faults = []\<rparr> = (r, t) \<and>
    r = Inr () \<and> jsonl_load (\<lambda>_. Inr (PDict [])) ''x'' (wr_disk t) = Inr [PDict [], PDict []]"
proof -
  let ?enc = "\<lambda>v. if v = PDict [] then Inr ''{}'' else Inl RecursionError"
  let ?s = "\<lparr>wr_disk = [], wr_history = [], wr_faults = []\<rparr>"
  obtain r t where e: "jsonl_write ?enc ''x.tmp'' ''x'' [PDict [], PDict []] ?s = (r, t)"
    by (cases "jsonl_write ?enc ''x.tmp'' ''x'' [PDict [], PDict []] ?s")
  then have "r = Inr ()"
    by (auto simp: jsonl_write_def write_through_def mkstemp_def write_chunk_def fsync_def replace_file_def
        syscall_def change_file_def eseq_eq ebind_eq efinally_def)
  then show ?thesis
    using e jsonl_roundtrip [OF _ _ e, of "\<lambda>_. Inr (PDict [])"] by (auto simp: one_line_def is_blank_def)
qed

end
