(* ===== verification/Trees.thy ===== *)
theory Trees
  imports Constants Effects
begin

text \<open>
  File trees and their digest: \<open>_excluded\<close>, \<open>sha256_file\<close> and \<open>sha256_tree\<close> of \<open>util.py\<close>. A file
  system is a dictionary from paths, as lists of their parts below the repository, to files and
  directories; names are ASCII. The digest of bytes is an argument, \<open>hash\<close>, with its bytes as the
  digest; the hexadecimal form of a digest is an argument too where it is a text.
\<close>

section \<open>File systems\<close>

datatype node = Folder | Plain string

type_synonym path = "string list"
type_synonym tree = "(path, node) dict"

definition exists_at :: "tree \<Rightarrow> path \<Rightarrow> bool" where
  "exists_at fs p \<longleftrightarrow> p \<in> fst ` set fs"

definition below :: "path \<Rightarrow> path \<Rightarrow> bool" where
  "below dir p \<longleftrightarrow> strict_prefix dir p"

definition relative_to :: "path \<Rightarrow> path \<Rightarrow> path" where
  "relative_to dir p = drop (length dir) p"

text \<open>\<open>[item for item in root.rglob("*") if item.is_file()]\<close>, each with its contents, sorted.\<close>

fun plain_of :: "path \<times> node \<Rightarrow> (path \<times> string) option" where
  "plain_of (p, Plain s) = Some (p, s)"
| "plain_of (p, Folder) = None"

definition files_below :: "path \<Rightarrow> tree \<Rightarrow> (path \<times> string) list" where
  "files_below dir fs = sort_key fst (List.map_filter plain_of (filter (\<lambda>(p, _). below dir p) fs))"

section \<open>The digest of a tree\<close>

definition rstrip_slash :: "string \<Rightarrow> string" where
  "rstrip_slash s = rev (dropWhile (\<lambda>c. c = CHR ''/'') (rev s))"

definition excluded :: "string \<Rightarrow> string list \<Rightarrow> bool" where
  "excluded relative patterns =
     list_ex (\<lambda>pattern. relative = rstrip_slash pattern \<or> prefix (rstrip_slash pattern @ ''/'') relative) patterns"

text \<open>\<open>PurePath.suffix\<close> of the last part.\<close>

definition name_suffix :: "string \<Rightarrow> string" where
  "name_suffix name =
     (if CHR ''.'' \<in> set (drop 1 name) \<and> last name \<noteq> CHR ''.''
      then CHR ''.'' # rev (takeWhile (\<lambda>c. c \<noteq> CHR ''.'') (rev name)) else [])"

definition counted :: "string list \<Rightarrow> path \<Rightarrow> path \<Rightarrow> bool" where
  "counted patterns dir p \<longleftrightarrow>
     below dir p \<and> ''__pycache__'' \<notin> set p \<and> name_suffix (last p) \<notin> {''.pyc'', ''.pyo''} \<and>
     \<not> excluded (join ''/'' (relative_to dir p)) patterns"

definition hashed_files :: "string list \<Rightarrow> path \<Rightarrow> tree \<Rightarrow> (string \<times> string) list" where
  "hashed_files patterns dir fs =
     map (\<lambda>(p, s). (join ''/'' (relative_to dir p), s))
       (filter (\<lambda>(p, _). counted patterns dir p) (files_below dir fs))"

definition tree_stream :: "(string \<Rightarrow> string) \<Rightarrow> (string \<times> string) list \<Rightarrow> string" where
  "tree_stream hash files = concat (map (\<lambda>(name, s). name @ [CHR 0x00] @ hash s) files)"

definition sha256_tree :: "(string \<Rightarrow> string) \<Rightarrow> string list \<Rightarrow> path \<Rightarrow> tree \<Rightarrow> string" where
  "sha256_tree hash patterns dir fs =
     (if \<not> exists_at fs dir then hash [] else hash (tree_stream hash (hashed_files patterns dir fs)))"

definition sha256_file :: "(string \<Rightarrow> string) \<Rightarrow> path \<Rightarrow> tree \<Rightarrow> string result" where
  "sha256_file hash p fs =
     (case map_of fs p of
        Some (Plain s) \<Rightarrow> Inr (hash s)
      | Some Folder \<Rightarrow> Inl (OtherError ''IsADirectoryError'' (join ''/'' p))
      | None \<Rightarrow> Inl (FileNotFoundError (join ''/'' p)))"

section \<open>File operations\<close>

definition os_error :: "string \<Rightarrow> path \<Rightarrow> exn" where
  "os_error name p = OtherError name (join ''/'' p)"

text \<open>\<open>mkdir(parents=True, exist_ok=True)\<close>: every missing directory on the way to \<open>p\<close>.\<close>

definition mkdir :: "path \<Rightarrow> tree \<Rightarrow> tree result" where
  "mkdir p fs =
     (case map_of fs p of
        None \<Rightarrow> Inr (AList.update p Folder fs)
      | Some Folder \<Rightarrow> Inr fs
      | Some (Plain _) \<Rightarrow> Inl (os_error ''FileExistsError'' p))"

fun run_steps :: "(tree \<Rightarrow> tree result) list \<Rightarrow> tree \<Rightarrow> tree result" where
  "run_steps [] fs = Inr fs"
| "run_steps (f # steps) fs = rbind (f fs) (run_steps steps)"

definition mkdirs :: "path \<Rightarrow> tree \<Rightarrow> tree result" where
  "mkdirs p = run_steps (map mkdir (prefixes p))"

section \<open>What the digest depends on\<close>

text \<open>A path exists only with the directory above it, as in every file system.\<close>

definition well_formed_tree :: "tree \<Rightarrow> bool" where
  "well_formed_tree fs \<longleftrightarrow>
     distinct (map fst fs) \<and>
     (\<forall>p q. p \<in> fst ` set fs \<longrightarrow> prefix q p \<longrightarrow> q \<in> fst ` set fs)"

lemma in_map_filter_iff: "y \<in> set (List.map_filter f xs) \<longleftrightarrow> (\<exists>x\<in>set xs. f x = Some y)"
  by (auto simp: List.map_filter_def image_iff)

lemma plain_of_Some [simp]: "plain_of n = Some (p, s) \<longleftrightarrow> n = (p, Plain s)"
  by (cases n rule: plain_of.cases) auto

lemma files_below_iff: "distinct (map fst fs) \<Longrightarrow>
    (p, s) \<in> set (files_below dir fs) \<longleftrightarrow> below dir p \<and> map_of fs p = Some (Plain s)"
  by (auto simp: files_below_def in_map_filter_iff)

lemma distinct_map_filter_plain:
  "distinct (map fst fs) \<Longrightarrow> distinct (map fst (List.map_filter plain_of fs))"
proof (induction fs)
  case (Cons n fs)
  obtain p x where n: "n = (p, x)" by (cases n)
  have "fst ` set (List.map_filter plain_of fs) \<subseteq> fst ` set fs"
    by (auto simp: in_map_filter_iff intro: rev_image_eqI)
  then show ?case using Cons by (cases x) (auto simp: n List.map_filter_simps)
qed (simp add: List.map_filter_simps)

lemma files_below_sorted:
  assumes "distinct (map fst fs)"
  shows "sorted (map fst (files_below dir fs))" and "distinct (map fst (files_below dir fs))"
proof -
  have "distinct (map fst (List.map_filter plain_of (filter (\<lambda>(p, _). below dir p) fs)))"
    using assms by (intro distinct_map_filter_plain distinct_map_filter)
  then show "distinct (map fst (files_below dir fs))"
    unfolding files_below_def by (metis mset_map mset_sort mset_eq_imp_distinct_iff)
qed (simp add: files_below_def)

definition counted_files :: "string list \<Rightarrow> path \<Rightarrow> tree \<Rightarrow> (path \<times> string) list" where
  "counted_files patterns dir fs = filter (\<lambda>(p, _). counted patterns dir p) (files_below dir fs)"

lemma counted_files_iff: "distinct (map fst fs) \<Longrightarrow>
    (p, s) \<in> set (counted_files patterns dir fs) \<longleftrightarrow> counted patterns dir p \<and> map_of fs p = Some (Plain s)"
  by (auto simp: counted_files_def files_below_iff counted_def)

lemma counted_files_cong:
  assumes "distinct (map fst fs)" and "distinct (map fst gs)"
    and "\<And>p. counted patterns dir p \<Longrightarrow> map_of fs p = map_of gs p"
  shows "counted_files patterns dir fs = counted_files patterns dir gs"
proof -
  have s: "sorted (map fst (counted_files patterns dir hs))" "distinct (map fst (counted_files patterns dir hs))"
    if "distinct (map fst hs)" for hs
    using files_below_sorted [OF that, of dir]
    by (simp_all add: counted_files_def sorted_filter distinct_map_filter)
  have "set (counted_files patterns dir fs) = set (counted_files patterns dir gs)"
    using counted_files_iff [OF assms(1), of _ _ patterns dir] counted_files_iff [OF assms(2), of _ _ patterns dir] assms(3)
    by (metis (no_types, lifting) subrelI subset_antisym)
  then show ?thesis
    using s [OF assms(1)] s [OF assms(2)]
    by (intro map_sorted_distinct_set_unique [of fst]) (auto simp: distinct_map)
qed

lemma hashed_files_counted:
  "hashed_files patterns dir fs = map (\<lambda>(p, s). (join ''/'' (relative_to dir p), s)) (counted_files patterns dir fs)"
  by (simp add: hashed_files_def counted_files_def)

lemma sha256_tree_stream:
  assumes "well_formed_tree fs"
  shows "sha256_tree hash patterns dir fs = hash (tree_stream hash (hashed_files patterns dir fs))"
proof (cases "exists_at fs dir")
  case False
  have "(p, c) \<notin> set (counted_files patterns dir fs)" for p c
  proof
    assume "(p, c) \<in> set (counted_files patterns dir fs)"
    then have "prefix dir p" "p \<in> fst ` set fs"
      using assms counted_files_iff [of fs p c patterns dir]
      by (auto simp: well_formed_tree_def counted_def below_def strict_prefix_def dest: map_of_SomeD
          intro: rev_image_eqI)
    then show False using assms False unfolding well_formed_tree_def exists_at_def by blast
  qed
  then have "counted_files patterns dir fs = []" by (metis list.set_intros(1) neq_Nil_conv surj_pair)
  then show ?thesis using False by (simp add: sha256_tree_def hashed_files_counted tree_stream_def)
qed (simp add: sha256_tree_def)

subsection \<open>The interface of the clients\<close>

text \<open>
  What the payload and the source lock rely on: a digest of the part of a tree that a predicate
  covers. It does not change when nothing it covers does.
\<close>

locale tree_digest =
  fixes digest :: "string list \<Rightarrow> path \<Rightarrow> tree \<Rightarrow> string"
    and covers :: "string list \<Rightarrow> path \<Rightarrow> path \<Rightarrow> bool"
  assumes frame: "distinct (map fst fs) \<Longrightarrow> distinct (map fst gs) \<Longrightarrow> exists_at fs dir = exists_at gs dir \<Longrightarrow>
      (\<And>p. covers patterns dir p \<Longrightarrow> map_of fs p = map_of gs p) \<Longrightarrow>
      digest patterns dir fs = digest patterns dir gs"
begin

lemma update_elsewhere:
  assumes "distinct (map fst fs)" and "exists_at fs dir" and "\<not> covers patterns dir q"
  shows "digest patterns dir (AList.update q n fs) = digest patterns dir fs"
  using assms by (intro frame) (auto simp: map_of_update distinct_update exists_at_def keys_update)

lemma update_file:
  assumes "distinct (map fst fs)" and "exists_at fs q" and "\<not> covers patterns dir q"
  shows "digest patterns dir (AList.update q n fs) = digest patterns dir fs"
  using assms by (intro frame) (auto simp: map_of_update distinct_update exists_at_def keys_update)

end

interpretation sha256: tree_digest "sha256_tree hash" counted for hash
proof
  fix fs gs :: tree and patterns dir
  assume wf: "distinct (map fst fs)" "distinct (map fst gs)" "exists_at fs dir = exists_at gs dir"
    and eq: "\<And>p. counted patterns dir p \<Longrightarrow> map_of fs p = map_of gs p"
  have "hashed_files patterns dir fs = hashed_files patterns dir gs"
    unfolding hashed_files_counted
    using wf eq by (subst counted_files_cong [of fs gs]) auto
  then show "sha256_tree hash patterns dir fs = sha256_tree hash patterns dir gs"
    using wf(3) by (simp add: sha256_tree_def)
qed

section \<open>What the digest binds\<close>

lemma tree_stream_unique:
  assumes "\<forall>(name, s)\<in>set xs \<union> set ys. CHR 0x00 \<notin> set name"
    and "\<forall>s\<in>snd ` (set xs \<union> set ys). length (hash s) = n"
    and "inj_on hash (snd ` (set xs \<union> set ys))"
    and "tree_stream hash xs = tree_stream hash ys"
  shows "xs = ys"
  using assms
proof (induction xs arbitrary: ys)
  case Nil
  then show ?case by (cases ys) (auto simp: tree_stream_def)
next
  case (Cons x xs)
  obtain name s where x: "x = (name, s)" by (cases x)
  obtain y ys' where ys: "ys = y # ys'" using Cons.prems(4) by (cases ys) (auto simp: tree_stream_def x)
  obtain name' s' where y: "y = (name', s')" by (cases y)
  have eq: "name @ CHR 0x00 # hash s @ tree_stream hash xs = name' @ CHR 0x00 # hash s' @ tree_stream hash ys'"
    using Cons.prems(4) by (simp add: tree_stream_def x ys y)
  have nul: "CHR 0x00 \<notin> set name" "CHR 0x00 \<notin> set name'" using Cons.prems(1) by (auto simp: x ys y)
  have "takeWhile (\<lambda>c. c \<noteq> CHR 0x00) (u @ CHR 0x00 # v) = u" if "CHR 0x00 \<notin> set u" for u v :: string
    using that by (induction u) auto
  then have "name = name'" using nul arg_cong [OF eq, of "takeWhile (\<lambda>c. c \<noteq> CHR 0x00)"] by simp
  moreover have "length (hash s) = length (hash s')" using Cons.prems(2) by (simp add: x ys y)
  ultimately have "hash s = hash s'" "tree_stream hash xs = tree_stream hash ys'" using eq by auto
  moreover from this(1) have "s = s'" by (rule inj_onD [OF Cons.prems(3)]) (simp_all add: x ys y)
  moreover have "xs = ys'"
  proof (rule Cons.IH)
    show "inj_on hash (snd ` (set xs \<union> set ys'))"
      by (rule inj_on_subset [OF Cons.prems(3)]) (auto simp: ys)
  qed (use Cons.prems calculation in \<open>auto simp: ys\<close>)
  ultimately show ?case using \<open>name = name'\<close> by (simp add: x ys y)
qed

text \<open>The messages whose digests enter the digest of a tree.\<close>

definition messages :: "(string \<Rightarrow> string) \<Rightarrow> string list \<Rightarrow> path \<Rightarrow> tree \<Rightarrow> string set" where
  "messages hash patterns dir fs =
     insert (tree_stream hash (hashed_files patterns dir fs)) (snd ` set (hashed_files patterns dir fs))"

lemma digest_binds:
  assumes "well_formed_tree fs" and "well_formed_tree gs"
    and "\<forall>(name, s)\<in>set (hashed_files patterns dir fs) \<union> set (hashed_files patterns dir gs). CHR 0x00 \<notin> set name"
    and "\<forall>s. length (hash s) = 32"
    and "inj_on hash (messages hash patterns dir fs \<union> messages hash patterns dir gs)"
    and "sha256_tree hash patterns dir fs = sha256_tree hash patterns dir gs"
  shows "hashed_files patterns dir fs = hashed_files patterns dir gs"
proof (rule tree_stream_unique [where hash = hash and n = 32])
  have "hash (tree_stream hash (hashed_files patterns dir fs)) = hash (tree_stream hash (hashed_files patterns dir gs))"
    using assms(6) sha256_tree_stream [OF assms(1)] sha256_tree_stream [OF assms(2)] by simp
  then show "tree_stream hash (hashed_files patterns dir fs) = tree_stream hash (hashed_files patterns dir gs)"
    by (rule inj_onD [OF assms(5)]) (simp_all add: messages_def)
  show "inj_on hash (snd ` (set (hashed_files patterns dir fs) \<union> set (hashed_files patterns dir gs)))"
    by (rule inj_on_subset [OF assms(5)]) (auto simp: messages_def)
qed (use assms(3,4) in auto)

end
