(* ===== verification/SourceLock.thy ===== *)
theory SourceLock
  imports Trees PyValue Comparators
begin

text \<open>
  \<open>source_lock.py\<close>: the measurement of the sources and its comparison with the lock. The lock is a
  file of the tree: \<open>dumps\<close> is the text that \<open>write_json\<close> gives a document and \<open>loads\<close> what
  \<open>json.loads\<close> makes of a text; \<open>hex\<close> is the hexadecimal form of a digest.
\<close>

section \<open>Documents in a tree\<close>

definition read_document :: "(string \<Rightarrow> pv result) \<Rightarrow> path \<Rightarrow> tree \<Rightarrow> pv result" where
  "read_document loads p fs =
     (case map_of fs p of
        Some (Plain s) \<Rightarrow> loads s
      | Some Folder \<Rightarrow> Inl (OtherError ''IsADirectoryError'' (join ''/'' p))
      | None \<Rightarrow> Inl (FileNotFoundError (join ''/'' p)))"

definition write_document :: "(pv \<Rightarrow> string) \<Rightarrow> path \<Rightarrow> pv \<Rightarrow> tree \<Rightarrow> tree" where
  "write_document dumps p v fs = AList.update p (Plain (dumps v)) fs"

section \<open>The measurement\<close>

definition LOCK_PATH :: path where
  "LOCK_PATH = [''reference'', ''lock.json'']"

definition MEASURED_TREES :: "(string \<times> path) list" where
  "MEASURED_TREES =
     [(''evaluator_source_tree_sha256'', [''src'', ''osbench'']), (''test_source_tree_sha256'', [''tests'']),
      (''reference_builder_source_tree_sha256'', [''reference'', ''build'']),
      (''raw_probe_source_tree_sha256'', [''probes'']), (''workload_source_tree_sha256'', [''workloads'']),
      (''payload_source_tree_sha256'', [''reference'', ''guest''])]"

definition MEASURED_FILES :: "(string \<times> path) list" where
  "MEASURED_FILES =
     [(''contract_schema_sha256'', [''contracts'', ''schema'', ''contract.schema.json'']),
      (''benchmark_config_sha256'', [''config'', ''benchmark.yaml'']), (''qemu_config_sha256'', [''config'', ''qemu.yaml''])]"

definition contract_corpus_sha256 :: "(string \<Rightarrow> string) \<Rightarrow> tree \<Rightarrow> string" where
  "contract_corpus_sha256 hash fs = sha256_tree hash [''schema''] [''contracts''] fs"

fun measure_files :: "(string \<Rightarrow> string) \<Rightarrow> (string \<Rightarrow> string) \<Rightarrow> (string \<times> path) list \<Rightarrow> tree \<Rightarrow> (string \<times> pv) list result" where
  "measure_files hash hex [] fs = Inr []"
| "measure_files hash hex ((k, p) # rest) fs =
     rbind (if exists_at fs p then rbind (sha256_file hash p fs) (\<lambda>d. Inr (PStr (hex d))) else Inr PNone) (\<lambda>v.
     rbind (measure_files hash hex rest fs) (\<lambda>vs. Inr ((k, v) # vs)))"

definition measure :: "(string \<Rightarrow> string) \<Rightarrow> (string \<Rightarrow> string) \<Rightarrow> tree \<Rightarrow> (string \<times> pv) list result" where
  "measure hash hex fs =
     rbind (measure_files hash hex MEASURED_FILES fs) (\<lambda>files.
       Inr ((''contract_corpus_sha256'', PStr (hex (contract_corpus_sha256 hash fs))) #
            map (\<lambda>(k, p). (k, if exists_at fs p then PStr (hex (sha256_tree hash [] p fs)) else PNone)) MEASURED_TREES @
            files))"

section \<open>Synchronization\<close>

definition mismatches_of :: "(string \<times> pv) list \<Rightarrow> pv \<Rightarrow> (string \<times> pv) list" where
  "mismatches_of measured current =
     map (\<lambda>(k, v). (k, PDict [(''expected'', pget_default current k PNone), (''observed'', v)]))
       (filter (\<lambda>(k, v). \<not> py_eq (pget_default current k PNone) v) measured)"

definition lock_report :: "bool \<Rightarrow> (string \<times> pv) list \<Rightarrow> (string \<times> pv) list \<Rightarrow> pv" where
  "lock_report check mismatches measured =
     PDict [(''valid'', PBool (mismatches = [])), (''check'', PBool check), (''mismatches'', PDict mismatches),
            (''differences'', PDict mismatches), (''measured'', PDict measured),
            (''path'', PStr (join ''/'' LOCK_PATH))]"

definition updated_lock :: "pv \<Rightarrow> (string \<times> pv) list \<Rightarrow> pv" where
  "updated_lock lock measured =
     PDict (AList.update ''benchmark_artifacts''
       (PDict (foldl (\<lambda>d (k, v). AList.update k v d)
         (items_of (pget_default lock ''benchmark_artifacts'' (PDict []))) measured)) (items_of lock))"

definition synchronize_source_lock ::
  "(string \<Rightarrow> string) \<Rightarrow> (string \<Rightarrow> string) \<Rightarrow> (pv \<Rightarrow> string) \<Rightarrow> (string \<Rightarrow> pv result) \<Rightarrow> bool \<Rightarrow> (tree, pv) eff" where
  "synchronize_source_lock hash hex dumps loads check fs =
     (case rbind (read_document loads LOCK_PATH fs) (\<lambda>lock.
           rbind (measure hash hex fs) (\<lambda>measured. Inr (lock, measured))) of
        Inl e \<Rightarrow> (Inl e, fs)
      | Inr (lock, measured) \<Rightarrow>
          if \<not> is_dict lock then (Inl (AttributeError ''object has no attribute setdefault''), fs)
          else
            (let current = pget_default lock ''benchmark_artifacts'' (PDict []) in
             if \<not> is_dict current then (Inl (AttributeError ''object has no attribute get''), fs)
             else if check then (Inr (lock_report check (mismatches_of measured current) measured), fs)
             else (Inr (lock_report check [] measured), write_document dumps LOCK_PATH (updated_lock lock measured) fs)))"

section \<open>The lock is not among what is measured\<close>

lemma lock_not_counted: "dir \<in> insert [''contracts''] (snd ` set MEASURED_TREES) \<Longrightarrow> \<not> counted patterns dir LOCK_PATH"
  by (auto simp: MEASURED_TREES_def LOCK_PATH_def counted_def below_def strict_prefix_def)

lemma lock_not_measured_file: "p \<in> snd ` set MEASURED_FILES \<Longrightarrow> p \<noteq> LOCK_PATH"
  by (auto simp: MEASURED_FILES_def LOCK_PATH_def)

lemma measure_files_cong:
  "(\<And>k p. (k, p) \<in> set ps \<Longrightarrow> map_of fs p = map_of gs p) \<Longrightarrow> measure_files hash hex ps fs = measure_files hash hex ps gs"
proof (induction ps)
  case (Cons kp ps)
  obtain k p where kp: "kp = (k, p)" by (cases kp)
  have "map_of fs p = map_of gs p" using Cons.prems [of k p] by (simp add: kp)
  moreover from this have "exists_at fs p = exists_at gs p"
    by (metis exists_at_def map_of_eq_None_iff)
  moreover have "measure_files hash hex ps fs = measure_files hash hex ps gs"
    by (rule Cons.IH) (auto intro: Cons.prems)
  ultimately show ?case by (simp add: kp sha256_file_def)
qed simp

lemma measure_write_lock:
  assumes "distinct (map fst fs)" and "LOCK_PATH \<in> fst ` set fs"
  shows "measure hash hex (write_document dumps LOCK_PATH v fs) = measure hash hex fs"
proof -
  let ?gs = "write_document dumps LOCK_PATH v fs"
  have digest: "sha256_tree hash patterns dir ?gs = sha256_tree hash patterns dir fs"
    if "dir \<in> insert [''contracts''] (snd ` set MEASURED_TREES)" for patterns dir
    using sha256.update_file [OF assms(1) _ lock_not_counted [OF that]] assms(2)
    by (simp add: write_document_def exists_at_def)
  have ex: "exists_at ?gs p = exists_at fs p" for p
    using assms(2) by (auto simp: exists_at_def write_document_def keys_update)
  have trees: "map (\<lambda>(k, p). (k, if exists_at ?gs p then PStr (hex (sha256_tree hash [] p ?gs)) else PNone)) MEASURED_TREES =
      map (\<lambda>(k, p). (k, if exists_at fs p then PStr (hex (sha256_tree hash [] p fs)) else PNone)) MEASURED_TREES"
  proof (intro map_cong refl)
    fix kp assume "kp \<in> set MEASURED_TREES"
    then have "snd kp \<in> insert [''contracts''] (snd ` set MEASURED_TREES)" by blast
    from digest [OF this, of "[]"] show "(\<lambda>(k, p). (k, if exists_at ?gs p then PStr (hex (sha256_tree hash [] p ?gs)) else PNone)) kp =
        (\<lambda>(k, p). (k, if exists_at fs p then PStr (hex (sha256_tree hash [] p fs)) else PNone)) kp"
      using ex by (simp add: case_prod_beta)
  qed
  have files: "measure_files hash hex MEASURED_FILES ?gs = measure_files hash hex MEASURED_FILES fs"
    using lock_not_measured_file by (intro measure_files_cong) (force simp: write_document_def map_of_update)
  show ?thesis
    unfolding measure_def contract_corpus_sha256_def trees files using digest [of "[''contracts'']"] by simp
qed

lemma measure_keys:
  "measure hash hex fs = Inr m \<Longrightarrow>
     map fst m = ''contract_corpus_sha256'' # map fst MEASURED_TREES @ map fst MEASURED_FILES"
proof -
  have "measure_files hash hex ps fs = Inr vs \<Longrightarrow> map fst vs = map fst ps" for ps vs
    by (induction ps arbitrary: vs) (auto simp: result_simps)
  then show "measure hash hex fs = Inr m \<Longrightarrow> ?thesis"
    by (auto simp: measure_def result_simps comp_def case_prod_beta)
qed

lemma measure_values: "measure hash hex fs = Inr m \<Longrightarrow> (k, v) \<in> set m \<Longrightarrow> wf_pv v"
proof -
  have "measure_files hash hex ps fs = Inr vs \<Longrightarrow> (k, v) \<in> set vs \<Longrightarrow> wf_pv v" for ps vs
    by (induction ps arbitrary: vs) (auto simp: result_simps split: if_splits)
  then show "measure hash hex fs = Inr m \<Longrightarrow> (k, v) \<in> set m \<Longrightarrow> ?thesis"
    by (auto simp: measure_def result_simps split: if_splits)
qed

lemma foldl_updates:
  "distinct (map fst m) \<Longrightarrow> (k, v) \<in> set m \<Longrightarrow> map_of (foldl (\<lambda>d (k, v). AList.update k v d) d m) k = Some v"
proof (induction m rule: rev_induct)
  case (snoc x m)
  then show ?case by (cases x) (force simp: map_of_update)
qed simp

lemma mismatches_after_update:
  assumes "measure hash hex fs = Inr m"
  shows "mismatches_of m (PDict (foldl (\<lambda>d (k, v). AList.update k v d) d m)) = []"
proof -
  have "distinct (map fst m)"
    unfolding measure_keys [OF assms] by (simp add: MEASURED_TREES_def MEASURED_FILES_def)
  then have "py_eq (pget_default (PDict (foldl (\<lambda>d (k, v). AList.update k v d) d m)) k PNone) v"
    if "(k, v) \<in> set m" for k v
    using that measure_values [OF assms that] by (simp add: pget_default_def pget_def foldl_updates)
  then show ?thesis by (auto simp: mismatches_of_def filter_empty_conv)
qed

text \<open>
  C30. After the lock has been synchronized, a check of the same sources succeeds and finds no
  mismatch: the digests are stored under the names under which they are compared, and writing the
  lock changes nothing that is measured. The only assumption is that the document that was written
  reads back.
\<close>

theorem synchronized_lock_checks:
  assumes "distinct (map fst fs)"
    and "synchronize_source_lock hash hex dumps loads False fs = (Inr report, gs)"
    and "\<forall>lock measured. read_document loads LOCK_PATH fs = Inr lock \<and> measure hash hex fs = Inr measured \<longrightarrow>
      loads (dumps (updated_lock lock measured)) = Inr (updated_lock lock measured)"
  shows "\<exists>measured. measure hash hex fs = Inr measured \<and>
    synchronize_source_lock hash hex dumps loads True gs = (Inr (lock_report True [] measured), gs)"
proof -
  obtain lock measured where lock: "read_document loads LOCK_PATH fs = Inr lock" "measure hash hex fs = Inr measured"
    and gs: "gs = write_document dumps LOCK_PATH (updated_lock lock measured) fs"
    using assms(2) by (auto simp: synchronize_source_lock_def Let_def result_simps split: sum.splits if_splits)
  have "LOCK_PATH \<in> fst ` set fs"
    using lock(1) by (auto simp: read_document_def split: option.splits dest: map_of_SomeD intro: rev_image_eqI)
  then have m: "measure hash hex gs = Inr measured"
    unfolding gs using measure_write_lock [OF assms(1)] lock(2) by simp
  have "read_document loads LOCK_PATH gs = Inr (updated_lock lock measured)"
    using assms(3) lock by (simp add: gs read_document_def write_document_def map_of_update)
  then have "synchronize_source_lock hash hex dumps loads True gs = (Inr (lock_report True [] measured), gs)"
    using m mismatches_after_update [OF lock(2)]
    by (simp add: synchronize_source_lock_def updated_lock_def pget_default_def pget_def map_of_update)
  then show ?thesis using lock(2) by blast
qed

definition demo_tree :: tree where
  "demo_tree =
     [([], Folder), ([''reference''], Folder), ([''reference'', ''lock.json''], Plain ''{}''),
      ([''probes''], Folder), ([''probes'', ''build.sh''], Plain ''make'')]"

text \<open>A coding of the two documents of the witness, and a digest that is not constant.\<close>

definition demo_hash :: "string \<Rightarrow> string" where
  "demo_hash s = take 32 (s @ replicate 32 (CHR ''x''))"

definition demo_measured :: "(string \<times> pv) list" where
  "demo_measured = projr (measure demo_hash (\<lambda>d. d) demo_tree)"

definition demo_loads :: "string \<Rightarrow> pv result" where
  "demo_loads s = (if s = ''{}'' then Inr (PDict []) else Inr (updated_lock (PDict []) demo_measured))"

theorem synchronized_lock_checks_witness:
  "\<exists>gs measured. synchronize_source_lock demo_hash (\<lambda>d. d) (\<lambda>_. ''synchronized'') demo_loads True gs =
      (Inr (lock_report True [] measured), gs) \<and>
    map_of gs LOCK_PATH = Some (Plain ''synchronized'') \<and>
    map_of measured ''raw_probe_source_tree_sha256'' = Some (PStr (demo_hash (''build.sh'' @ [CHR 0x00] @ demo_hash ''make'')))"
proof -
  have wf: "distinct (map fst demo_tree)" by (simp add: demo_tree_def)
  have m: "measure demo_hash (\<lambda>d. d) demo_tree = Inr demo_measured"
    unfolding demo_measured_def by (simp add: measure_def MEASURED_FILES_def demo_tree_def exists_at_def)
  have lock: "read_document demo_loads LOCK_PATH demo_tree = Inr (PDict [])"
    by (simp add: read_document_def demo_tree_def LOCK_PATH_def demo_loads_def)
  let ?gs = "write_document (\<lambda>_. ''synchronized'') LOCK_PATH (updated_lock (PDict []) demo_measured) demo_tree"
  have s: "synchronize_source_lock demo_hash (\<lambda>d. d) (\<lambda>_. ''synchronized'') demo_loads False demo_tree =
      (Inr (lock_report False [] demo_measured), ?gs)"
    by (simp add: synchronize_source_lock_def lock m pget_default_def pget_def)
  obtain measured where "measure demo_hash (\<lambda>d. d) demo_tree = Inr measured"
    and c: "synchronize_source_lock demo_hash (\<lambda>d. d) (\<lambda>_. ''synchronized'') demo_loads True ?gs =
      (Inr (lock_report True [] measured), ?gs)"
    using synchronized_lock_checks [OF wf s] lock m by (auto simp: demo_loads_def)
  then have "measured = demo_measured" using m by simp
  moreover have "map_of demo_measured ''raw_probe_source_tree_sha256'' =
      Some (PStr (demo_hash (''build.sh'' @ [CHR 0x00] @ demo_hash ''make'')))"
    unfolding demo_measured_def by code_simp
  moreover have "map_of ?gs LOCK_PATH = Some (Plain ''synchronized'')"
    by (simp add: write_document_def map_of_update)
  ultimately show ?thesis using c by blast
qed

end
