(* ===== verification/Payload.thy ===== *)
theory Payload
  imports SourceLock
begin

text \<open>
  \<open>payload.py\<close>: the staging of the evaluator's payload from the sources, its manifest, and the
  validation of a staged tree. The output lies outside the trees that are copied.
\<close>

section \<open>File operations\<close>

definition rmtree :: "path \<Rightarrow> tree \<Rightarrow> tree result" where
  "rmtree p fs =
     (case map_of fs p of
        Some Folder \<Rightarrow> Inr (filter (\<lambda>(q, _). \<not> prefix p q) fs)
      | Some (Plain _) \<Rightarrow> Inl (os_error ''NotADirectoryError'' p)
      | None \<Rightarrow> Inl (FileNotFoundError (join ''/'' p)))"

definition copy_file :: "path \<Rightarrow> path \<Rightarrow> tree \<Rightarrow> tree result" where
  "copy_file source destination fs =
     (case map_of fs source of
        Some (Plain s) \<Rightarrow>
          (if map_of fs destination = Some Folder then Inl (os_error ''IsADirectoryError'' destination)
           else if map_of fs (butlast destination) \<noteq> Some Folder then Inl (FileNotFoundError (join ''/'' destination))
           else Inr (AList.update destination (Plain s) fs))
      | Some Folder \<Rightarrow> Inl (os_error ''IsADirectoryError'' source)
      | None \<Rightarrow> Inl (FileNotFoundError (join ''/'' source)))"

text \<open>
  \<open>copytree(source, destination, dirs_exist_ok=True)\<close>: the entries are copied top down; a file
  cannot take the place of a directory nor a directory that of a file.
\<close>

definition copy_node :: "path \<Rightarrow> node \<Rightarrow> tree \<Rightarrow> tree result" where
  "copy_node destination n fs =
     (case n of
        Folder \<Rightarrow> mkdir destination fs
      | Plain s \<Rightarrow>
          (if map_of fs destination = Some Folder then Inl (os_error ''IsADirectoryError'' destination)
           else Inr (AList.update destination (Plain s) fs)))"

definition copytree :: "path \<Rightarrow> path \<Rightarrow> tree \<Rightarrow> tree result" where
  "copytree source destination fs =
     (case map_of fs source of
        None \<Rightarrow> Inl (FileNotFoundError (join ''/'' source))
      | Some (Plain _) \<Rightarrow> Inl (os_error ''NotADirectoryError'' source)
      | Some Folder \<Rightarrow>
          run_steps
            (mkdirs destination #
             map (\<lambda>(p, n). copy_node (destination @ relative_to source p) n)
               (sort_key fst (filter (\<lambda>(p, _). below source p) fs)))
            fs)"

definition when_exists :: "path \<Rightarrow> (tree \<Rightarrow> tree result) \<Rightarrow> tree \<Rightarrow> tree result" where
  "when_exists p f fs = (if exists_at fs p then f fs else Inr fs)"

section \<open>Staging\<close>

definition STAGING :: path where
  "STAGING = [''artifacts'', ''payload'', ''staging'']"

definition AGENT_FILES :: "(path \<times> path) list" where
  "AGENT_FILES =
     [([''reference'', ''guest'', ''osbench_agent.py''], [''agent'', ''osbench_agent.py'']),
      ([''reference'', ''guest'', ''osbench-inventory.sh''], [''agent'', ''osbench-inventory.sh'']),
      ([''reference'', ''guest'', ''osbench-agent.service''], [''agent'', ''osbench-agent.service''])]"

definition BUILT_TREES :: "(path \<times> path) list" where
  "BUILT_TREES =
     [([''artifacts'', ''probes''], [''probes'']), ([''artifacts'', ''workloads''], [''workloads'']),
      ([''artifacts'', ''packages''], [''packages''])]"

definition SOURCE_TREES :: "(path \<times> path) list" where
  "SOURCE_TREES = [([''probes''], [''source'', ''probes'']), ([''workloads''], [''source'', ''workloads''])]"

definition staging_steps :: "path \<Rightarrow> (tree \<Rightarrow> tree result) list" where
  "staging_steps output =
     when_exists output (rmtree output) #
     map (\<lambda>name. mkdirs (output @ [name])) [''agent'', ''probes'', ''workloads'', ''packages'', ''source''] @
     map (\<lambda>(source, destination). when_exists source (copy_file source (output @ destination))) AGENT_FILES @
     map (\<lambda>(source, destination). when_exists source (copytree source (output @ destination))) BUILT_TREES @
     map (\<lambda>(source, destination). copytree source (output @ destination)) SOURCE_TREES"

definition payload_tree_hash :: "(string \<Rightarrow> string) \<Rightarrow> path \<Rightarrow> tree \<Rightarrow> string" where
  "payload_tree_hash hash p fs = sha256_tree hash [''manifest.json''] p fs"

definition count_files :: "path \<Rightarrow> tree \<Rightarrow> nat" where
  "count_files p fs = length (files_below p fs)"

definition count_folders :: "path \<Rightarrow> tree \<Rightarrow> nat" where
  "count_folders p fs = length (filter (\<lambda>(q, n). below p q \<and> n = Folder) fs)"

definition payload_manifest :: "(string \<Rightarrow> string) \<Rightarrow> (string \<Rightarrow> string) \<Rightarrow> path \<Rightarrow> tree \<Rightarrow> (string \<times> pv) list" where
  "payload_manifest hash hex output fs =
     [(''schema_version'', PStr ''osbench.payload.v1''),
      (''tree_sha256'', PStr (hex (payload_tree_hash hash output fs))),
      (''files'', PInt (int (count_files output fs))),
      (''directories'', PInt (int (count_folders output fs)))]"

definition stage_payload ::
  "(string \<Rightarrow> string) \<Rightarrow> (string \<Rightarrow> string) \<Rightarrow> (pv \<Rightarrow> string) \<Rightarrow> path \<Rightarrow> tree \<Rightarrow> (tree \<times> pv) result" where
  "stage_payload hash hex dumps output fs =
     rbind (run_steps (staging_steps output) fs) (\<lambda>staged.
       (let manifest = payload_manifest hash hex output staged in
        Inr (write_document dumps (output @ [''manifest.json'']) (PDict manifest) staged,
             PDict (manifest @ [(''output'', PStr (join ''/'' output))]))))"

section \<open>Validation\<close>

definition REQUIRED :: "path list" where
  "REQUIRED =
     [[''agent'', ''osbench_agent.py''], [''agent'', ''osbench-inventory.sh''], [''source'', ''probes'', ''build.sh''],
      [''source'', ''workloads'', ''build.sh''], [''manifest.json'']]"

definition missing_of :: "path \<Rightarrow> tree \<Rightarrow> string list" where
  "missing_of p fs =
     map (\<lambda>relative. ''missing '' @ join ''/'' relative) (filter (\<lambda>relative. \<not> exists_at fs (p @ relative)) REQUIRED)"

definition payload_report :: "path \<Rightarrow> string list \<Rightarrow> nat \<Rightarrow> pv" where
  "payload_report p issues n =
     PDict [(''valid'', PBool (issues = [])), (''issues'', PList (map PStr issues)),
            (''path'', PStr (join ''/'' p)), (''files'', PInt (int n))]"

definition digest_issue :: "(string \<Rightarrow> string) \<Rightarrow> (string \<Rightarrow> string) \<Rightarrow> (string \<Rightarrow> pv result) \<Rightarrow> path \<Rightarrow> tree \<Rightarrow> string list result" where
  "digest_issue hash hex loads p fs =
     (if \<not> exists_at fs (p @ [''manifest.json'']) then Inr []
      else
        rbind (read_document loads (p @ [''manifest.json'']) fs) (\<lambda>document.
        rbind (py_get document ''tree_sha256'' PNone) (\<lambda>recorded.
          Inr (if py_eq recorded (PStr (hex (payload_tree_hash hash p fs))) then []
               else [''payload tree digest mismatch'']))))"

definition validate_payload_tree ::
  "(string \<Rightarrow> string) \<Rightarrow> (string \<Rightarrow> string) \<Rightarrow> (string \<Rightarrow> pv result) \<Rightarrow> path \<Rightarrow> tree \<Rightarrow> pv result" where
  "validate_payload_tree hash hex loads p fs =
     rbind (digest_issue hash hex loads p fs) (\<lambda>mismatch.
       Inr (payload_report p (missing_of p fs @ mismatch) (if exists_at fs p then count_files p fs else 0)))"

section \<open>The medium\<close>

text \<open>\<open>build_payload\<close>: \<open>xorriso\<close> is the tool if it is found, with its return code, its error output
  and the digest of the medium it leaves.\<close>

definition build_payload ::
  "(string \<Rightarrow> string) \<Rightarrow> (string \<Rightarrow> string) \<Rightarrow> (pv \<Rightarrow> string) \<Rightarrow> (int \<times> string \<times> string) option \<Rightarrow> string option \<Rightarrow>
     (tree, pv) eff" where
  "build_payload hash hex dumps xorriso output fs =
     (let iso = (case output of Some p \<Rightarrow> p | None \<Rightarrow> ''artifacts/payload/osbench-payload.iso'') in
      case stage_payload hash hex dumps STAGING fs of
        Inl e \<Rightarrow> (Inl e, fs)
      | Inr (gs, stage) \<Rightarrow>
          (case xorriso of
             None \<Rightarrow> (Inr (PDict (items_of stage @ [(''iso'', PStr iso), (''built'', PBool False),
                        (''reason'', PStr ''xorriso unavailable; staging tree is complete'')])), gs)
           | Some (code, stderr, sha) \<Rightarrow>
               if code \<noteq> 0 then (Inl (RuntimeError stderr), gs)
               else (Inr (PDict (items_of stage @ [(''iso'', PStr iso), (''iso_sha256'', PStr (hex sha)),
                        (''built'', PBool True)])), gs)))"

section \<open>What staging keeps\<close>

text \<open>Every step but the first keeps the tree well formed and every path that exists.\<close>

definition extends :: "(tree \<Rightarrow> tree result) \<Rightarrow> bool" where
  "extends f \<longleftrightarrow>
     (\<forall>fs gs. f fs = Inr gs \<longrightarrow> distinct (map fst fs) \<longrightarrow>
        distinct (map fst gs) \<and> fst ` set fs \<subseteq> fst ` set gs)"

lemma extendsD:
  "extends f \<Longrightarrow> f fs = Inr gs \<Longrightarrow> distinct (map fst fs) \<Longrightarrow> distinct (map fst gs)"
  "extends f \<Longrightarrow> f fs = Inr gs \<Longrightarrow> distinct (map fst fs) \<Longrightarrow> fst ` set fs \<subseteq> fst ` set gs"
  unfolding extends_def by blast+

lemma extends_run: "\<forall>f\<in>set steps. extends f \<Longrightarrow> extends (run_steps steps)"
proof (induction steps)
  case (Cons f steps)
  then have f: "extends f" "extends (run_steps steps)" by simp_all
  show ?case
    unfolding extends_def
  proof (intro allI impI)
    fix fs gs assume run: "run_steps (f # steps) fs = Inr gs" and d: "distinct (map fst fs)"
    obtain us where us: "f fs = Inr us" "run_steps steps us = Inr gs" using run by (auto simp: result_simps)
    note one = extendsD [OF f(1) us(1) d]
    note two = extendsD [OF f(2) us(2) one(1)]
    show "distinct (map fst gs) \<and> fst ` set fs \<subseteq> fst ` set gs" using one two by blast
  qed
qed (simp add: extends_def)

lemma extends_mkdir: "extends (mkdir p)"
  by (auto simp: extends_def mkdir_def distinct_update keys_update split: option.splits node.splits)

lemma extends_mkdirs: "extends (mkdirs p)"
  unfolding mkdirs_def by (intro extends_run) (auto simp: extends_mkdir)

lemma extends_copy_file: "extends (copy_file a b)"
  by (auto simp: extends_def copy_file_def distinct_update keys_update split: option.splits node.splits if_splits)

lemma extends_copy_node: "extends (copy_node p n)"
  using extends_mkdir [of p]
  by (cases n) (auto simp: extends_def copy_node_def distinct_update keys_update split: if_splits)

lemma extends_copytree: "extends (copytree a b)"
proof -
  have "extends (run_steps (mkdirs b # map (\<lambda>(p, n). copy_node (b @ relative_to a p) n) ps))" for ps
    by (intro extends_run) (auto simp: extends_mkdirs extends_copy_node)
  then show ?thesis
    unfolding extends_def copytree_def by (auto split: option.splits node.splits)
qed

lemma extends_when_exists: "extends f \<Longrightarrow> extends (when_exists p f)"
  by (auto simp: extends_def when_exists_def split: if_splits)

text \<open>What one step creates is there at the end.\<close>

lemma run_steps_creates:
  assumes "run_steps steps fs = Inr gs" and "distinct (map fst fs)" and "\<forall>f\<in>set steps. extends f"
    and "f \<in> set steps" and "\<And>u v. f u = Inr v \<Longrightarrow> fst ` set fs \<subseteq> fst ` set u \<Longrightarrow> distinct (map fst u) \<Longrightarrow> q \<in> fst ` set v"
  shows "q \<in> fst ` set gs"
  using assms
proof (induction steps arbitrary: fs)
  case (Cons g steps)
  obtain us where us: "g fs = Inr us" "run_steps steps us = Inr gs" using Cons.prems(1) by (auto simp: result_simps)
  have "extends g" using Cons.prems(3) by simp
  note g = extendsD [OF this us(1) Cons.prems(2)]
  show ?case
  proof (cases "f = g")
    case True
    then have "q \<in> fst ` set us" using Cons.prems(2,5) us(1) by blast
    moreover have "extends (run_steps steps)" using Cons.prems(3) by (intro extends_run) simp
    note extendsD(2) [OF this us(2) g(1)]
    ultimately show ?thesis by blast
  next
    case False
    show ?thesis
    proof (rule Cons.IH [OF us(2) g(1)])
      show "f \<in> set steps" using Cons.prems(4) False by simp
      show "q \<in> fst ` set v" if "f u = Inr v" "fst ` set us \<subseteq> fst ` set u" "distinct (map fst u)" for u v
        by (rule Cons.prems(5) [OF that(1) order_trans [OF g(2) that(2)] that(3)])
      show "\<forall>f\<in>set steps. extends f" using Cons.prems(3) by simp
    qed
  qed
qed simp

lemma mkdir_creates: "mkdir p fs = Inr gs \<Longrightarrow> p \<in> fst ` set gs"
  by (auto simp: mkdir_def keys_update split: option.splits node.splits dest: map_of_SomeD intro: rev_image_eqI)

lemma mkdirs_creates:
  assumes "mkdirs p fs = Inr gs" and "distinct (map fst fs)" and "prefix q p"
  shows "q \<in> fst ` set gs"
  using assms(1) unfolding mkdirs_def
  by (rule run_steps_creates [where f = "mkdir q"])
     (use assms(2,3) mkdir_creates in \<open>auto simp: extends_mkdir\<close>)

lemma copytree_creates:
  assumes "copytree source destination fs = Inr gs" and "distinct (map fst fs)"
    and "p \<in> fst ` set fs" and "below source p"
  shows "destination @ relative_to source p \<in> fst ` set gs"
proof -
  let ?steps = "mkdirs destination # map (\<lambda>(p, n). copy_node (destination @ relative_to source p) n)
      (sort_key fst (filter (\<lambda>(p, _). below source p) fs))"
  obtain n where n: "(p, n) \<in> set fs" using assms(3) by auto
  have "run_steps ?steps fs = Inr gs"
    using assms(1) by (auto simp: copytree_def split: option.splits node.splits)
  then show ?thesis
  proof (rule run_steps_creates [OF _ assms(2), where f = "copy_node (destination @ relative_to source p) n"])
    show "\<forall>f\<in>set ?steps. extends f" by (auto simp: extends_mkdirs extends_copy_node)
    show "copy_node (destination @ relative_to source p) n \<in> set ?steps"
      using n assms(4) by (auto intro!: rev_image_eqI)
    show "destination @ relative_to source p \<in> fst ` set v"
      if "copy_node (destination @ relative_to source p) n u = Inr v" for u v
      using that mkdir_creates by (cases n) (auto simp: copy_node_def keys_update split: if_splits)
  qed
qed

lemma copy_file_creates: "copy_file a b fs = Inr gs \<Longrightarrow> b \<in> fst ` set gs"
  by (auto simp: copy_file_def keys_update split: option.splits node.splits if_splits)

text \<open>The steps after the old output has been removed.\<close>

lemma staging_steps_extend: "\<forall>f\<in>set (tl (staging_steps output)). extends f"
  by (auto simp: staging_steps_def AGENT_FILES_def BUILT_TREES_def SOURCE_TREES_def extends_mkdirs
      extends_when_exists extends_copy_file extends_copytree)

lemma rmtree_keeps:
  assumes "when_exists p (rmtree p) fs = Inr gs" and "distinct (map fst fs)"
  shows "distinct (map fst gs)" and "q \<in> fst ` set fs \<Longrightarrow> \<not> prefix p q \<Longrightarrow> q \<in> fst ` set gs"
  using assms by (auto simp: when_exists_def rmtree_def distinct_map_filter split: if_splits option.splits node.splits
      intro: rev_image_eqI)

definition sources_present :: "tree \<Rightarrow> bool" where
  "sources_present fs \<longleftrightarrow>
     (\<forall>p\<in>{[''reference'', ''guest'', ''osbench_agent.py''], [''reference'', ''guest'', ''osbench-inventory.sh''],
          [''probes'', ''build.sh''], [''workloads'', ''build.sh'']}. exists_at fs p)"

lemma staged_files:
  assumes "run_steps (staging_steps STAGING) fs = Inr gs" and "distinct (map fst fs)" and "sources_present fs"
  shows "distinct (map fst gs)" and "exists_at gs STAGING"
    and "\<forall>relative\<in>set (butlast REQUIRED). exists_at gs (STAGING @ relative)"
proof -
  obtain us where us: "when_exists STAGING (rmtree STAGING) fs = Inr us"
    "run_steps (tl (staging_steps STAGING)) us = Inr gs"
    using assms(1) by (auto simp: staging_steps_def result_simps)
  have d: "distinct (map fst us)" using rmtree_keeps(1) [OF us(1) assms(2)] .
  have kept: "p \<in> fst ` set us" if "exists_at fs p" "hd p \<noteq> ''artifacts''" "p \<noteq> []" for p
  proof (rule rmtree_keeps(2) [OF us(1) assms(2)])
    show "p \<in> fst ` set fs" using that(1) by (simp add: exists_at_def)
    show "\<not> prefix STAGING p" using that(2,3) by (auto simp: STAGING_def prefix_def)
  qed
  have ex: "extends (run_steps (tl (staging_steps STAGING)))"
    by (intro extends_run staging_steps_extend)
  show "distinct (map fst gs)" by (rule extendsD(1) [OF ex us(2) d])
  note creates = run_steps_creates [OF us(2) d staging_steps_extend]
  have "mkdirs (STAGING @ [''agent'']) \<in> set (tl (staging_steps STAGING))" by (simp add: staging_steps_def)
  then show "exists_at gs STAGING"
    unfolding exists_at_def by (rule creates) (rule mkdirs_creates, auto)
  have agent_file: "exists_at gs (STAGING @ destination)"
    if "(source, destination) \<in> set AGENT_FILES" "exists_at fs source" "hd source \<noteq> ''artifacts''" "source \<noteq> []"
    for source destination
    unfolding exists_at_def
  proof (rule creates)
    show "when_exists source (copy_file source (STAGING @ destination)) \<in> set (tl (staging_steps STAGING))"
      using that(1) by (auto simp: staging_steps_def)
    show "STAGING @ destination \<in> fst ` set v"
      if "when_exists source (copy_file source (STAGING @ destination)) u = Inr v" "fst ` set us \<subseteq> fst ` set u" for u v
      using that kept [OF \<open>exists_at fs source\<close>] \<open>hd source \<noteq> ''artifacts''\<close> \<open>source \<noteq> []\<close> copy_file_creates
      by (auto simp: when_exists_def exists_at_def split: if_splits)
  qed
  have copied: "exists_at gs (STAGING @ destination @ [name])"
    if "(source, destination) \<in> set SOURCE_TREES" "exists_at fs (source @ [name])" "hd source \<noteq> ''artifacts''" "source \<noteq> []"
    for source destination name
    unfolding exists_at_def
  proof (rule creates)
    show "copytree source (STAGING @ destination) \<in> set (tl (staging_steps STAGING))"
      using that(1) by (auto simp: staging_steps_def)
    show "STAGING @ destination @ [name] \<in> fst ` set v"
      if "copytree source (STAGING @ destination) u = Inr v" "fst ` set us \<subseteq> fst ` set u" "distinct (map fst u)" for u v
      using copytree_creates [OF that(1,3), of "source @ [name]"] that(2) kept [OF \<open>exists_at fs (source @ [name])\<close>]
        \<open>hd source \<noteq> ''artifacts''\<close> \<open>source \<noteq> []\<close>
      by (simp add: below_def relative_to_def strict_prefix_def) blast
  qed
  show "\<forall>relative\<in>set (butlast REQUIRED). exists_at gs (STAGING @ relative)"
    using assms(3) agent_file [of "[''reference'', ''guest'', ''osbench_agent.py'']"]
      agent_file [of "[''reference'', ''guest'', ''osbench-inventory.sh'']"]
      copied [of "[''probes'']" "[''source'', ''probes'']" "''build.sh''"]
      copied [of "[''workloads'']" "[''source'', ''workloads'']" "''build.sh''"]
    by (simp add: REQUIRED_def sources_present_def AGENT_FILES_def SOURCE_TREES_def)
qed

section \<open>What is staged validates\<close>

lemma manifest_not_counted: "\<not> counted [''manifest.json''] dir (dir @ [''manifest.json''])"
proof -
  have "rstrip_slash ''manifest.json'' = ''manifest.json''" by code_simp
  then show ?thesis by (simp add: counted_def relative_to_def excluded_def)
qed

lemma hash_with_manifest:
  assumes "distinct (map fst fs)" and "exists_at fs dir"
  shows "payload_tree_hash hash dir (write_document dumps (dir @ [''manifest.json'']) v fs) = payload_tree_hash hash dir fs"
  unfolding payload_tree_hash_def write_document_def
  by (rule sha256.update_elsewhere [OF assms manifest_not_counted])

text \<open>
  C29. What \<open>stage_payload\<close> stages, \<open>validate_payload_tree\<close> accepts: if the agent, its inventory script
  and the build scripts of the probes and workloads are among the sources, a staging that returns
  leaves every required file in place and a manifest whose digest is still that of the tree after the
  manifest itself was written into it. The manifest must read back.
\<close>

theorem staged_payload_validates:
  assumes "distinct (map fst fs)" and "sources_present fs"
    and "stage_payload hash hex dumps STAGING fs = Inr (gs, stage)"
    and "\<forall>staged. run_steps (staging_steps STAGING) fs = Inr staged \<longrightarrow>
      loads (dumps (PDict (payload_manifest hash hex STAGING staged))) = Inr (PDict (payload_manifest hash hex STAGING staged))"
  shows "validate_payload_tree hash hex loads STAGING gs = Inr (payload_report STAGING [] (count_files STAGING gs))"
proof -
  let ?m = "STAGING @ [''manifest.json'']"
  obtain staged where staged: "run_steps (staging_steps STAGING) fs = Inr staged"
    and gs: "gs = write_document dumps ?m (PDict (payload_manifest hash hex STAGING staged)) staged"
    using assms(3) by (auto simp: stage_payload_def result_simps Let_def)
  note files = staged_files [OF staged assms(1,2)]
  have ex: "exists_at gs p \<longleftrightarrow> p = ?m \<or> exists_at staged p" for p
    by (simp add: gs exists_at_def write_document_def keys_update)
  have "exists_at gs (STAGING @ relative)" if "relative \<in> set REQUIRED" for relative
    using that files(3) by (auto simp: ex REQUIRED_def)
  then have missing: "missing_of STAGING gs = []" by (simp add: missing_of_def filter_empty_conv)
  have "payload_tree_hash hash STAGING gs = payload_tree_hash hash STAGING staged"
    unfolding gs by (rule hash_with_manifest [OF files(1,2)])
  moreover have "read_document loads ?m gs = Inr (PDict (payload_manifest hash hex STAGING staged))"
    using assms(4) staged by (simp add: gs read_document_def write_document_def map_of_update)
  ultimately have "digest_issue hash hex loads STAGING gs = Inr []"
    by (simp add: digest_issue_def ex py_get_def pget_default_def pget_def payload_manifest_def)
  then show ?thesis using missing files(2) by (simp add: validate_payload_tree_def ex)
qed

definition demo_sources :: tree where
  "demo_sources =
     [([], Folder), ([''reference''], Folder), ([''reference'', ''guest''], Folder),
      ([''reference'', ''guest'', ''osbench_agent.py''], Plain ''a''),
      ([''reference'', ''guest'', ''osbench-inventory.sh''], Plain ''i''),
      ([''probes''], Folder), ([''probes'', ''build.sh''], Plain ''p''),
      ([''workloads''], Folder), ([''workloads'', ''build.sh''], Plain ''w''),
      ([''artifacts''], Folder), ([''artifacts'', ''payload''], Folder),
      ([''artifacts'', ''payload'', ''staging''], Folder), ([''artifacts'', ''payload'', ''staging'', ''old''], Plain ''o'')]"

definition demo_staged :: tree where
  "demo_staged = projr (run_steps (staging_steps STAGING) demo_sources)"

theorem staged_payload_validates_witness:
  "\<exists>gs stage n. stage_payload demo_hash (\<lambda>d. d) (\<lambda>_. ''manifest'') STAGING demo_sources = Inr (gs, stage) \<and>
     validate_payload_tree demo_hash (\<lambda>d. d)
       (\<lambda>_. Inr (PDict (payload_manifest demo_hash (\<lambda>d. d) STAGING demo_staged))) STAGING gs =
       Inr (payload_report STAGING [] n) \<and>
     \<not> exists_at gs (STAGING @ [''old''])"
proof -
  have "\<not> isl (run_steps (staging_steps STAGING) demo_sources)" by code_simp
  then have r: "run_steps (staging_steps STAGING) demo_sources = Inr demo_staged"
    by (simp add: demo_staged_def)
  let ?gs = "write_document (\<lambda>_. ''manifest'') (STAGING @ [''manifest.json''])
      (PDict (payload_manifest demo_hash (\<lambda>d. d) STAGING demo_staged)) demo_staged"
  obtain stage where s: "stage_payload demo_hash (\<lambda>d. d) (\<lambda>_. ''manifest'') STAGING demo_sources = Inr (?gs, stage)"
    by (simp add: stage_payload_def r Let_def)
  have "distinct (map fst demo_sources)" "sources_present demo_sources"
    by (simp_all add: demo_sources_def sources_present_def exists_at_def)
  from staged_payload_validates [OF this s] r
  have "validate_payload_tree demo_hash (\<lambda>d. d)
       (\<lambda>_. Inr (PDict (payload_manifest demo_hash (\<lambda>d. d) STAGING demo_staged))) STAGING ?gs =
       Inr (payload_report STAGING [] (count_files STAGING ?gs))"
    by simp
  moreover have "\<not> exists_at demo_staged (STAGING @ [''old''])" unfolding demo_staged_def by code_simp
  then have "\<not> exists_at ?gs (STAGING @ [''old''])"
    by (simp add: exists_at_def write_document_def keys_update)
  ultimately show ?thesis using s by blast
qed

section \<open>What a manifest binds\<close>

lemma valid_report_Nil: "payload_report p issues n = payload_report p [] m \<Longrightarrow> issues = []"
  by (simp add: payload_report_def)

lemma valid_payload:
  assumes "validate_payload_tree hash hex loads p fs = Inr (payload_report p [] n)"
  obtains document where "map_of fs (p @ [''manifest.json'']) \<noteq> None"
    and "read_document loads (p @ [''manifest.json'']) fs = Inr document"
    and "py_eq (pget_default document ''tree_sha256'' PNone) (PStr (hex (payload_tree_hash hash p fs)))"
proof -
  obtain mismatch where mm: "digest_issue hash hex loads p fs = Inr mismatch"
    and nil: "missing_of p fs @ mismatch = []"
    using assms by (auto simp: validate_payload_tree_def result_simps dest!: valid_report_Nil)
  have ex: "exists_at fs (p @ [''manifest.json''])"
    using nil by (auto simp: missing_of_def REQUIRED_def split: if_splits)
  then have "map_of fs (p @ [''manifest.json'']) \<noteq> None" by (simp add: exists_at_def map_of_eq_None_iff)
  with mm nil ex that show thesis
    by (auto simp: digest_issue_def result_simps py_get_def split: if_splits)
qed

text \<open>
  A manifest binds the payload: two trees that validate under the same manifest hold the same
  files with the same contents, apart from compiled Python files and caches, which the digest leaves
  out. The digest has a fixed length and no two of the messages hashed here collide.
\<close>

theorem payload_manifest_binds:
  assumes "validate_payload_tree hash hex loads p fs = Inr (payload_report p [] n)"
    and "validate_payload_tree hash hex loads p gs = Inr (payload_report p [] m)"
    and "map_of fs (p @ [''manifest.json'']) = map_of gs (p @ [''manifest.json''])"
    and "well_formed_tree fs" and "well_formed_tree gs"
    and "\<forall>(name, s)\<in>set (hashed_files [''manifest.json''] p fs) \<union> set (hashed_files [''manifest.json''] p gs). CHR 0x00 \<notin> set name"
    and "\<forall>s. length (hash s) = 32" and "inj hex"
    and "inj_on hash (messages hash [''manifest.json''] p fs \<union> messages hash [''manifest.json''] p gs)"
  shows "hashed_files [''manifest.json''] p fs = hashed_files [''manifest.json''] p gs"
proof (rule digest_binds [OF assms(4,5,6,7,9)])
  obtain d where d: "read_document loads (p @ [''manifest.json'']) fs = Inr d"
    "py_eq (pget_default d ''tree_sha256'' PNone) (PStr (hex (payload_tree_hash hash p fs)))"
    by (rule valid_payload [OF assms(1)])
  obtain e where e: "read_document loads (p @ [''manifest.json'']) gs = Inr e"
    "py_eq (pget_default e ''tree_sha256'' PNone) (PStr (hex (payload_tree_hash hash p gs)))"
    by (rule valid_payload [OF assms(2)])
  have "d = e" using d(1) e(1) assms(3) by (simp add: read_document_def)
  moreover have "v = PStr s" if "py_eq v (PStr s)" for v s
    using that by (cases v) auto
  ultimately have "hex (payload_tree_hash hash p fs) = hex (payload_tree_hash hash p gs)"
    using d(2) e(2) by (metis pv.inject(4))
  then show "sha256_tree hash [''manifest.json''] p fs = sha256_tree hash [''manifest.json''] p gs"
    using assms(8) by (simp add: payload_tree_hash_def inj_eq)
qed

definition demo_payload :: "(path \<times> node) list \<Rightarrow> tree" where
  "demo_payload extra =
     [([], Folder), ([''s''], Folder), ([''s'', ''agent''], Folder),
      ([''s'', ''agent'', ''osbench_agent.py''], Plain ''a''), ([''s'', ''agent'', ''osbench-inventory.sh''], Plain ''i''),
      ([''s'', ''source''], Folder), ([''s'', ''source'', ''probes''], Folder),
      ([''s'', ''source'', ''probes'', ''build.sh''], Plain ''p''), ([''s'', ''source'', ''workloads''], Folder),
      ([''s'', ''source'', ''workloads'', ''build.sh''], Plain ''w''), ([''s'', ''manifest.json''], Plain ''m'')] @ extra"

definition demo_files :: "(string \<times> string) list" where
  "demo_files = [(''agent/osbench-inventory.sh'', ''i''), (''agent/osbench_agent.py'', ''a''),
     (''source/probes/build.sh'', ''p''), (''source/workloads/build.sh'', ''w'')]"

definition demo_extra :: "(path \<times> node) list" where
  "demo_extra = [([''s'', ''agent'', ''osbench_agent.pyc''], Plain ''compiled'')]"

definition demo_manifest :: pv where
  "demo_manifest = PDict [(''tree_sha256'', PStr (demo_hash (tree_stream demo_hash demo_files)))]"

lemma length_demo_hash [simp]: "length (demo_hash s) = 32"
  by (simp add: demo_hash_def min_def)

lemma demo_hashed:
  "hashed_files [''manifest.json''] [''s''] (demo_payload []) = demo_files"
  "hashed_files [''manifest.json''] [''s''] (demo_payload demo_extra) = demo_files"
  by code_simp+

lemma demo_valid:
  "validate_payload_tree demo_hash (\<lambda>d. d) (\<lambda>_. Inr demo_manifest) [''s''] (demo_payload []) =
     Inr (payload_report [''s''] [] 5)"
  "validate_payload_tree demo_hash (\<lambda>d. d) (\<lambda>_. Inr demo_manifest) [''s''] (demo_payload demo_extra) =
     Inr (payload_report [''s''] [] 6)"
  by code_simp+

theorem payload_manifest_binds_witness:
  "hashed_files [''manifest.json''] [''s''] (demo_payload []) =
     hashed_files [''manifest.json''] [''s''] (demo_payload demo_extra) \<and>
   demo_payload [] \<noteq> demo_payload demo_extra"
proof -
  have "inj_on demo_hash (messages demo_hash [''manifest.json''] [''s''] (demo_payload []) \<union>
      messages demo_hash [''manifest.json''] [''s''] (demo_payload demo_extra))"
    unfolding messages_def demo_hashed by (simp add: demo_files_def demo_hash_def tree_stream_def numeral_eq_Suc)
  moreover have "well_formed_tree (demo_payload [])" "well_formed_tree (demo_payload demo_extra)"
    by (auto simp: well_formed_tree_def demo_payload_def demo_extra_def prefix_Cons)
  moreover have "map_of (demo_payload []) ([''s''] @ [''manifest.json'']) =
      map_of (demo_payload demo_extra) ([''s''] @ [''manifest.json''])"
    by (simp add: demo_payload_def)
  ultimately have "hashed_files [''manifest.json''] [''s''] (demo_payload []) =
     hashed_files [''manifest.json''] [''s''] (demo_payload demo_extra)"
    by (intro payload_manifest_binds [OF demo_valid])
       (simp_all add: demo_hashed demo_files_def)
  then show ?thesis by (simp add: demo_payload_def demo_extra_def)
qed

end
