(* ===== verification/LockCounter.thy ===== *)
theory LockCounter
  imports Prelude
begin

text \<open>
  The concurrency probe: the \<open>thread.\<close> branch of \<open>execute_case\<close> (\<open>probes.py\<close>), the same branch of
  the guest agent (\<open>reference/guest/osbench_agent.py\<close>) and \<open>probes/concurrency/mutex_probe.py\<close>. The
  main thread starts \<open>n\<close> workers, joins them in order and reports \<open>counter[0]\<close>; a worker runs
  \<open>for _ in range(k): with lock: counter[0] += 1\<close>. The three sources differ in \<open>n\<close> and \<open>k\<close> only.

  \<open>counter[0] += 1\<close> reads the cell and writes it in two steps, and the scheduler may switch threads
  between any two steps. The theory shows that the report is \<open>n * k\<close> whatever the scheduler does.
\<close>

section \<open>Threads, the lock and the cell\<close>

datatype worker_pc = Unstarted | Head | Reading | Writing | Leaving | Finished

datatype main_pc = Starting nat | Joining nat | Reporting

record worker =
  wk_pc :: worker_pc
  wk_left :: nat
  wk_seen :: nat

record threads =
  th_workers :: "worker list"
  th_owner :: "nat option"
  th_cell :: nat
  th_main :: main_pc

datatype actor = Main | Worker nat

definition launch_threads :: "nat \<Rightarrow> threads" where
  "launch_threads n = \<lparr>th_workers = replicate n \<lparr>wk_pc = Unstarted, wk_left = 0, wk_seen = 0\<rparr>, th_owner = None,
     th_cell = 0, th_main = Starting 0\<rparr>"

text \<open>
  One step of a worker, \<open>None\<close> while it cannot move: at the head of its loop it ends, or takes the
  lock if it is free and waits otherwise; the body reads the cell, writes it, and leaves the block.
\<close>

definition worker_step :: "nat \<Rightarrow> threads \<Rightarrow> threads option" where
  "worker_step i s =
     (if i < length (th_workers s) then
       (let w = th_workers s ! i;
            become = (\<lambda>w'. s\<lparr>th_workers := (th_workers s)[i := w']\<rparr>) in
        case wk_pc w of
          Unstarted \<Rightarrow> None
        | Head \<Rightarrow>
            if wk_left w = 0 then Some (become (w\<lparr>wk_pc := Finished\<rparr>))
            else if th_owner s = None then Some ((become (w\<lparr>wk_pc := Reading\<rparr>))\<lparr>th_owner := Some i\<rparr>)
            else None
        | Reading \<Rightarrow> Some (become (w\<lparr>wk_pc := Writing, wk_seen := th_cell s\<rparr>))
        | Writing \<Rightarrow> Some ((become (w\<lparr>wk_pc := Leaving\<rparr>))\<lparr>th_cell := wk_seen w + 1\<rparr>)
        | Leaving \<Rightarrow> Some ((become (w\<lparr>wk_pc := Head, wk_left := wk_left w - 1\<rparr>))\<lparr>th_owner := None\<rparr>)
        | Finished \<Rightarrow> None)
      else None)"

text \<open>
  One step of the main thread: \<open>[t.start() for t in ts]\<close>, then \<open>[t.join() for t in ts]\<close>, where a
  join waits for its thread.
\<close>

definition main_step :: "nat \<Rightarrow> threads \<Rightarrow> threads option" where
  "main_step k s =
     (case th_main s of
        Starting j \<Rightarrow>
          if j < length (th_workers s)
          then Some (s\<lparr>th_workers := (th_workers s)[j := (th_workers s ! j)\<lparr>wk_pc := Head, wk_left := k\<rparr>],
                       th_main := Starting (j + 1)\<rparr>)
          else Some (s\<lparr>th_main := Joining 0\<rparr>)
      | Joining j \<Rightarrow>
          if j < length (th_workers s)
          then if wk_pc (th_workers s ! j) = Finished then Some (s\<lparr>th_main := Joining (j + 1)\<rparr>) else None
          else Some (s\<lparr>th_main := Reporting\<rparr>)
      | Reporting \<Rightarrow> None)"

fun advance :: "nat \<Rightarrow> actor \<Rightarrow> threads \<Rightarrow> threads option" where
  "advance k Main s = main_step k s"
| "advance k (Worker i) s = worker_step i s"

inductive interleaving :: "nat \<Rightarrow> threads \<Rightarrow> threads \<Rightarrow> bool" where
  interleaving_start: "interleaving k s s"
| interleaving_step: "interleaving k s t \<Longrightarrow> advance k a t = Some u \<Longrightarrow> interleaving k s u"

section \<open>The invariant\<close>

definition inside :: "worker \<Rightarrow> bool" where
  "inside w \<longleftrightarrow> wk_pc w \<in> {Reading, Writing, Leaving}"

definition added :: "nat \<Rightarrow> worker \<Rightarrow> nat" where
  "added k w = (if wk_pc w = Unstarted then 0 else k - wk_left w + (if wk_pc w = Leaving then 1 else 0))"

definition sound_worker :: "nat \<Rightarrow> nat \<Rightarrow> worker \<Rightarrow> bool" where
  "sound_worker k cell w \<longleftrightarrow>
     wk_left w \<le> k \<and> (inside w \<longrightarrow> 0 < wk_left w) \<and> (wk_pc w = Finished \<longrightarrow> wk_left w = 0) \<and>
     (wk_pc w = Writing \<longrightarrow> wk_seen w = cell)"

definition main_sound :: "threads \<Rightarrow> bool" where
  "main_sound s \<longleftrightarrow>
     (case th_main s of
        Starting j \<Rightarrow> j \<le> length (th_workers s) \<and>
          (\<forall>i<length (th_workers s). wk_pc (th_workers s ! i) = Unstarted \<longleftrightarrow> j \<le> i)
      | Joining j \<Rightarrow> j \<le> length (th_workers s) \<and>
          (\<forall>i<length (th_workers s). wk_pc (th_workers s ! i) \<noteq> Unstarted) \<and>
          (\<forall>i<j. wk_pc (th_workers s ! i) = Finished)
      | Reporting \<Rightarrow> (\<forall>i<length (th_workers s). wk_pc (th_workers s ! i) = Finished))"

definition threads_inv :: "nat \<Rightarrow> threads \<Rightarrow> bool" where
  "threads_inv k s \<longleftrightarrow>
     (\<forall>i<length (th_workers s). sound_worker k (th_cell s) (th_workers s ! i) \<and>
        (th_owner s = Some i \<longleftrightarrow> inside (th_workers s ! i))) \<and>
     (\<forall>i. th_owner s = Some i \<longrightarrow> i < length (th_workers s)) \<and>
     th_cell s = sum_list (map (added k) (th_workers s)) \<and> main_sound s"


lemma main_sound_worker:
  assumes "main_sound s" and "i < length (th_workers s)"
    and "wk_pc (th_workers s ! i) \<noteq> Unstarted" "wk_pc (th_workers s ! i) \<noteq> Finished" "wk_pc w \<noteq> Unstarted"
    and "th_workers t = (th_workers s)[i := w]" and "th_main t = th_main s"
  shows "main_sound t"
  using assms by (auto simp: main_sound_def nth_list_update split: main_pc.splits)

lemma added_update:
  fixes ws :: "worker list"
  assumes "i < length ws" and "added k w + c = added k (ws ! i) + d"
  shows "sum_list (map (added k) (ws[i := w])) + c = sum_list (map (added k) ws) + d"
proof -
  have "added k (ws ! i) \<le> sum_list (map (added k) ws)"
    using assms(1) by (intro member_le_sum_list) auto
  then show ?thesis using assms by (simp add: map_update sum_list_update)
qed

text \<open>The others, while a worker moves that does not change the cell.\<close>

definition others_sound :: "nat \<Rightarrow> threads \<Rightarrow> bool" where
  "others_sound k s \<longleftrightarrow>
     (\<forall>i<length (th_workers s). sound_worker k (th_cell s) (th_workers s ! i) \<and>
        (th_owner s = Some i \<longleftrightarrow> inside (th_workers s ! i))) \<and>
     (\<forall>i. th_owner s = Some i \<longrightarrow> i < length (th_workers s))"

lemma threads_inv_alt:
  "threads_inv k s \<longleftrightarrow>
     others_sound k s \<and> th_cell s = sum_list (map (added k) (th_workers s)) \<and> main_sound s"
  unfolding threads_inv_def others_sound_def by (intro iffI conjI; elim conjE; assumption)

lemma others_sound_update:
  assumes "others_sound k s" and "i < length (th_workers s)"
    and "sound_worker k (th_cell t) w" and "th_owner t = Some i \<longleftrightarrow> inside w"
    and "\<And>j. j \<noteq> i \<Longrightarrow> th_owner t = Some j \<longleftrightarrow> th_owner s = Some j"
    and "th_cell t = th_cell s \<or> th_owner s = Some i"
    and "th_workers t = (th_workers s)[i := w]"
  shows "others_sound k t"
proof -
  have "sound_worker k (th_cell t) (th_workers s ! j) \<and> (th_owner t = Some j \<longleftrightarrow> inside (th_workers s ! j))"
    if "j < length (th_workers s)" "j \<noteq> i" for j
  proof -
    have j: "sound_worker k (th_cell s) (th_workers s ! j)" "th_owner s = Some j \<longleftrightarrow> inside (th_workers s ! j)"
      using assms(1) that by (auto simp: others_sound_def)
    then show ?thesis using assms(5) [OF that(2)] assms(6) that(2) by (auto simp: sound_worker_def inside_def)
  qed
  moreover have "j < length (th_workers s)" if "th_owner t = Some j" for j
    using assms(1,2) assms(5) [of j] that by (cases "j = i") (auto simp: others_sound_def)
  ultimately show ?thesis using assms(2,3,4,7) by (auto simp: others_sound_def nth_list_update)
qed

lemma worker_step_others:
  assumes inv: "others_sound k s" and step: "worker_step i s = Some t"
  shows "others_sound k t"
proof -
  from step have i: "i < length (th_workers s)" by (auto simp: worker_step_def split: if_splits)
  define w where "w = th_workers s ! i"
  have w: "sound_worker k (th_cell s) w" "th_owner s = Some i \<longleftrightarrow> inside w"
    using inv i by (auto simp: others_sound_def w_def)
  have "\<exists>w'. th_workers t = (th_workers s)[i := w'] \<and> sound_worker k (th_cell t) w' \<and>
      (th_owner t = Some i \<longleftrightarrow> inside w') \<and> (\<forall>j. j \<noteq> i \<longrightarrow> th_owner t = Some j \<longleftrightarrow> th_owner s = Some j) \<and>
      (th_cell t = th_cell s \<or> th_owner s = Some i)"
  proof (cases "wk_pc w")
    case Head
    with step i w show ?thesis
      by (cases "wk_left w = 0"; cases "th_owner s")
        (auto simp: worker_step_def Let_def w_def [symmetric] sound_worker_def inside_def)
  qed (use step i w in \<open>auto simp: worker_step_def Let_def w_def [symmetric] sound_worker_def inside_def\<close>)
  then show ?thesis using others_sound_update [OF inv i] by blast
qed

lemma worker_step_inv:
  assumes inv: "threads_inv k s" and step: "worker_step i s = Some t"
  shows "threads_inv k t"
proof -
  define w where "w = th_workers s ! i"
  from step have i: "i < length (th_workers s)" by (auto simp: worker_step_def split: if_splits)
  from inv have w: "sound_worker k (th_cell s) w" unfolding threads_inv_def w_def using i by blast
  from step have pc: "wk_pc w \<noteq> Unstarted" "wk_pc w \<noteq> Finished"
    by (auto simp: worker_step_def w_def i Let_def)
  have "others_sound k t" using inv step worker_step_others by (auto simp: threads_inv_alt)
  moreover have "\<exists>w'. th_workers t = (th_workers s)[i := w'] \<and> wk_pc w' \<noteq> Unstarted \<and>
      th_main t = th_main s \<and> th_cell t + added k w = th_cell s + added k w'"
  proof (cases "wk_pc w")
    case Head
    with step i w show ?thesis
      by (cases "wk_left w = 0"; cases "th_owner s")
        (auto simp: worker_step_def Let_def w_def [symmetric] sound_worker_def added_def)
  qed (use step i w in \<open>auto simp: worker_step_def Let_def w_def [symmetric] sound_worker_def inside_def added_def\<close>)
  then obtain w' where w': "th_workers t = (th_workers s)[i := w']" "wk_pc w' \<noteq> Unstarted"
    "th_main t = th_main s" "th_cell t + added k w = th_cell s + added k w'" by blast
  moreover from inv have cell: "th_cell s = sum_list (map (added k) (th_workers s))" and m: "main_sound s"
    by (simp_all add: threads_inv_alt)
  from main_sound_worker [OF m i _ _ w'(2,1,3)] pc have "main_sound t" by (simp add: w_def)
  moreover have "th_cell t = sum_list (map (added k) (th_workers t))"
    using added_update [OF i, of k w' "added k w" "added k w'"] w'(4)
    unfolding w'(1) cell by (simp add: w_def)
  ultimately show ?thesis by (simp add: threads_inv_alt)
qed

lemma main_step_inv:
  assumes inv: "threads_inv k s" and step: "main_step k s = Some t"
  shows "threads_inv k t"
proof (cases "th_main s")
  case (Starting j)
  show ?thesis
  proof (cases "j < length (th_workers s)")
    case True
    let ?w = "(th_workers s ! j)\<lparr>wk_pc := Head, wk_left := k\<rparr>"
    have t: "t = s\<lparr>th_workers := (th_workers s)[j := ?w], th_main := Starting (j + 1)\<rparr>"
      using step Starting True by (simp add: main_step_def)
    have u: "wk_pc (th_workers s ! j) = Unstarted"
      using inv Starting True by (simp add: threads_inv_def main_sound_def)
    have "sum_list (map (added k) (th_workers t)) = sum_list (map (added k) (th_workers s))"
      using added_update [OF True, of k ?w 0 0] u by (simp add: t added_def)
    moreover have "main_sound t"
      using inv Starting True by (auto simp: threads_inv_def main_sound_def t nth_list_update)
    moreover have "others_sound k t"
      using inv u True
      by (auto simp: threads_inv_alt others_sound_def t nth_list_update sound_worker_def inside_def)
    ultimately show ?thesis using inv by (simp add: threads_inv_alt t)
  next
    case False
    with step Starting inv show ?thesis
      by (auto simp: main_step_def threads_inv_def main_sound_def)
  qed
next
  case (Joining j)
  with inv step show ?thesis
    by (auto simp: main_step_def threads_inv_def main_sound_def less_Suc_eq split: if_splits)
next
  case Reporting
  with step show ?thesis by (simp add: main_step_def)
qed

lemma advance_inv: "threads_inv k s \<Longrightarrow> advance k a s = Some t \<Longrightarrow> threads_inv k t"
  by (cases a) (auto intro: worker_step_inv main_step_inv)

lemma launch_threads_inv: "threads_inv k (launch_threads n)"
  by (auto simp: threads_inv_def launch_threads_def main_sound_def sound_worker_def inside_def added_def sum_list_replicate)

lemma interleaving_inv: "interleaving k s t \<Longrightarrow> threads_inv k s \<Longrightarrow> threads_inv k t"
  by (induction rule: interleaving.induct) (auto intro: advance_inv)


section \<open>No deadlock, and an end\<close>

lemma no_deadlock:
  assumes inv: "threads_inv k s" and "th_main s \<noteq> Reporting"
  shows "\<exists>a\<in>set (Main # map Worker [0..<length (th_workers s)]). advance k a s \<noteq> None"
proof (cases "\<exists>j<length (th_workers s). th_main s = Joining j \<and> wk_pc (th_workers s ! j) \<noteq> Finished")
  case False
  with assms have "main_step k s \<noteq> None" by (auto simp: main_step_def split: main_pc.splits)
  then show ?thesis by simp
next
  case True
  then obtain j where j: "j < length (th_workers s)" "th_main s = Joining j" "wk_pc (th_workers s ! j) \<noteq> Finished"
    by blast
  with inv have u: "wk_pc (th_workers s ! j) \<noteq> Unstarted" by (auto simp: threads_inv_def main_sound_def)
  show ?thesis
  proof (cases "th_owner s")
    case None
    with j u have "worker_step j s \<noteq> None" by (auto simp: worker_step_def Let_def split: worker_pc.splits)
    then show ?thesis using j(1) by auto
  next
    case (Some i)
    with inv have i: "i < length (th_workers s)" "inside (th_workers s ! i)" by (auto simp: threads_inv_def)
    then have "worker_step i s \<noteq> None" by (auto simp: worker_step_def Let_def inside_def)
    then show ?thesis using i(1) by auto
  qed
qed

definition worker_rank :: "worker \<Rightarrow> nat" where
  "worker_rank w =
     (let body = (if wk_left w = 0 then 4 else 4 * wk_left w) in
      case wk_pc w of
        Unstarted \<Rightarrow> 0 | Head \<Rightarrow> 4 * wk_left w + 1 | Reading \<Rightarrow> body | Writing \<Rightarrow> body - 1
      | Leaving \<Rightarrow> body - 2 | Finished \<Rightarrow> 0)"

definition weight :: "nat \<Rightarrow> threads \<Rightarrow> nat" where
  "weight k s =
     sum_list (map worker_rank (th_workers s)) +
     (case th_main s of
        Starting j \<Rightarrow> (length (th_workers s) - j) * (4 * k + 2) + length (th_workers s) + 2
      | Joining j \<Rightarrow> length (th_workers s) - j + 1
      | Reporting \<Rightarrow> 0)"

lemma rank_update:
  assumes "i < length (ws :: worker list)"
  shows "sum_list (map worker_rank (ws[i := w])) + worker_rank (ws ! i) =
     sum_list (map worker_rank ws) + worker_rank w"
proof -
  have "worker_rank (ws ! i) \<le> sum_list (map worker_rank ws)"
    using assms by (intro member_le_sum_list) auto
  then show ?thesis using assms by (simp add: map_update sum_list_update)
qed

lemma worker_step_weight:
  assumes "worker_step i s = Some t"
  shows "weight k t < weight k s"
proof -
  from assms have i: "i < length (th_workers s)" by (auto simp: worker_step_def split: if_splits)
  define w where "w = th_workers s ! i"
  have "\<exists>w'. th_workers t = (th_workers s)[i := w'] \<and> th_main t = th_main s \<and> worker_rank w' < worker_rank w"
  proof (cases "wk_pc w")
    case Head
    with assms i show ?thesis
      by (cases "wk_left w = 0"; cases "th_owner s")
        (auto simp: worker_step_def Let_def w_def [symmetric] worker_rank_def)
  qed (use assms i in \<open>auto simp: worker_step_def Let_def w_def [symmetric] worker_rank_def\<close>)
  then obtain w' where w': "th_workers t = (th_workers s)[i := w']" "th_main t = th_main s"
    "worker_rank w' < worker_rank w" by blast
  then show ?thesis using rank_update [OF i, of w'] by (simp add: weight_def w_def split: main_pc.splits)
qed

lemma main_step_weight:
  assumes "main_step k s = Some t"
  shows "weight k t < weight k s"
proof (cases "th_main s")
  case (Starting j)
  show ?thesis
  proof (cases "j < length (th_workers s)")
    case True
    let ?w = "(th_workers s ! j)\<lparr>wk_pc := Head, wk_left := k\<rparr>"
    obtain d where d: "length (th_workers s) = Suc (j + d)" using True less_iff_Suc_add by blast
    have "worker_rank ?w = 4 * k + 1" by (simp add: worker_rank_def)
    then show ?thesis using rank_update [OF True, of ?w] assms Starting True
      by (auto simp: main_step_def weight_def d)
  qed (use assms Starting in \<open>auto simp: main_step_def weight_def\<close>)
next
  case (Joining j)
  with assms show ?thesis by (auto simp: main_step_def weight_def split: if_splits)
next
  case Reporting
  with assms show ?thesis by (simp add: main_step_def)
qed

lemma advance_weight: "advance k a s = Some t \<Longrightarrow> weight k t < weight k s"
  by (cases a) (auto intro: worker_step_weight main_step_weight)

section \<open>Executions under a scheduler\<close>

text \<open>
  A scheduler prefers some actors in every state; the first that can move does, and the execution
  ends when none can. Since the weight decreases no state occurs twice, so every maximal
  interleaving is the execution of some scheduler.
\<close>

definition next_actor :: "nat \<Rightarrow> (threads \<Rightarrow> actor list) \<Rightarrow> threads \<Rightarrow> actor option" where
  "next_actor k pick s =
     List.find (\<lambda>a. advance k a s \<noteq> None) (pick s @ Main # map Worker [0..<length (th_workers s)])"

lemma next_actor_advances: "next_actor k pick s = Some a \<Longrightarrow> \<exists>t. advance k a s = Some t"
  by (auto simp: next_actor_def find_Some_iff)

function execution :: "nat \<Rightarrow> (threads \<Rightarrow> actor list) \<Rightarrow> threads \<Rightarrow> threads" where
  "execution k pick s =
     (case next_actor k pick s of
        None \<Rightarrow> s
      | Some a \<Rightarrow> execution k pick (the (advance k a s)))"
  by pat_completeness auto
termination
  by (relation "measure (\<lambda>(k, pick, s). weight k s)") (auto dest!: next_actor_advances intro: advance_weight)

declare execution.simps [simp del]

text \<open>\<open>obs.update({"threads": n, "counter": counter[0]})\<close>: what the probe reports.\<close>

definition counter_report :: "nat \<Rightarrow> nat \<Rightarrow> (threads \<Rightarrow> actor list) \<Rightarrow> (string \<times> nat) list" where
  "counter_report n k pick =
     [(''threads'', n), (''counter'', th_cell (execution k pick (launch_threads n)))]"

lemma execution_interleaves: "interleaving k s (execution k pick t)" if "interleaving k s t"
  using that
proof (induction k pick t rule: execution.induct)
  case (1 k pick t)
  show ?case
  proof (cases "next_actor k pick t")
    case None
    with 1(2) show ?thesis by (simp add: execution.simps [of k pick t])
  next
    case (Some a)
    then obtain u where u: "advance k a t = Some u" using next_actor_advances by blast
    with 1(1) [OF Some] interleaving_step [OF 1(2) u] show ?thesis
      by (simp add: execution.simps [of k pick t] Some)
  qed
qed

lemma execution_stuck: "next_actor k pick (execution k pick s) = None"
proof (induction k pick s rule: execution.induct)
  case (1 k pick s)
  then show ?case by (cases "next_actor k pick s") (simp_all add: execution.simps [of k pick s])
qed

lemma interleaving_workers: "interleaving k s t \<Longrightarrow> length (th_workers t) = length (th_workers s)"
proof (induction rule: interleaving.induct)
  case (interleaving_step k s t a u)
  then show ?case
    by (cases a) (auto simp: worker_step_def main_step_def Let_def split: if_splits worker_pc.splits main_pc.splits)
qed simp

lemma reported_cell:
  assumes "interleaving k (launch_threads n) s" and "th_main s = Reporting"
  shows "th_cell s = n * k"
proof -
  from assms(1) have inv: "threads_inv k s" using launch_threads_inv interleaving_inv by blast
  have "map (added k) (th_workers s) = replicate (length (th_workers s)) k"
    using inv assms(2)
    by (intro nth_equalityI) (auto simp: threads_inv_def main_sound_def added_def sound_worker_def)
  moreover have "length (th_workers s) = n"
    using interleaving_workers [OF assms(1)] by (simp add: launch_threads_def)
  ultimately show ?thesis using inv by (simp add: threads_inv_alt sum_list_replicate)
qed

lemma execution_reaches: "interleaving k (launch_threads n) (execution k pick (launch_threads n))"
  by (rule execution_interleaves [OF interleaving_start])

lemma execution_reports: "th_main (execution k pick (launch_threads n)) = Reporting"
proof -
  have inv: "threads_inv k (execution k pick (launch_threads n))"
    using execution_reaches launch_threads_inv interleaving_inv by blast
  show ?thesis
    using no_deadlock [OF inv] execution_stuck [of k pick "launch_threads n"]
    unfolding next_actor_def find_None_iff set_append by blast
qed

lemma counter_report_exact: "counter_report n k pick = [(''threads'', n), (''counter'', n * k)]"
  using reported_cell [OF execution_reaches execution_reports] by (simp add: counter_report_def)

text \<open>Two workers are never between taking and leaving the lock at the same time.\<close>

lemma lock_excludes:
  assumes "interleaving k (launch_threads n) s" and "i < n" "j < n"
    and "inside (th_workers s ! i)" "inside (th_workers s ! j)"
  shows "i = j"
proof -
  from assms(1) have "threads_inv k s" using launch_threads_inv interleaving_inv by blast
  moreover have "length (th_workers s) = n"
    using interleaving_workers [OF assms(1)] by (simp add: launch_threads_def)
  ultimately have "th_owner s = Some i" "th_owner s = Some j"
    using assms(2-) unfolding threads_inv_def by blast+
  then show ?thesis by simp
qed

text \<open>
  C24. The concurrency probes are deterministic although their threads are not: under every
  scheduler the execution of \<open>n\<close> workers with \<open>k\<close> rounds comes to its end with the main thread
  reporting, and the report is \<open>n * k\<close>: no update is lost between the read and the write of
  \<open>counter[0] += 1\<close>, no schedule deadlocks, and in every state on the way at most one worker is
  between taking and leaving the lock.
\<close>

theorem counter_probe_exact:
  "th_main (execution k pick (launch_threads n)) = Reporting \<and>
   counter_report n k pick = [(''threads'', n), (''counter'', n * k)] \<and>
   (\<nexists>s i j. interleaving k (launch_threads n) s \<and> i < j \<and> j < n \<and> inside (th_workers s ! i) \<and> inside (th_workers s ! j))"
proof (intro conjI notI)
  assume "\<exists>s i j. interleaving k (launch_threads n) s \<and> i < j \<and> j < n \<and> inside (th_workers s ! i) \<and> inside (th_workers s ! j)"
  then obtain s i j where s: "interleaving k (launch_threads n) s" "i < j" "j < n"
    "inside (th_workers s ! i)" "inside (th_workers s ! j)" by blast
  from lock_excludes [OF s(1) less_trans [OF s(2,3)] s(3-5)] s(2) show False by simp
qed (simp_all add: execution_reports counter_report_exact)

end
