(* ===== verification/Oci.thy ===== *)
theory Oci
  imports SourceLock
begin

text \<open>
  \<open>oci.py\<close>: the image layout that the exported root file system is stored in. Blobs are files under
  \<open>blobs/sha256\<close> named by the hexadecimal digest of their contents; a configuration refers to the
  layer, a manifest to both, and the index to the manifest. \<open>canonical\<close> is the text that
  \<open>stable_json\<close> gives, in UTF-8, and \<open>dumps\<close> that of \<open>write_json\<close>.
\<close>

section \<open>The documents\<close>

definition sha_ref :: "string \<Rightarrow> pv" where
  "sha_ref digest = PStr (''sha256:'' @ digest)"

definition image_config :: "string \<Rightarrow> pv" where
  "image_config layer_digest =
     PDict [(''architecture'', PStr ''amd64''), (''os'', PStr ''linux''),
            (''rootfs'', PDict [(''type'', PStr ''layers''), (''diff_ids'', PList [sha_ref layer_digest])]),
            (''config'', PDict []),
            (''history'', PList [PDict [(''created_by'', PStr ''OSBench reference export'')]])]"

definition described :: "string \<Rightarrow> string \<Rightarrow> nat \<Rightarrow> (string \<times> pv) list" where
  "described media digest size' =
     [(''mediaType'', PStr media), (''digest'', sha_ref digest), (''size'', PInt (int size'))]"

definition image_manifest :: "string \<Rightarrow> nat \<Rightarrow> string \<Rightarrow> nat \<Rightarrow> pv" where
  "image_manifest cd config_size layer_digest layer_size =
     PDict [(''schemaVersion'', PInt 2), (''mediaType'', PStr ''application/vnd.oci.image.manifest.v1+json''),
            (''config'', PDict (described ''application/vnd.oci.image.config.v1+json'' cd config_size)),
            (''layers'', PList [PDict (described ''application/vnd.oci.image.layer.v1.tar'' layer_digest layer_size)])]"

definition image_index :: "string \<Rightarrow> nat \<Rightarrow> pv" where
  "image_index md manifest_size =
     PDict [(''schemaVersion'', PInt 2),
            (''manifests'', PList [PDict (described ''application/vnd.oci.image.manifest.v1+json'' md manifest_size @
               [(''annotations'', PDict [(''org.opencontainers.image.ref.name'', PStr ''13.6-v0.1'')])])])]"

section \<open>The layout\<close>

definition read_bytes :: "path \<Rightarrow> tree \<Rightarrow> string result" where
  "read_bytes p fs =
     (case map_of fs p of
        Some (Plain s) \<Rightarrow> Inr s
      | Some Folder \<Rightarrow> Inl (os_error ''IsADirectoryError'' p)
      | None \<Rightarrow> Inl (FileNotFoundError (join ''/'' p)))"

definition write_bytes :: "path \<Rightarrow> string \<Rightarrow> tree \<Rightarrow> tree result" where
  "write_bytes p s fs =
     (if map_of fs p = Some Folder then Inl (os_error ''IsADirectoryError'' p)
      else if map_of fs (butlast p) \<noteq> Some Folder then Inl (FileNotFoundError (join ''/'' p))
      else Inr (AList.update p (Plain s) fs))"

text \<open>
  The members of the archive: every path of the layout is added, in sorted order, and \<open>tar.add\<close> of
  a directory adds all that is below it as well.
\<close>

definition archive_members :: "path \<Rightarrow> tree \<Rightarrow> path list" where
  "archive_members dir fs =
     concat (map (\<lambda>p. map (relative_to dir) (sort (p # filter (below p) (map fst fs))))
       (sort (filter (below dir) (map fst fs))))"

record oci_layout =
  oc_tree :: tree
  oc_archive :: "path list option"
  oc_manifest_digest :: string
  oc_rootfs_digest :: string

definition blobs_of :: "path \<Rightarrow> path" where
  "blobs_of output_dir = output_dir @ [''blobs'', ''sha256'']"

definition build_oci_layout ::
  "(string \<Rightarrow> string) \<Rightarrow> (pv \<Rightarrow> string) \<Rightarrow> (pv \<Rightarrow> string) \<Rightarrow> path \<Rightarrow> path \<Rightarrow> bool \<Rightarrow> tree \<Rightarrow> oci_layout result" where
  "build_oci_layout sha canonical dumps rootfs_tar output_dir archive fs =
     (let blobs = blobs_of output_dir in
      rbind (mkdirs output_dir fs) (\<lambda>fs. rbind (mkdirs blobs fs) (\<lambda>fs.
      rbind (sha256_file sha rootfs_tar fs) (\<lambda>layer_digest.
      rbind (if exists_at fs (blobs @ [layer_digest]) then Inr fs
             else rbind (read_bytes rootfs_tar fs) (\<lambda>s. write_bytes (blobs @ [layer_digest]) s fs)) (\<lambda>fs.
      let cb = canonical (image_config layer_digest); cd = sha cb in
      rbind (write_bytes (blobs @ [cd]) cb fs) (\<lambda>fs.
      rbind (read_bytes rootfs_tar fs) (\<lambda>tar.
      let mb = canonical (image_manifest cd (length cb) layer_digest (length tar)); md = sha mb in
      rbind (write_bytes (blobs @ [md]) mb fs) (\<lambda>fs.
      rbind (write_bytes (output_dir @ [''index.json'']) (dumps (image_index md (length mb))) fs) (\<lambda>fs.
      rbind (write_bytes (output_dir @ [''oci-layout'']) (dumps (PDict [(''imageLayoutVersion'', PStr ''1.0.0'')])) fs) (\<lambda>fs.
      rbind (write_bytes (output_dir @ [''osbench-manifest.json''])
              (dumps (PDict [(''layer'', PStr layer_digest), (''config'', PStr cd), (''manifest'', PStr md)])) fs) (\<lambda>fs.
        Inr \<lparr>oc_tree = fs, oc_archive = (if archive then Some (archive_members output_dir fs) else None),
              oc_manifest_digest = md, oc_rootfs_digest = layer_digest\<rparr>)))))))))))"


section \<open>The layout is content addressed\<close>

definition addressed :: "(string \<Rightarrow> string) \<Rightarrow> path \<Rightarrow> tree \<Rightarrow> bool" where
  "addressed sha blobs fs \<longleftrightarrow> (\<forall>d n. map_of fs (blobs @ [d]) = Some n \<longrightarrow> (\<exists>s. n = Plain s \<and> sha s = d))"

text \<open>\<open>d\<close> resolves to a blob of the layout.\<close>

definition holds_blob :: "(string \<Rightarrow> string) \<Rightarrow> path \<Rightarrow> string \<Rightarrow> tree \<Rightarrow> bool" where
  "holds_blob sha blobs d fs \<longleftrightarrow> (\<exists>s. map_of fs (blobs @ [d]) = Some (Plain s) \<and> sha s = d)"

lemma mkdir_nodes:
  assumes "mkdir p fs = Inr gs"
  shows "map_of gs q = (if map_of fs q = None \<and> q = p then Some Folder else map_of fs q)"
  using assms by (auto simp: mkdir_def map_of_update split: option.splits node.splits)

lemma mkdirs_nodes:
  assumes "run_steps (map mkdir ps) fs = Inr gs" and "q \<notin> set ps"
  shows "map_of gs q = map_of fs q"
  using assms
proof (induction ps arbitrary: fs)
  case (Cons p ps)
  from Cons.prems obtain hs where "mkdir p fs = Inr hs" "run_steps (map mkdir ps) hs = Inr gs"
    by (auto simp: result_simps)
  with Cons.IH [of hs] Cons.prems(2) mkdir_nodes [of p fs hs q] show ?case by auto
qed simp

lemma addressed_mkdirs:
  assumes "mkdirs p fs = Inr gs" and "prefix p blobs" and "addressed sha blobs fs"
  shows "addressed sha blobs gs"
proof -
  have "blobs @ [d] \<notin> set (prefixes p)" for d
    using assms(2) by (auto dest!: prefix_length_le)
  then show ?thesis using assms(3) mkdirs_nodes [OF assms(1) [unfolded mkdirs_def]] by (simp add: addressed_def)
qed

lemma write_bytes_nodes:
  assumes "write_bytes p s fs = Inr gs"
  shows "map_of gs q = (if q = p then Some (Plain s) else map_of fs q)"
  using assms by (auto simp: write_bytes_def map_of_update split: if_splits)

lemma addressed_write:
  assumes "write_bytes p s fs = Inr gs" and "addressed sha blobs fs" and "\<And>d. p = blobs @ [d] \<Longrightarrow> sha s = d"
  shows "addressed sha blobs gs"
  using assms(2,3) write_bytes_nodes [OF assms(1)] by (auto simp: addressed_def split: if_splits)

lemma holds_blob_write:
  assumes "write_bytes p s fs = Inr gs" and "holds_blob sha blobs d fs \<or> p = blobs @ [d]"
    and "\<And>d. p = blobs @ [d] \<Longrightarrow> sha s = d"
  shows "holds_blob sha blobs d gs"
  using assms(2,3) write_bytes_nodes [OF assms(1)] by (auto simp: holds_blob_def split: if_splits)


lemma layer_stored:
  assumes d: "sha256_file sha rootfs_tar fs = Inr d"
    and layer: "(if exists_at fs (blobs @ [d]) then Inr fs
       else rbind (read_bytes rootfs_tar fs) (\<lambda>s. write_bytes (blobs @ [d]) s fs)) = Inr gs"
    and "addressed sha blobs fs"
  shows "holds_blob sha blobs d gs" and "addressed sha blobs gs"
proof -
  have "holds_blob sha blobs d gs \<and> addressed sha blobs gs"
  proof (cases "exists_at fs (blobs @ [d])")
    case True
    then obtain n where "map_of fs (blobs @ [d]) = Some n"
      by (metis exists_at_def map_of_eq_None_iff not_None_eq)
    with assms(3) have "holds_blob sha blobs d fs" by (auto simp: addressed_def holds_blob_def)
    with True layer assms(3) show ?thesis by simp
  next
    case False
    then obtain s where "read_bytes rootfs_tar fs = Inr s" and w: "write_bytes (blobs @ [d]) s fs = Inr gs"
      using layer by (auto simp: result_simps)
    then have "sha s = d"
      using d by (auto simp: read_bytes_def sha256_file_def split: option.splits node.splits)
    with addressed_write [OF w assms(3)] holds_blob_write [OF w] show ?thesis by auto
  qed
  then show "holds_blob sha blobs d gs" and "addressed sha blobs gs" by simp_all
qed

text \<open>
  The layout resolves. If every blob that an earlier export left is named by its digest, then
  after an export that is still so, and the reference in the index leads all the way down: the index
  names the manifest, the blob of that name is the manifest, and the configuration and the layer it
  names are blobs of the layout whose contents have the digests by which they are named.
\<close>

theorem oci_layout_resolves:
  assumes "build_oci_layout sha canonical dumps rootfs_tar output_dir archive fs = Inr r"
    and "addressed sha (blobs_of output_dir) fs"
  shows "addressed sha (blobs_of output_dir) (oc_tree r) \<and>
    (\<exists>cd m n manifest.
       manifest = canonical (image_manifest cd m (oc_rootfs_digest r) n) \<and>
       map_of (oc_tree r) (output_dir @ [''index.json'']) =
         Some (Plain (dumps (image_index (oc_manifest_digest r) (length manifest)))) \<and>
       map_of (oc_tree r) (blobs_of output_dir @ [oc_manifest_digest r]) = Some (Plain manifest) \<and>
       (\<forall>d\<in>{oc_manifest_digest r, cd, oc_rootfs_digest r}. holds_blob sha (blobs_of output_dir) d (oc_tree r)))"
proof -
  let ?b = "blobs_of output_dir"
  obtain f1 f2 f3 f4 f5 f6 f7 tar d where
    m: "mkdirs output_dir fs = Inr f1" "mkdirs ?b f1 = Inr f2" and d: "sha256_file sha rootfs_tar f2 = Inr d"
    and layer: "(if exists_at f2 (?b @ [d]) then Inr f2
       else rbind (read_bytes rootfs_tar f2) (\<lambda>s. write_bytes (?b @ [d]) s f2)) = Inr f3"
    and config: "write_bytes (?b @ [sha (canonical (image_config d))]) (canonical (image_config d)) f3 = Inr f4"
    and tar: "read_bytes rootfs_tar f4 = Inr tar"
    and manifest: "write_bytes (?b @ [oc_manifest_digest r])
       (canonical (image_manifest (sha (canonical (image_config d))) (length (canonical (image_config d))) d (length tar))) f4 = Inr f5"
       "oc_manifest_digest r =
          sha (canonical (image_manifest (sha (canonical (image_config d))) (length (canonical (image_config d))) d (length tar)))"
    and files: "write_bytes (output_dir @ [''index.json'']) (dumps (image_index (oc_manifest_digest r)
       (length (canonical (image_manifest (sha (canonical (image_config d))) (length (canonical (image_config d))) d (length tar)))))) f5 = Inr f6"
       "write_bytes (output_dir @ [''oci-layout'']) (dumps (PDict [(''imageLayoutVersion'', PStr ''1.0.0'')])) f6 = Inr f7"
       "write_bytes (output_dir @ [''osbench-manifest.json'']) (dumps (PDict [(''layer'', PStr d),
          (''config'', PStr (sha (canonical (image_config d)))), (''manifest'', PStr (oc_manifest_digest r))])) f7 = Inr (oc_tree r)"
    and d_def: "oc_rootfs_digest r = d"
    using assms(1) by (auto simp: build_oci_layout_def Let_def result_simps)
  let ?cd = "sha (canonical (image_config d))"
  have a2: "addressed sha ?b f2"
    using addressed_mkdirs [OF m(2) _ addressed_mkdirs [OF m(1) _ assms(2)]] by (simp add: blobs_of_def)
  from layer_stored [OF d layer a2] have "holds_blob sha ?b d f3 \<and> addressed sha ?b f3" by simp
  then have f4: "addressed sha ?b f4" "holds_blob sha ?b d f4" "holds_blob sha ?b ?cd f4"
    using addressed_write [OF config] holds_blob_write [OF config] by auto
  then have f5: "addressed sha ?b f5 \<and> (\<forall>e\<in>{oc_manifest_digest r, ?cd, d}. holds_blob sha ?b e f5)"
    using addressed_write [OF manifest(1)] holds_blob_write [OF manifest(1)] manifest(2) by auto
  have rest: "map_of (oc_tree r) (?b @ [e]) = map_of f5 (?b @ [e])" for e
    using files [THEN write_bytes_nodes] by (simp add: blobs_of_def)
  then have "addressed sha ?b (oc_tree r)" "holds_blob sha ?b e (oc_tree r) = holds_blob sha ?b e f5" for e
    using f5 by (simp_all add: addressed_def holds_blob_def)
  moreover have "map_of (oc_tree r) (output_dir @ [''index.json'']) = Some (Plain (dumps (image_index (oc_manifest_digest r)
       (length (canonical (image_manifest ?cd (length (canonical (image_config d))) d (length tar)))))))"
    using files [THEN write_bytes_nodes] by simp
  moreover have "map_of (oc_tree r) (?b @ [oc_manifest_digest r]) =
      Some (Plain (canonical (image_manifest ?cd (length (canonical (image_config d))) d (length tar))))"
    using rest write_bytes_nodes [OF manifest(1)] by simp
  ultimately show ?thesis using f5 unfolding d_def by blast
qed

definition demo_rootfs :: tree where
  "demo_rootfs = [([], Folder), ([''rootfs.tar''], Plain ''layer'')]"

definition demo_canonical :: "pv \<Rightarrow> string" where
  "demo_canonical v = (if pget v ''layers'' = None then ''config'' else ''manifest'')"

theorem oci_layout_resolves_witness:
  "\<exists>r. build_oci_layout (\<lambda>s. ''sha of '' @ s) demo_canonical (\<lambda>_. ''document'') [''rootfs.tar''] [''oci''] True demo_rootfs = Inr r \<and>
     holds_blob (\<lambda>s. ''sha of '' @ s) [''oci'', ''blobs'', ''sha256''] ''sha of layer'' (oc_tree r) \<and>
     oc_manifest_digest r = ''sha of manifest''"
proof -
  let ?build = "build_oci_layout (\<lambda>s. ''sha of '' @ s) demo_canonical (\<lambda>_. ''document'') [''rootfs.tar''] [''oci''] True demo_rootfs"
  have "case ?build of Inl _ \<Rightarrow> False | Inr r \<Rightarrow> oc_rootfs_digest r = ''sha of layer'' \<and> oc_manifest_digest r = ''sha of manifest''"
    by code_simp
  then obtain r where r: "?build = Inr r" "oc_rootfs_digest r = ''sha of layer''" "oc_manifest_digest r = ''sha of manifest''"
    by (auto split: sum.splits)
  have "addressed (\<lambda>s. ''sha of '' @ s) (blobs_of [''oci'']) demo_rootfs"
    by (simp add: addressed_def blobs_of_def demo_rootfs_def)
  from oci_layout_resolves [OF r(1) this] r show ?thesis by (auto simp: blobs_of_def)
qed

text \<open>
  The archive holds a blob three times: it is added below \<open>blobs\<close>, below \<open>blobs/sha256\<close> and by itself.
\<close>

lemma archive_repeats_blobs:
  "archive_members [''oci'']
     [([''oci''], Folder), ([''oci'', ''blobs''], Folder), ([''oci'', ''blobs'', ''sha256''], Folder),
      ([''oci'', ''blobs'', ''sha256'', ''d''], Plain ''layer''), ([''oci'', ''index.json''], Plain ''i'')] =
   [[''blobs''], [''blobs'', ''sha256''], [''blobs'', ''sha256'', ''d''],
    [''blobs'', ''sha256''], [''blobs'', ''sha256'', ''d''], [''blobs'', ''sha256'', ''d''], [''index.json'']]"
  by code_simp

end
