(* ===== verification/Inventory.thy ===== *)
theory Inventory
  imports Oci
begin

text \<open>
  \<open>inventory.py\<close>: the inventory of a reference system. The commands and the platform are inputs: a
  command is not found, or has a return code and its two outputs. Paths are lists of their parts
  below the root; \<open>sha\<close> is the hexadecimal digest of a file's contents.
\<close>

section \<open>What is observed\<close>

record inspected =
  is_run :: "string list \<Rightarrow> (int \<times> string \<times> string) option"
  is_executable :: "path \<Rightarrow> bool"
  is_unreadable :: "path \<Rightarrow> bool"
  is_platform :: string
  is_machine :: string
  is_kernel :: string
  is_hostname :: string
  is_uid :: "int option"

definition SOURCES :: "(string \<times> path) list" where
  "SOURCES =
     [(''os_release'', [''etc'', ''os-release'']), (''resolv_conf'', [''etc'', ''resolv.conf'']),
      (''passwd'', [''etc'', ''passwd'']), (''group'', [''etc'', ''group'']), (''mounts'', [''proc'', ''mounts'']),
      (''proc_cpuinfo'', [''proc'', ''cpuinfo'']), (''proc_meminfo'', [''proc'', ''meminfo'']),
      (''proc_cmdline'', [''proc'', ''cmdline''])]"

definition COMMANDS :: "(string \<times> string list) list" where
  "COMMANDS =
     [(''uname.txt'', [''uname'', ''-a'']), (''mount.txt'', [''mount'']),
      (''ip-address.txt'', [''ip'', ''-details'', ''address'']),
      (''ip-route.txt'', [''ip'', ''route'', ''show'', ''table'', ''all'']),
      (''sysctl.txt'', [''sysctl'', ''-a'']),
      (''systemd-units.txt'', [''systemctl'', ''list-unit-files'', ''--no-pager'']),
      (''systemd-enabled.txt'', [''systemctl'', ''list-unit-files'', ''--state=enabled'', ''--no-pager'']),
      (''environment.txt'', [''env'']), (''ldconfig.txt'', [''ldconfig'', ''-p''])]"

definition DPKG_QUERY :: "string list" where
  "DPKG_QUERY =
     [''dpkg-query'', ''-W'',
      ''-f=${binary:Package}'' @ [CHR 0x09] @ ''${Architecture}'' @ [CHR 0x09] @ ''${Version}'' @ [CHR 0x0A]]"

definition EXECUTABLE_DIRECTORIES :: "path list" where
  "EXECUTABLE_DIRECTORIES = [[''bin''], [''sbin''], [''usr'', ''bin''], [''usr'', ''sbin'']]"

definition capture :: "inspected \<Rightarrow> string list \<Rightarrow> string option" where
  "capture h command = map_option (\<lambda>(code, stdout, stderr). if code = 0 then stdout else stderr) (is_run h command)"

section \<open>The files of the inventory\<close>

type_synonym gathered = "tree \<times> (string, string) dict"

text \<open>\<open>destination.write_bytes(...); files[destination.name] = sha256_file(destination)\<close>.\<close>

definition keep :: "(string \<Rightarrow> string) \<Rightarrow> path \<Rightarrow> string \<Rightarrow> string \<Rightarrow> gathered \<Rightarrow> gathered result" where
  "keep sha output name s g =
     rbind (write_bytes (output @ [name]) s (fst g)) (\<lambda>fs.
     rbind (sha256_file sha (output @ [name]) fs) (\<lambda>d.
       Inr (fs, AList.update name d (snd g))))"

fun keep_sources :: "(string \<Rightarrow> string) \<Rightarrow> path \<Rightarrow> (string \<times> path) list \<Rightarrow> gathered \<Rightarrow> gathered result" where
  "keep_sources sha output [] g = Inr g"
| "keep_sources sha output ((name, source) # rest) g =
     rbind (if exists_at (fst g) source
            then rbind (read_bytes source (fst g)) (\<lambda>s. keep sha output (name @ ''.txt'') s g)
            else Inr g) (keep_sources sha output rest)"

fun keep_commands ::
  "inspected \<Rightarrow> (string \<Rightarrow> string) \<Rightarrow> path \<Rightarrow> (string \<times> string list) list \<Rightarrow> gathered \<Rightarrow> gathered result" where
  "keep_commands h sha output [] g = Inr g"
| "keep_commands h sha output ((name, command) # rest) g =
     rbind (case capture h command of None \<Rightarrow> Inr g | Some s \<Rightarrow> keep sha output name s g)
       (keep_commands h sha output rest)"

text \<open>The package list, which is empty if the query cannot run or fails.\<close>

definition package_text :: "inspected \<Rightarrow> string" where
  "package_text h =
     (case is_run h DPKG_QUERY of
        Some (code, stdout, stderr) \<Rightarrow> if code = 0 then stdout else []
      | None \<Rightarrow> [])"

text \<open>The executables: an entry that cannot be read is skipped.\<close>

definition entries_of :: "path \<Rightarrow> tree \<Rightarrow> path list" where
  "entries_of directory fs = sort (map fst (filter (\<lambda>(p, _). p \<noteq> [] \<and> butlast p = directory) fs))"

definition executable_row :: "inspected \<Rightarrow> (string \<Rightarrow> string) \<Rightarrow> tree \<Rightarrow> path \<Rightarrow> string option" where
  "executable_row h sha fs p =
     (case map_of fs p of
        Some (Plain s) \<Rightarrow>
          if is_executable h p \<and> \<not> is_unreadable h p
          then Some (''/'' @ join ''/'' p @ [CHR 0x09] @ str_of_nat (length s) @ [CHR 0x09] @ sha s) else None
      | _ \<Rightarrow> None)"

fun executable_rows ::
  "inspected \<Rightarrow> (string \<Rightarrow> string) \<Rightarrow> tree \<Rightarrow> path list \<Rightarrow> string list result" where
  "executable_rows h sha fs [] = Inr []"
| "executable_rows h sha fs (directory # rest) =
     rbind (case map_of fs directory of
              None \<Rightarrow> Inr []
            | Some (Plain _) \<Rightarrow> Inl (os_error ''NotADirectoryError'' directory)
            | Some Folder \<Rightarrow> Inr (List.map_filter (executable_row h sha fs) (entries_of directory fs))) (\<lambda>rows.
     rbind (executable_rows h sha fs rest) (\<lambda>more. Inr (rows @ more)))"

definition rows_text :: "string list \<Rightarrow> string" where
  "rows_text rows = join [CHR 0x0A] rows @ (if rows = [] then [] else [CHR 0x0A])"

definition inventory_manifest ::
  "inspected \<Rightarrow> pv \<Rightarrow> (string, string) dict \<Rightarrow> string \<Rightarrow> string \<Rightarrow> nat \<Rightarrow> (string \<times> pv) list" where
  "inventory_manifest h profile files packages packages_sha executables =
     [(''schema_version'', PStr ''osbench.inventory.v1''), (''profile'', profile),
      (''platform'', PStr (is_platform h)), (''machine'', PStr (is_machine h)), (''kernel'', PStr (is_kernel h)),
      (''hostname'', PStr (is_hostname h)),
      (''uid'', case is_uid h of Some u \<Rightarrow> PInt u | None \<Rightarrow> PNone),
      (''files'', PDict (map (\<lambda>(n, d). (n, PStr d)) (sorted_items files))),
      (''package_count'', PInt (int (length (filter (\<lambda>l. l \<noteq> []) (split_lines False [] packages))))),
      (''package_manifest_sha256'', PStr packages_sha),
      (''executable_count'', PInt (int executables))]"

definition collect_reference ::
  "inspected \<Rightarrow> (string \<Rightarrow> string) \<Rightarrow> (pv \<Rightarrow> string) \<Rightarrow> path \<Rightarrow> pv \<Rightarrow> tree \<Rightarrow> (tree \<times> pv) result" where
  "collect_reference h sha dumps output profile fs =
     rbind (mkdirs output fs) (\<lambda>fs.
     rbind (keep_sources sha output SOURCES (fs, [])) (\<lambda>g.
     rbind (keep_commands h sha output COMMANDS g) (\<lambda>g.
     rbind (keep sha output ''packages.tsv'' (package_text h) g) (\<lambda>g.
     rbind (executable_rows h sha (fst g) EXECUTABLE_DIRECTORIES) (\<lambda>rows.
     rbind (keep sha output ''executables.tsv'' (rows_text rows) g) (\<lambda>g.
     rbind (read_bytes (output @ [''packages.tsv'']) (fst g)) (\<lambda>packages.
     rbind (sha256_file sha (output @ [''packages.tsv'']) (fst g)) (\<lambda>packages_sha.
       (let manifest = inventory_manifest h profile (snd g) packages packages_sha (length rows) in
        rbind (write_bytes (output @ [''manifest.json'']) (dumps (PDict manifest)) (fst g)) (\<lambda>fs.
          Inr (fs, PDict (manifest @ [(''output'', PStr (join ''/'' output))]))))))))))))"


section \<open>The manifest describes the inventory\<close>

definition recorded_in :: "(string \<Rightarrow> string) \<Rightarrow> path \<Rightarrow> gathered \<Rightarrow> bool" where
  "recorded_in sha output g \<longleftrightarrow>
     (\<forall>n d. map_of (snd g) n = Some d \<longrightarrow> (\<exists>s. map_of (fst g) (output @ [n]) = Some (Plain s) \<and> sha s = d))"

lemma keep_recorded:
  assumes "keep sha output name s g = Inr g'"
  shows "recorded_in sha output g \<Longrightarrow> recorded_in sha output g'"
    and "map_of (fst g') (output @ [name]) = Some (Plain s)"
    and "map_of (snd g') name = Some (sha s)"
    and "dom (map_of (snd g')) = insert name (dom (map_of (snd g)))"
    and "n \<noteq> name \<Longrightarrow> map_of (snd g') n = map_of (snd g) n"
    and "distinct (map fst (snd g)) \<Longrightarrow> distinct (map fst (snd g'))"
proof -
  obtain fs where fs: "write_bytes (output @ [name]) s (fst g) = Inr fs" "g' = (fs, AList.update name (sha s) (snd g))"
    using assms write_bytes_nodes by (fastforce simp: keep_def result_simps sha256_file_def)
  note w = write_bytes_nodes [OF fs(1)]
  show "recorded_in sha output g \<Longrightarrow> recorded_in sha output g'"
    using w by (auto simp: recorded_in_def fs(2) map_of_update split: if_splits)
  show "map_of (fst g') (output @ [name]) = Some (Plain s)" "map_of (snd g') name = Some (sha s)"
    "dom (map_of (snd g')) = insert name (dom (map_of (snd g)))"
    "n \<noteq> name \<Longrightarrow> map_of (snd g') n = map_of (snd g) n"
    using w by (auto simp: fs(2) map_of_update)
  show "distinct (map fst (snd g)) \<Longrightarrow> distinct (map fst (snd g'))" by (simp add: fs(2) distinct_update)
qed

lemma read_then_sha: "read_bytes p fs = Inr s \<Longrightarrow> sha256_file sha p fs = Inr d \<longleftrightarrow> d = sha s"
  by (auto simp: read_bytes_def sha256_file_def split: option.splits node.splits)

definition gathering :: "(string \<Rightarrow> string) \<Rightarrow> path \<Rightarrow> gathered \<Rightarrow> bool" where
  "gathering sha output g \<longleftrightarrow>
     recorded_in sha output g \<and> distinct (map fst (snd g)) \<and> map_of (snd g) ''manifest.json'' = None"

lemma keep_gathering:
  "keep sha output name s g = Inr g' \<Longrightarrow> name \<noteq> ''manifest.json'' \<Longrightarrow> gathering sha output g \<Longrightarrow> gathering sha output g'"
  by (auto simp: gathering_def keep_recorded)

lemma keep_sources_gathering:
  "keep_sources sha dir sources g = Inr g' \<Longrightarrow> gathering sha dir g \<Longrightarrow> gathering sha dir g'"
proof (induction sources arbitrary: g)
  case (Cons x sources)
  have "name @ ''.txt'' \<noteq> ''manifest.json''" for name :: string
    by (rule notI, drule arg_cong [where f = last]) simp
  with Cons show ?case by (cases x) (auto simp: result_simps keep_gathering split: if_splits)
qed simp

lemma keep_commands_gathering:
  "keep_commands h sha dir commands g = Inr g' \<Longrightarrow> ''manifest.json'' \<notin> fst ` set commands \<Longrightarrow>
   gathering sha dir g \<Longrightarrow> gathering sha dir g'"
  by (induction commands arbitrary: g) (auto simp: result_simps keep_gathering split: option.splits)

text \<open>
  The manifest describes the inventory: every file that it lists lies in the output directory
  with the digest listed for it, the package list and the executables are among them, and the
  package count is the number of lines that are not empty of the package file that was written.
\<close>

theorem inventory_describes_files:
  assumes "collect_reference h sha dumps dir profile fs = Inr (gs, report)"
  shows "(\<forall>n d. map_of (items_of (pget_default report ''files'' PNone)) n = Some d \<longrightarrow>
       (\<exists>s. map_of gs (dir @ [n]) = Some (Plain s) \<and> d = PStr (sha s))) \<and>
    (\<exists>packages. map_of gs (dir @ [''packages.tsv'']) = Some (Plain packages) \<and>
       pget report ''package_manifest_sha256'' = Some (PStr (sha packages)) \<and>
       pget report ''package_count'' = Some (PInt (int (length (filter (\<lambda>l. l \<noteq> []) (split_lines False [] packages))))))"
proof -
  obtain f1 g2 g3 g4 rows g5 packages where
    g2: "keep_sources sha dir SOURCES (f1, []) = Inr g2" and g3: "keep_commands h sha dir COMMANDS g2 = Inr g3"
    and g4: "keep sha dir ''packages.tsv'' (package_text h) g3 = Inr g4"
    and g5: "keep sha dir ''executables.tsv'' (rows_text rows) g4 = Inr g5"
    and packages: "read_bytes (dir @ [''packages.tsv'']) (fst g5) = Inr packages"
    and w: "write_bytes (dir @ [''manifest.json''])
        (dumps (PDict (inventory_manifest h profile (snd g5) packages (sha packages) (length rows)))) (fst g5) = Inr gs"
    and report: "report = PDict (inventory_manifest h profile (snd g5) packages (sha packages) (length rows) @
        [(''output'', PStr (join ''/'' dir))])"
    using assms
    unfolding collect_reference_def Let_def result_simps
    by (elim exE conjE) (simp add: read_then_sha)
  have "gathering sha dir (f1, [])" by (simp add: gathering_def recorded_in_def)
  from keep_sources_gathering [OF g2 this] have "gathering sha dir g3"
    by (intro keep_commands_gathering [OF g3]) (auto simp: COMMANDS_def)
  from keep_gathering [OF g4 _ this] have "gathering sha dir g5"
    by (intro keep_gathering [OF g5]) auto
  then have g: "recorded_in sha dir g5" "distinct (map fst (snd g5))" "map_of (snd g5) ''manifest.json'' = None"
    by (auto simp: gathering_def)
  note nodes = write_bytes_nodes [OF w]
  have "\<exists>s. map_of gs (dir @ [n]) = Some (Plain s) \<and> d = PStr (sha s)"
    if "map_of (map (\<lambda>(n, d). (n, PStr d)) (sorted_items (snd g5))) n = Some d" for n d
  proof -
    from that g(2) obtain e where e: "map_of (snd g5) n = Some e" "d = PStr e"
      by (auto simp: map_of_map map_of_sorted_items)
    with g(3) have "n \<noteq> ''manifest.json''" by auto
    with g(1) e nodes show ?thesis by (auto simp: recorded_in_def)
  qed
  moreover have "map_of gs (dir @ [''packages.tsv'']) = Some (Plain packages)"
    using packages nodes by (auto simp: read_bytes_def split: option.splits node.splits)
  ultimately show ?thesis
    by (simp add: report inventory_manifest_def pget_default_def pget_def)
qed

definition demo_inspected :: inspected where
  "demo_inspected =
     \<lparr>is_run = (\<lambda>c. if c = DPKG_QUERY then Some (0, ''base-files'' @ [CHR 0x0A], []) else None),
      is_executable = (\<lambda>_. True), is_unreadable = (\<lambda>_. False), is_platform = ''Linux'', is_machine = ''x86_64'',
      is_kernel = ''6.12'', is_hostname = ''reference'', is_uid = Some 0\<rparr>"

definition demo_system :: tree where
  "demo_system =
     [([], Folder), ([''etc''], Folder), ([''etc'', ''passwd''], Plain ''root''), ([''bin''], Folder),
      ([''bin'', ''sh''], Plain ''ELF'')]"

theorem inventory_describes_files_witness:
  "\<exists>gs report s. collect_reference demo_inspected (\<lambda>s. ''sha of '' @ s) (\<lambda>_. ''m'') [''inventory''] PNone demo_system = Inr (gs, report) \<and>
     pget (pget_default report ''files'' PNone) ''passwd.txt'' = Some (PStr (''sha of '' @ s)) \<and>
     map_of gs [''inventory'', ''passwd.txt''] = Some (Plain s)"
proof -
  let ?collected = "collect_reference demo_inspected (\<lambda>s. ''sha of '' @ s) (\<lambda>_. ''m'') [''inventory''] PNone demo_system"
  have "case ?collected of Inl _ \<Rightarrow> False
      | Inr (gs, report) \<Rightarrow> pget (pget_default report ''files'' PNone) ''passwd.txt'' = Some (PStr ''sha of root'')"
    by code_simp
  then obtain gs report where c: "?collected = Inr (gs, report)"
    "pget (pget_default report ''files'' PNone) ''passwd.txt'' = Some (PStr ''sha of root'')"
    by (auto split: sum.splits)
  from inventory_describes_files [OF c(1)] c show ?thesis by (fastforce simp: pget_def)
qed

end
