(* ===== verification/Posix.thy ===== *)
theory Posix
  imports LockCounter Effects Constants "HOL-Library.Sublist"
begin

text \<open>
  The part of the operating system that the probes of \<open>probes.py\<close>, \<open>local_probes.py\<close> and the guest
  agent exercise through Python's standard library: one temporary directory with its entries and
  inodes, file descriptors, a pipe, a mapping, and what the platform answers. Every operation is a
  system call that the script of the run may refuse with an exception.
\<close>

section \<open>The state\<close>

datatype entry = Inode nat | Symlink string

record os =
  os_script :: "exn option list"
  os_dir :: "(string, entry) dict option"
  os_data :: "(nat, string) dict"
  os_fresh :: nat
  os_fds :: "nat list"
  os_pipe :: "string \<times> bool"
  os_page :: string
  os_next_pid :: int
  os_clock :: "int list"

text \<open>What does not change while a probe runs.\<close>

record platform =
  pf_temp :: string
  pf_file_mode :: nat
  pf_pid :: int
  pf_ppid :: int
  pf_uid :: int
  pf_gid :: int
  pf_groups :: "int list"
  pf_page_size :: int
  pf_cpus :: "int option"
  pf_machine :: string
  pf_kernel :: string
  pf_system :: string
  pf_hostname :: string
  pf_timezone :: string
  pf_python :: string
  pf_argv :: nat
  pf_has_path :: bool
  pf_has_fork :: bool
  pf_host_file :: "string \<Rightarrow> string option"
  pf_command :: "string list \<Rightarrow> (int \<times> string \<times> string) option"
  pf_port :: int
  pf_received :: nat
  pf_random :: string
  pf_schedule :: "threads \<Rightarrow> actor list"
  pf_sqlite :: "string list \<Rightarrow> pv result"

section \<open>System calls\<close>

definition sys :: "(os \<Rightarrow> 'a result \<times> os) \<Rightarrow> (os, 'a) eff" where
  "sys f s =
     (case os_script s of
        [] \<Rightarrow> f s
      | None # rest \<Rightarrow> f (s\<lparr>os_script := rest\<rparr>)
      | Some e # rest \<Rightarrow> (Inl e, s\<lparr>os_script := rest\<rparr>))"

definition entries :: "os \<Rightarrow> (string, entry) dict" where
  "entries s = (case os_dir s of Some d \<Rightarrow> d | None \<Rightarrow> [])"

text \<open>A name is resolved through one symbolic link, the only one that a probe creates.\<close>

definition inode_of :: "os \<Rightarrow> string \<Rightarrow> nat option" where
  "inode_of s name =
     (case map_of (entries s) name of
        Some (Inode i) \<Rightarrow> Some i
      | Some (Symlink target) \<Rightarrow> (case map_of (entries s) target of Some (Inode i) \<Rightarrow> Some i | _ \<Rightarrow> None)
      | None \<Rightarrow> None)"

definition contents :: "os \<Rightarrow> nat \<Rightarrow> string" where
  "contents s i = (case map_of (os_data s) i of Some c \<Rightarrow> c | None \<Rightarrow> [])"

definition set_entries :: "(string, entry) dict \<Rightarrow> os \<Rightarrow> os" where
  "set_entries d s = s\<lparr>os_dir := Some d\<rparr>"

definition no_entry :: "string \<Rightarrow> exn" where
  "no_entry name = FileNotFoundError name"

definition exists_entry :: "string \<Rightarrow> exn" where
  "exists_entry name = OtherError ''FileExistsError'' name"

definition make_temp :: "(os, unit) eff" where
  "make_temp = sys (\<lambda>s. (Inr (), set_entries [] s))"

definition remove_temp :: "(os, unit) eff" where
  "remove_temp = sys (\<lambda>s. (Inr (), s\<lparr>os_dir := None\<rparr>))"

definition write_file :: "string \<Rightarrow> string \<Rightarrow> (os, unit) eff" where
  "write_file name c = sys (\<lambda>s.
     case inode_of s name of
       Some i \<Rightarrow> (Inr (), s\<lparr>os_data := AList.update i c (os_data s)\<rparr>)
     | None \<Rightarrow>
         (let i = os_fresh s in
          (Inr (), set_entries (AList.update name (Inode i) (entries s))
             (s\<lparr>os_data := AList.update i c (os_data s), os_fresh := i + 1\<rparr>))))"

definition file_exists :: "string \<Rightarrow> (os, bool) eff" where
  "file_exists name = sys (\<lambda>s. (Inr (inode_of s name \<noteq> None), s))"

definition on_inode :: "string \<Rightarrow> (nat \<Rightarrow> os \<Rightarrow> 'a result \<times> os) \<Rightarrow> (os, 'a) eff" where
  "on_inode name f = sys (\<lambda>s. case inode_of s name of None \<Rightarrow> (Inl (no_entry name), s) | Some i \<Rightarrow> f i s)"

definition read_file :: "string \<Rightarrow> (os, string) eff" where
  "read_file name = on_inode name (\<lambda>i s. (Inr (contents s i), s))"

record stat =
  st_size :: nat
  st_ino :: nat
  st_nlink :: nat

definition links_to :: "nat \<Rightarrow> os \<Rightarrow> nat" where
  "links_to i s = length (filter (\<lambda>(n, e). e = Inode i) (entries s))"

definition stat_file :: "string \<Rightarrow> (os, stat) eff" where
  "stat_file name =
     on_inode name (\<lambda>i s. (Inr \<lparr>st_size = length (contents s i), st_ino = i, st_nlink = links_to i s\<rparr>, s))"

definition link_file :: "string \<Rightarrow> string \<Rightarrow> (os, unit) eff" where
  "link_file old new = on_inode old (\<lambda>i s.
     if map_of (entries s) new \<noteq> None then (Inl (exists_entry new), s)
     else (Inr (), set_entries (AList.update new (Inode i) (entries s)) s))"

definition symlink_file :: "string \<Rightarrow> string \<Rightarrow> (os, unit) eff" where
  "symlink_file target new = sys (\<lambda>s.
     if map_of (entries s) new \<noteq> None then (Inl (exists_entry new), s)
     else (Inr (), set_entries (AList.update new (Symlink target) (entries s)) s))"

definition read_link :: "string \<Rightarrow> (os, string) eff" where
  "read_link name = sys (\<lambda>s.
     case map_of (entries s) name of
       Some (Symlink target) \<Rightarrow> (Inr target, s)
     | Some (Inode i) \<Rightarrow> (Inl (OtherError ''OSError'' name), s)
     | None \<Rightarrow> (Inl (no_entry name), s))"

definition rename_file :: "string \<Rightarrow> string \<Rightarrow> (os, unit) eff" where
  "rename_file old new = sys (\<lambda>s.
     case map_of (entries s) old of
       None \<Rightarrow> (Inl (no_entry old), s)
     | Some e \<Rightarrow> (Inr (), set_entries (AList.update new e (AList.delete old (entries s))) s))"

definition unlink_entry :: "string \<Rightarrow> (os, unit) eff" where
  "unlink_entry name = sys (\<lambda>s.
     if map_of (entries s) name = None then (Inl (no_entry name), s)
     else (Inr (), set_entries (AList.delete name (entries s)) s))"

definition truncate_file :: "string \<Rightarrow> nat \<Rightarrow> (os, unit) eff" where
  "truncate_file name n = on_inode name (\<lambda>i s.
     (Inr (), s\<lparr>os_data := AList.update i (take n (contents s i) @ replicate (n - length (contents s i)) (CHR 0x00)) (os_data s)\<rparr>))"

text \<open>Descriptors: the lowest free one is taken. A descriptor keeps its inode when the name goes.\<close>

definition lowest_free :: "nat list \<Rightarrow> nat" where
  "lowest_free used = hd (filter (\<lambda>n. n \<notin> set used) [0..<length used + 1])"

definition new_fd :: "(os, nat) eff" where
  "new_fd = sys (\<lambda>s. (Inr (lowest_free (os_fds s)), s\<lparr>os_fds := lowest_free (os_fds s) # os_fds s\<rparr>))"

definition open_file :: "string \<Rightarrow> (os, nat \<times> nat) eff" where
  "open_file name = on_inode name (\<lambda>i s.
     (Inr (lowest_free (os_fds s), i), s\<lparr>os_fds := lowest_free (os_fds s) # os_fds s\<rparr>))"

definition read_handle :: "nat \<times> nat \<Rightarrow> (os, string) eff" where
  "read_handle h = sys (\<lambda>s. (Inr (contents s (snd h)), s))"

definition close_fd :: "nat \<Rightarrow> (os, unit) eff" where
  "close_fd d = sys (\<lambda>s. (Inr (), s\<lparr>os_fds := remove1 d (os_fds s)\<rparr>))"

text \<open>The pipe: its bytes and whether the writing end is open.\<close>

definition make_pipe :: "(os, nat \<times> nat) eff" where
  "make_pipe =
     ebind new_fd (\<lambda>r. ebind new_fd (\<lambda>w. eseq (emodify (\<lambda>s. s\<lparr>os_pipe := ([], True)\<rparr>)) (eret (r, w))))"

definition write_pipe :: "string \<Rightarrow> (os, unit) eff" where
  "write_pipe c = sys (\<lambda>s. (Inr (), s\<lparr>os_pipe := (fst (os_pipe s) @ c, snd (os_pipe s))\<rparr>))"

definition close_writer :: "nat \<Rightarrow> (os, unit) eff" where
  "close_writer w = eseq (close_fd w) (emodify (\<lambda>s. s\<lparr>os_pipe := (fst (os_pipe s), False)\<rparr>))"

definition would_block :: exn where
  "would_block = OtherError ''BlockingIOError'' ''read''"

text \<open>A read of an empty pipe whose writing end is open does not return.\<close>

definition read_pipe :: "nat \<Rightarrow> (os, string) eff" where
  "read_pipe n = sys (\<lambda>s.
     if fst (os_pipe s) = [] \<and> snd (os_pipe s) then (Inl would_block, s)
     else (Inr (take n (fst (os_pipe s))), s\<lparr>os_pipe := (drop n (fst (os_pipe s)), snd (os_pipe s))\<rparr>))"

text \<open>An anonymous mapping is zeroed; slices of it are assigned and read.\<close>

definition map_page :: "nat \<Rightarrow> (os, unit) eff" where
  "map_page n = sys (\<lambda>s. (Inr (), s\<lparr>os_page := replicate n (CHR 0x00)\<rparr>))"

definition poke :: "string \<Rightarrow> (os, unit) eff" where
  "poke c = emodify (\<lambda>s. s\<lparr>os_page := c @ drop (length c) (os_page s)\<rparr>)"

definition peek :: "nat \<Rightarrow> (os, string) eff" where
  "peek n = (\<lambda>s. (Inr (take n (os_page s)), s))"

text \<open>\<open>fork\<close>: the child exits with a status of its own, which \<open>waitpid\<close> gives to the parent.\<close>

definition fork_child :: "int \<Rightarrow> (os, int \<times> int) eff" where
  "fork_child status = sys (\<lambda>s. (Inr (os_next_pid s, status), s\<lparr>os_next_pid := os_next_pid s + 1\<rparr>))"

definition wait_child :: "int \<times> int \<Rightarrow> (os, int \<times> int) eff" where
  "wait_child child = sys (\<lambda>s. (Inr child, s))"

text \<open>The monotonic clock: its next reading; it stands still when the readings end.\<close>

definition read_clock :: "(os, int) eff" where
  "read_clock = (\<lambda>s.
     case os_clock s of
       [] \<Rightarrow> (Inr 0, s)
     | [t] \<Rightarrow> (Inr t, s)
     | t # u # rest \<Rightarrow> (Inr t, s\<lparr>os_clock := u # rest\<rparr>))"

end
