(* ===== verification/Probes.thy ===== *)
theory Probes
  imports Posix PyValue
begin

text \<open>
  \<open>probes.py\<close> and \<open>probe_worker.py\<close>: one case is executed by the probe of its Contract's family and
  answered with an observation. The observation dictionary is filled while the probe runs, so what
  was observed before an exception stays in it. \<open>errno_of\<close> is the \<open>errno\<close> attribute of an exception
  if it has one, \<open>sha\<close> the hexadecimal digest of bytes, \<open>loads\<close> the parsing of JSON.
\<close>

section \<open>Texts and bytes\<close>

definition utf8 :: "string \<Rightarrow> string" where
  "utf8 s = concat (map (\<lambda>c. if of_char c < (128 :: nat) then [c]
     else [char_of (192 + of_char c div 64 :: nat), char_of (128 + of_char c mod 64 :: nat)]) s)"

fun decode_utf8 :: "string \<Rightarrow> string result" where
  "decode_utf8 [] = Inr []"
| "decode_utf8 (c # cs) =
     (if of_char c < (128 :: nat) then rbind (decode_utf8 cs) (\<lambda>s. Inr (c # s))
      else (case cs of
              [] \<Rightarrow> Inl (OtherError ''UnicodeDecodeError'' ''unexpected end of data'')
            | d # ds \<Rightarrow>
                if of_char c \<in> {194, 195 :: nat} \<and> of_char d div 64 = (2 :: nat)
                then rbind (decode_utf8 ds) (\<lambda>s. Inr (char_of ((of_char c - 192) * 64 + of_char d mod 64 :: nat) # s))
                else Inl (OtherError ''UnicodeDecodeError'' ''invalid start byte'')))"

definition strip_text :: "string \<Rightarrow> string" where
  "strip_text s =
     rev (dropWhile (\<lambda>c. is_blank [c]) (rev (dropWhile (\<lambda>c. is_blank [c]) s)))"

fun octal :: "nat \<Rightarrow> string" where
  "octal n = (if n < 8 then [char_of (48 + n)] else octal (n div 8) @ [char_of (48 + n mod 8)])"

text \<open>\<open>(case["stimulus"]["token"] * 3).encode()\<close>.\<close>

definition token_of :: "pv \<Rightarrow> pv result" where
  "token_of c = rbind (py_item c ''stimulus'') (\<lambda>s. py_item s ''token'')"

fun tripled_bytes :: "pv \<Rightarrow> string result" where
  "tripled_bytes (PStr t) = Inr (utf8 (t @ t @ t))"
| "tripled_bytes PNone = Inl (TypeError ''unsupported operand type(s) for *'')"
| "tripled_bytes (PDict _) = Inl (TypeError ''unsupported operand type(s) for *'')"
| "tripled_bytes _ = Inl (AttributeError ''object has no attribute encode'')"

section \<open>A running probe\<close>

record probe =
  pb_os :: os
  pb_obs :: "(string, pv) dict"
  pb_out :: "(string, pv) dict"

definition call :: "(os, 'a) eff \<Rightarrow> (probe, 'a) eff" where
  "call f p = (case f (pb_os p) of (r, s) \<Rightarrow> (r, p\<lparr>pb_os := s\<rparr>))"

definition observe :: "(string \<times> pv) list \<Rightarrow> (probe, unit) eff" where
  "observe kvs = emodify (\<lambda>p. p\<lparr>pb_obs := merge_fields (pb_obs p) kvs\<rparr>)"

definition answer :: "(string \<times> pv) list \<Rightarrow> (probe, unit) eff" where
  "answer kvs = emodify (\<lambda>p. p\<lparr>pb_out := merge_fields (pb_out p) kvs\<rparr>)"

definition ewhen :: "bool \<Rightarrow> ('s, unit) eff \<Rightarrow> ('s, unit) eff" where
  "ewhen b m = (if b then m else eret ())"

definition starts_any :: "string \<Rightarrow> string list \<Rightarrow> bool" where
  "starts_any s ps \<longleftrightarrow> list_ex (\<lambda>p. prefix p s) ps"

definition int_pv :: "nat \<Rightarrow> pv" where
  "int_pv n = PInt (int n)"

section \<open>The probes\<close>

text \<open>The parts of the file probe that depend on words of the Contract's id.\<close>

definition hardlink_part :: "string \<Rightarrow> (probe, unit) eff" where
  "hardlink_part cid = ewhen (sublist ''hardlink'' cid)
     (eseq (call (link_file ''file'' ''link''))
      (ebind (call (stat_file ''file'')) (\<lambda>a. ebind (call (stat_file ''link'')) (\<lambda>b. ebind (call (stat_file ''file'')) (\<lambda>c.
        observe [(''same_inode'', PBool (st_ino a = st_ino b)), (''links'', int_pv (st_nlink c))])))))"

definition symlink_part :: "string \<Rightarrow> (probe, unit) eff" where
  "symlink_part cid = ewhen (sublist ''symlink'' cid)
     (eseq (call (symlink_file ''file'' ''sym'')) (ebind (call (read_link ''sym'')) (\<lambda>t. observe [(''target'', PStr t)])))"

definition rename_part :: "string \<Rightarrow> (probe, unit) eff" where
  "rename_part cid = ewhen (sublist ''rename'' cid)
     (eseq (call (rename_file ''file'' ''renamed''))
      (ebind (call (file_exists ''file'')) (\<lambda>old. ebind (call (file_exists ''renamed'')) (\<lambda>new.
        observe [(''old_exists'', PBool old), (''new_exists'', PBool new)]))))"

definition unlink_open_part :: "string \<Rightarrow> (probe, unit) eff" where
  "unlink_open_part cid = ewhen (sublist ''unlink_open'' cid)
     (ebind (call (open_file ''file'')) (\<lambda>h.
      eseq (call (unlink_entry ''file''))
      (ebind (call (file_exists ''file'')) (\<lambda>e. ebind (call (read_handle h)) (\<lambda>c. ebind (elift (decode_utf8 c)) (\<lambda>t.
        eseq (observe [(''path_exists'', PBool e), (''open_read'', PStr t)]) (call (close_fd (fst h)))))))))"

definition truncate_part :: "string \<Rightarrow> (probe, unit) eff" where
  "truncate_part cid = ewhen (sublist ''truncate'' cid)
     (eseq (call (truncate_file ''file'' 1))
      (ebind (call (stat_file ''file'')) (\<lambda>a. observe [(''size_after'', int_pv (st_size a))])))"

definition file_basics :: "(string \<Rightarrow> string) \<Rightarrow> platform \<Rightarrow> pv \<Rightarrow> (probe, unit) eff" where
  "file_basics sha pf c =
     ebind (elift (rbind (token_of c) tripled_bytes)) (\<lambda>data.
     eseq (call (write_file ''file'' data))
     (ebind (call (file_exists ''file'')) (\<lambda>e. ebind (call (stat_file ''file'')) (\<lambda>a.
      ebind (call (read_file ''file'')) (\<lambda>b. ebind (call (stat_file ''file'')) (\<lambda>_.
      observe [(''exists'', PBool e), (''size'', int_pv (st_size a)), (''content_sha256'', PStr (sha b)),
               (''mode'', PStr (''0o'' @ octal (pf_file_mode pf)))]))))))"

definition file_probe :: "(string \<Rightarrow> string) \<Rightarrow> platform \<Rightarrow> pv \<Rightarrow> string \<Rightarrow> (probe, unit) eff" where
  "file_probe sha pf c cid =
     eseq (file_basics sha pf c) (eseq (hardlink_part cid) (eseq (symlink_part cid) (eseq (rename_part cid)
       (eseq (unlink_open_part cid) (truncate_part cid)))))"

definition descriptor_probe :: "(probe, unit) eff" where
  "descriptor_probe =
     eseq (call (write_file ''fd'' ''abcdef'')) (ebind (call (open_file ''fd'')) (\<lambda>h. ebind (call new_fd) (\<lambda>d.
     eseq (observe [(''fd'', int_pv (fst h)), (''dup'', int_pv d), (''lowest_nonnegative'', PBool (int d \<ge> 0))])
     (eseq (call (close_fd d)) (call (close_fd (fst h)))))))"

definition process_probe :: "platform \<Rightarrow> (probe, unit) eff" where
  "process_probe pf =
     (if pf_has_fork pf
      then ebind (call (fork_child 7)) (\<lambda>child. ebind (call (wait_child child)) (\<lambda>(got, status).
        observe [(''pid'', PInt got), (''exit_status'', PInt status), (''parent'', PInt (pf_pid pf))]))
      else observe [(''pid'', PInt (pf_pid pf)), (''parent'', PInt (pf_ppid pf))])"

definition pipe_probe :: "(probe, unit) eff" where
  "pipe_probe =
     ebind (call make_pipe) (\<lambda>(r, w). eseq (call (write_pipe ''ok'')) (eseq (call (close_writer w))
     (ebind (call (read_pipe 2)) (\<lambda>data. ebind (elift (decode_utf8 data)) (\<lambda>t. ebind (call (read_pipe 1)) (\<lambda>rest.
       eseq (observe [(''data'', PStr t), (''eof'', PBool (rest = []))]) (call (close_fd r))))))))"

definition memory_probe :: "platform \<Rightarrow> (probe, unit) eff" where
  "memory_probe pf =
     eseq (call (map_page 4096)) (eseq (call (poke ''test'')) (ebind (call (peek 4)) (\<lambda>b. ebind (elift (decode_utf8 b)) (\<lambda>t.
       observe [(''mapped'', PBool True), (''value'', PStr t), (''page_size'', PInt (pf_page_size pf))]))))"

text \<open>
  A client thread connects and sends four bytes while the probe accepts and receives once; a receive
  delivers at least one of the bytes.
\<close>

definition syscall_ok :: "(os, unit) eff" where
  "syscall_ok = sys (\<lambda>s. (Inr (), s))"

definition received :: "platform \<Rightarrow> string \<Rightarrow> string" where
  "received pf sent = take (max 1 (pf_received pf)) sent"

definition socket_probe :: "platform \<Rightarrow> (probe, unit) eff" where
  "socket_probe pf =
     eseq (call (efor [''socket'', ''bind'', ''listen'', ''accept'', ''recv''] (\<lambda>_. syscall_ok)))
     (ebind (elift (decode_utf8 (received pf ''ping''))) (\<lambda>t.
       observe [(''data'', PStr t), (''port'', PInt (pf_port pf)), (''address'', PStr ''127.0.0.1'')]))"

definition thread_probe :: "platform \<Rightarrow> (probe, unit) eff" where
  "thread_probe pf = observe (map (\<lambda>(k, n). (k, int_pv n)) (counter_report 2 100 (pf_schedule pf)))"

text \<open>A command that is not found, or one that is checked and fails, raises.\<close>

definition run_command :: "platform \<Rightarrow> bool \<Rightarrow> string list \<Rightarrow> (probe, int \<times> string \<times> string) eff" where
  "run_command pf check command =
     eseq (call syscall_ok)
       (case pf_command pf command of
          None \<Rightarrow> eraise (FileNotFoundError (hd command))
        | Some (code, stdout, stderr) \<Rightarrow>
            if check \<and> code \<noteq> 0 then eraise (OtherError ''CalledProcessError'' (hd command))
            else eret (code, stdout, stderr))"

definition SIGNAL_SCRIPT :: string where
  "SIGNAL_SCRIPT =
     ''import json,os,signal,time;seen=[];signal.signal(signal.SIGUSR1,lambda *_:seen.append('' @ [CHR 0x27] @
     ''SIGUSR1'' @ [CHR 0x27] @ ''));os.kill(os.getpid(),signal.SIGUSR1);time.sleep(.001);print(json.dumps(seen))''"

definition signal_probe :: "(string \<Rightarrow> pv result) \<Rightarrow> platform \<Rightarrow> (probe, unit) eff" where
  "signal_probe loads pf =
     ebind (run_command pf True [''python'', ''-c'', SIGNAL_SCRIPT]) (\<lambda>(code, stdout, stderr).
     ebind (elift (loads stdout)) (\<lambda>v. observe [(''signals'', v)]))"

definition clock_probe :: "(probe, unit) eff" where
  "clock_probe =
     ebind (call read_clock) (\<lambda>a. ebind (call read_clock) (\<lambda>b.
       observe [(''monotonic'', PBool (b \<ge> a)), (''elapsed_positive'', PBool (b - a > 0))]))"

definition SHELL_COMMAND :: "string list" where
  "SHELL_COMMAND =
     [''/bin/sh'', ''-c'', ''printf '' @ [CHR 0x27] @ ''z'' @ [CHR 0x0A] @ ''a'' @ [CHR 0x0A] @ [CHR 0x27] @ '' | sort | head -n1'']"

definition shell_probe :: "platform \<Rightarrow> (probe, unit) eff" where
  "shell_probe pf =
     ebind (run_command pf False SHELL_COMMAND) (\<lambda>(code, stdout, stderr).
       eseq (answer [(''stdout'', PStr stdout), (''stderr'', PStr stderr), (''return'', PInt code)])
         (observe [(''output'', PStr (strip_text stdout))]))"

definition package_probe :: "platform \<Rightarrow> (probe, unit) eff" where
  "package_probe pf =
     (case pf_command pf [''dpkg-query'', ''-W'', ''base-files''] of
        None \<Rightarrow> observe [(''dpkg_available'', PBool False), (''query_ok'', PBool False)]
      | Some (code, _) \<Rightarrow>
          eseq (call syscall_ok) (observe [(''dpkg_available'', PBool True), (''query_ok'', PBool (code = 0))]))"

definition host_text :: "platform \<Rightarrow> string \<Rightarrow> (probe, string) eff" where
  "host_text pf path =
     eseq (call syscall_ok) (case pf_host_file pf path of None \<Rightarrow> eraise (FileNotFoundError path) | Some s \<Rightarrow> eret s)"

definition present :: "platform \<Rightarrow> string \<Rightarrow> pv" where
  "present pf path = PBool (pf_host_file pf path \<noteq> None)"

definition SQLITE_SESSION :: "string list" where
  "SQLITE_SESSION = [''create table t(x)'', ''insert into t values (1)'', ''select x from t'']"

section \<open>The execution of a case\<close>

definition text_result :: "string option \<Rightarrow> pv" where
  "text_result t = PStr (case t of Some s \<Rightarrow> s | None \<Rightarrow> [])"

definition cpu_count :: "platform \<Rightarrow> pv" where
  "cpu_count pf = (case pf_cpus pf of Some n \<Rightarrow> PInt n | None \<Rightarrow> PNone)"

text \<open>The chain of prefixes in the order of the code; the first that fits decides.\<close>

definition run_probe ::
  "(string \<Rightarrow> string) \<Rightarrow> (string \<Rightarrow> pv result) \<Rightarrow> platform \<Rightarrow> pv \<Rightarrow> string \<Rightarrow> (probe, unit) eff" where
  "run_probe sha loads pf c cid =
     (if starts_any cid [''fs.file'', ''fs.path'', ''fs.directory''] then file_probe sha pf c cid
      else if starts_any cid [''fd.''] then descriptor_probe
      else if starts_any cid [''process.''] then process_probe pf
      else if starts_any cid [''pipe.'', ''poll.pipe''] then pipe_probe
      else if starts_any cid [''memory.''] then memory_probe pf
      else if starts_any cid [''socket.'', ''network.loopback'', ''poll.socket''] then socket_probe pf
      else if starts_any cid [''thread.'', ''sync.''] then thread_probe pf
      else if starts_any cid [''signal.''] then signal_probe loads pf
      else if starts_any cid [''time.''] \<or> cid = ''machine.clock.monotonic'' then clock_probe
      else if starts_any cid [''identity.'', ''permission.''] then
        observe [(''uid'', PInt (pf_uid pf)), (''gid'', PInt (pf_gid pf)),
                 (''groups'', PList (map PInt (sort (pf_groups pf)))), (''umask_roundtrip'', PBool True)]
      else if starts_any cid [''distro.''] then
        observe [(''os_release'', text_result (pf_host_file pf ''/etc/os-release'')),
                 (''hostname'', PStr (pf_hostname pf)), (''timezone'', PStr (pf_timezone pf))]
      else if starts_any cid [''procfs.''] then
        ebind (host_text pf ''/proc/self/status'') (\<lambda>t.
          observe [(''proc_exists'', present pf ''/proc''), (''self_status'', PStr (take 128 t))])
      else if starts_any cid [''sysfs.'', ''devfs.''] then
        observe [(''sys_exists'', present pf ''/sys''), (''dev_exists'', present pf ''/dev''),
                 (''null_exists'', present pf ''/dev/null'')]
      else if starts_any cid [''shell.'', ''posix.utility''] then shell_probe pf
      else if starts_any cid [''workload.sqlite''] then
        ebind (elift (pf_sqlite pf SQLITE_SESSION)) (\<lambda>v. observe [(''value'', v)])
      else if starts_any cid [''workload.''] then
        observe [(''workload'', PStr cid), (''completed'', PBool True), (''python'', PStr (pf_python pf))]
      else if starts_any cid [''package.''] then package_probe pf
      else if starts_any cid [''machine.''] then
        observe [(''machine'', PStr (pf_machine pf)), (''cpu_count'', cpu_count pf),
                 (''page_size'', PInt (pf_page_size pf)), (''kernel'', PStr (pf_kernel pf))]
      else if starts_any cid [''elf.''] then
        observe [(''executable'', PBool True), (''argv_count'', int_pv (pf_argv pf)), (''platform'', PStr (pf_machine pf))]
      else if starts_any cid [''security.''] then
        observe [(''uid'', PInt (pf_uid pf)), (''isolated'', PBool True), (''failure_contained'', PBool True)]
      else ebind (elift (token_of c)) (\<lambda>t.
        observe [(''contract'', PStr cid), (''supported'', PBool True), (''token'', t)]))"

text \<open>\<open>_base(case)\<close>.\<close>

definition base_observation :: "pv \<Rightarrow> (string \<times> pv) list result" where
  "base_observation c =
     rbind (py_item c ''contract'') (\<lambda>contract. rbind (py_item c ''case_id'') (\<lambda>i. rbind (py_item c ''seed'') (\<lambda>seed.
       Inr [(''status'', PStr ''ok''), (''contract'', contract), (''case_id'', i), (''seed'', seed),
            (''phase'', PStr ''execute''), (''return'', PInt 0), (''errno'', PInt 0), (''stdout'', PStr []),
            (''stderr'', PStr []), (''observations'', PDict []), (''resources'', PDict [])])))"

definition EIO :: int where
  "EIO = 5"

definition error_fields :: "(exn \<Rightarrow> pv option) \<Rightarrow> exn \<Rightarrow> (string \<times> pv) list" where
  "error_fields errno_of e =
     [(''status'', PStr ''error''), (''return'', PInt (- 1)),
      (''errno'', case errno_of e of Some n \<Rightarrow> n | None \<Rightarrow> PInt EIO),
      (''stderr'', PStr (exn_name e @ '': '' @ exn_message e))]"

definition in_temp :: "(probe, unit) eff \<Rightarrow> (probe, unit) eff" where
  "in_temp m = eseq (call make_temp) (efinally m (call remove_temp))"

text \<open>The answer when the probe has ended: \<open>failing\<close> are the fields that its exception sets.\<close>

definition closing :: "(exn \<Rightarrow> (string \<times> pv) list) \<Rightarrow> unit result \<times> probe \<Rightarrow> (string, pv) dict" where
  "closing failing rp =
     AList.update ''observations'' (PDict (pb_obs (snd rp)))
       (case fst rp of Inr _ \<Rightarrow> pb_out (snd rp) | Inl e \<Rightarrow> merge_fields (pb_out (snd rp)) (failing e))"

definition finished :: "(exn \<Rightarrow> pv option) \<Rightarrow> unit result \<times> probe \<Rightarrow> (string, pv) dict" where
  "finished errno_of = closing (error_fields errno_of)"

definition contract_probe ::
  "(string \<Rightarrow> string) \<Rightarrow> (string \<Rightarrow> pv result) \<Rightarrow> platform \<Rightarrow> pv \<Rightarrow> pv \<Rightarrow> (probe, unit) eff" where
  "contract_probe sha loads pf c contract =
     (case contract of
        PStr cid \<Rightarrow> run_probe sha loads pf c cid
      | _ \<Rightarrow> eraise (AttributeError ''object has no attribute startswith''))"

definition execute_case ::
  "(string \<Rightarrow> string) \<Rightarrow> (string \<Rightarrow> pv result) \<Rightarrow> (exn \<Rightarrow> pv option) \<Rightarrow> platform \<Rightarrow> pv \<Rightarrow> (os, pv) eff" where
  "execute_case sha loads errno_of pf c =
     ebind read_clock (\<lambda>start. ebind (elift (base_observation c)) (\<lambda>out.
       (\<lambda>s. let rp = in_temp (contract_probe sha loads pf c (the (map_of out ''contract'')))
                       \<lparr>pb_os = s, pb_obs = [], pb_out = out\<rparr>
             in ebind read_clock (\<lambda>fin.
                  eret (PDict (AList.update ''duration_ns'' (PInt (fin - start)) (finished errno_of rp)))) (pb_os (snd rp)))))"

section \<open>The worker\<close>

text \<open>\<open>probe_worker.main\<close>: an answer for every line of its input.\<close>

definition worker_error :: "exn \<Rightarrow> pv" where
  "worker_error e = PDict [(''status'', PStr ''error''), (''stderr'', PStr (exn_name e @ '': '' @ exn_message e))]"

fun worker_main ::
  "(string \<Rightarrow> string) \<Rightarrow> (string \<Rightarrow> pv result) \<Rightarrow> (exn \<Rightarrow> pv option) \<Rightarrow> platform \<Rightarrow> string list \<Rightarrow> os \<Rightarrow>
     pv list \<times> os" where
  "worker_main sha loads errno_of pf [] s = ([], s)"
| "worker_main sha loads errno_of pf (line # rest) s =
     (case ebind (elift (loads line)) (execute_case sha loads errno_of pf) s of (r, t) \<Rightarrow>
        (case worker_main sha loads errno_of pf rest t of (answers, u) \<Rightarrow>
           ((case r of Inr v \<Rightarrow> v | Inl e \<Rightarrow> worker_error e) # answers, u)))"

end
