(* ===== verification/ProbeFacts.thy ===== *)
theory ProbeFacts
  imports Probes Observations
begin

text \<open>
  Facts about the probes: a probe always answers, its answer carries the identity of the case, and
  the file, pipe, memory and thread probes observe the same on every host.
\<close>

section \<open>What a probe leaves of the answer\<close>

definition KEPT :: "string set" where
  "KEPT = {''status'', ''contract'', ''case_id'', ''seed''}"

text \<open>
  What a computation may do to the answer, as a relation between the answer before and after it; a
  relation that is reflexive and transitive is respected by a probe when its single answers respect it.
\<close>

definition relates :: "((string, pv) dict \<Rightarrow> (string, pv) dict \<Rightarrow> bool) \<Rightarrow> (probe, 'a) eff \<Rightarrow> bool" where
  "relates R m \<longleftrightarrow> (\<forall>p r q. m p = (r, q) \<longrightarrow> R (pb_out p) (pb_out q))"

named_theorems relates_intros

lemmas probe_defs =
  file_probe_def file_basics_def hardlink_part_def symlink_part_def rename_part_def unlink_open_part_def truncate_part_def
  descriptor_probe_def process_probe_def pipe_probe_def memory_probe_def socket_probe_def thread_probe_def
  signal_probe_def clock_probe_def shell_probe_def package_probe_def host_text_def run_command_def

lemma relates_answer: "(\<And>d. R d (merge_fields d kvs)) \<Longrightarrow> relates R (answer kvs)"
  by (simp add: relates_def answer_def)

locale answer_relation =
  fixes R :: "(string, pv) dict \<Rightarrow> (string, pv) dict \<Rightarrow> bool"
  assumes refl: "R d d" and trans: "R d e \<Longrightarrow> R e f \<Longrightarrow> R d f"
begin

lemma relates_bind [relates_intros]: "relates R m \<Longrightarrow> (\<And>x. relates R (f x)) \<Longrightarrow> relates R (ebind m f)"
  unfolding relates_def by (fastforce simp: ebind_eq split: prod.splits sum.splits intro: trans)

lemma relates_seq [relates_intros]: "relates R m \<Longrightarrow> relates R n \<Longrightarrow> relates R (eseq m n)"
  unfolding eseq_def by (rule relates_bind)

lemma relates_simple [relates_intros]:
  "relates R (call f)" "relates R (observe kvs)" "relates R (eret x)" "relates R (eraise e)" "relates R (elift r)"
  by (auto simp: relates_def call_def observe_def refl split: prod.splits)

lemma relates_when [relates_intros]: "relates R m \<Longrightarrow> relates R (ewhen b m)"
  by (simp add: ewhen_def relates_simple)

lemma relates_finally [relates_intros]: "relates R m \<Longrightarrow> relates R c \<Longrightarrow> relates R (efinally m c)"
  unfolding relates_def by (fastforce simp: efinally_def split: prod.splits sum.splits intro: trans)

lemma relates_if [relates_intros]: "relates R m \<Longrightarrow> relates R n \<Longrightarrow> relates R (if b then m else n)"
  by simp

lemma relates_option [relates_intros]:
  "relates R m \<Longrightarrow> (\<And>x. relates R (f x)) \<Longrightarrow> relates R (case v of None \<Rightarrow> m | Some x \<Rightarrow> f x)"
  by (cases v) simp_all

lemma relates_pair [relates_intros]: "(\<And>x y. relates R (f x y)) \<Longrightarrow> relates R (case v of (x, y) \<Rightarrow> f x y)"
  by (cases v) simp

lemma relates_temp: "relates R m \<Longrightarrow> relates R (in_temp m)"
  unfolding in_temp_def by (intro relates_intros)

lemma relates_probe:
  assumes "\<And>d out err code. R d (merge_fields d [(''stdout'', out), (''stderr'', err), (''return'', code)])"
  shows "relates R (in_temp (contract_probe sha loads pf c v))"
proof -
  have "relates R (run_probe sha loads pf c cid)" for cid
    unfolding run_probe_def probe_defs by (intro relates_intros relates_answer assms)
  then show ?thesis unfolding contract_probe_def
    by (intro relates_temp) (cases v; simp add: relates_simple)
qed

end

definition agree_on :: "string set \<Rightarrow> (string, pv) dict \<Rightarrow> (string, pv) dict \<Rightarrow> bool" where
  "agree_on K d e \<longleftrightarrow> (\<forall>k\<in>K. map_of e k = map_of d k)"

interpretation kept: answer_relation "agree_on K" for K
  by unfold_locales (auto simp: agree_on_def)

lemma agree_on_in_temp: "relates (agree_on KEPT) (in_temp (contract_probe sha loads pf c v))"
  by (rule kept.relates_probe) (auto simp: agree_on_def KEPT_def intro!: map_of_merge_fields)

lemma finished_keys:
  assumes "k \<noteq> ''observations''"
  shows "map_of (finished errno_of rp) k =
    (case fst rp of Inr _ \<Rightarrow> map_of (pb_out (snd rp)) k
     | Inl e \<Rightarrow> (case map_of (error_fields errno_of e) k of Some v \<Rightarrow> Some v | None \<Rightarrow> map_of (pb_out (snd rp)) k))"
  using assms by (auto simp: finished_def closing_def map_of_update merge_fields_def error_fields_def split: sum.splits)

lemma read_clock_Inr:
  obtains t s' where "read_clock s = (Inr t, s')"
  using that by (fastforce simp: read_clock_def split: list.splits)

text \<open>
  A probe always answers. For every case with a Contract, an id and a seed, whatever the
  operating system refuses and whatever else of the case is malformed, the execution raises nothing:
  the answer carries the three fields of the case, and its status is ok, or error with the return
  value -1 and the exception in \<open>stderr\<close>.
\<close>

theorem probe_always_answers:
  assumes "base_observation c = Inr out"
  shows "\<exists>obs t. execute_case sha loads errno_of pf c s = (Inr obs, t) \<and>
     (\<forall>k\<in>{''contract'', ''case_id'', ''seed''}. Inr (the (pget obs k)) = py_item c k) \<and>
     (pget obs ''status'' = Some (PStr ''ok'') \<or>
      pget obs ''status'' = Some (PStr ''error'') \<and> pget obs ''return'' = Some (PInt (- 1)) \<and>
        (\<exists>e. pget obs ''stderr'' = Some (PStr (exn_name e @ '': '' @ exn_message e))))"
proof -
  obtain start s1 where rc: "read_clock s = (Inr start, s1)" by (rule read_clock_Inr)
  let ?m = "in_temp (contract_probe sha loads pf c (the (map_of out ''contract'')))"
  obtain r q where rq: "?m \<lparr>pb_os = s1, pb_obs = [], pb_out = out\<rparr> = (r, q)" by fastforce
  obtain fin s2 where rf: "read_clock (pb_os q) = (Inr fin, s2)" by (rule read_clock_Inr)
  let ?d = "AList.update ''duration_ns'' (PInt (fin - start)) (finished errno_of (r, q))"
  have run: "execute_case sha loads errno_of pf c s = (Inr (PDict ?d), s2)"
    using rc rq rf assms by (simp add: execute_case_def ebind_eq Let_def)
  have kept: "map_of (pb_out q) k = map_of out k" if "k \<in> KEPT" for k
    using agree_on_in_temp rq that unfolding relates_def agree_on_def by fastforce
  have out: "map_of out ''status'' = Some (PStr ''ok'')"
    "\<forall>k\<in>{''contract'', ''case_id'', ''seed''}. \<exists>v. py_item c k = Inr v \<and> map_of out k = Some v"
    using assms by (auto simp: base_observation_def result_simps)
  show ?thesis
  proof (intro exI conjI, rule run)
    show "\<forall>k\<in>{''contract'', ''case_id'', ''seed''}. Inr (the (pget (PDict ?d) k)) = py_item c k"
    proof
      fix k assume k: "k \<in> {''contract'', ''case_id'', ''seed''}"
      then have "map_of ?d k = map_of (pb_out q) k"
        using finished_keys [of k errno_of "(r, q)"] by (cases r) (auto simp: map_of_update error_fields_def)
      with out(2) k kept [of k] show "Inr (the (pget (PDict ?d) k)) = py_item c k"
        by (auto simp: pget_def KEPT_def)
    qed
    show "pget (PDict ?d) ''status'' = Some (PStr ''ok'') \<or>
      pget (PDict ?d) ''status'' = Some (PStr ''error'') \<and> pget (PDict ?d) ''return'' = Some (PInt (- 1)) \<and>
        (\<exists>e. pget (PDict ?d) ''stderr'' = Some (PStr (exn_name e @ '': '' @ exn_message e)))"
      using out(1) kept [of "''status''"] finished_keys [of _ errno_of "(r, q)"]
      by (cases r) (auto simp: pget_def map_of_update error_fields_def KEPT_def)
  qed
qed


section \<open>Probes whose observations do not depend on the host\<close>

text \<open>
  \<open>yields P m kvs Q\<close>: from a state that satisfies \<open>P\<close>, \<open>m\<close> returns, adds the observations \<open>kvs\<close> and
  leaves a state that satisfies \<open>Q\<close>.
\<close>

definition yields :: "(os \<Rightarrow> bool) \<Rightarrow> (probe, unit) eff \<Rightarrow> (string \<times> pv) list \<Rightarrow> (os \<Rightarrow> bool) \<Rightarrow> bool" where
  "yields P m kvs Q \<longleftrightarrow>
     (\<forall>p. P (pb_os p) \<longrightarrow>
       (\<exists>q. m p = (Inr (), q) \<and> pb_out q = pb_out p \<and> pb_obs q = merge_fields (pb_obs p) kvs \<and> Q (pb_os q)))"

lemma merge_fields_append: "merge_fields (merge_fields d a) b = merge_fields d (a @ b)"
  by (simp add: merge_fields_def)

lemma yields_seq: "yields P m a Q \<Longrightarrow> yields Q n b R \<Longrightarrow> yields P (eseq m n) (a @ b) R"
  unfolding yields_def by (fastforce simp: eseq_eq merge_fields_append [symmetric])

lemma yields_when: "(b \<Longrightarrow> yields P m kvs Q) \<Longrightarrow> (\<And>s. P s \<Longrightarrow> Q s) \<Longrightarrow> yields P (ewhen b m) (if b then kvs else []) Q"
  by (auto simp: yields_def ewhen_def merge_fields_def)

definition granting :: "os \<Rightarrow> bool" where
  "granting s \<longleftrightarrow> os_script s = []"

lemma sys_granting [simp]: "os_script s = [] \<Longrightarrow> sys f s = f s"
  by (simp add: sys_def)

lemma call_eq: "call f p = (fst (f (pb_os p)), p\<lparr>pb_os := snd (f (pb_os p))\<rparr>)"
  by (simp add: call_def split: prod.split)

lemmas run_simps = yields_def granting_def ebind_eq eseq_eq call_eq observe_def

lemma pipe_yields: "yields granting pipe_probe [(''data'', PStr ''ok''), (''eof'', PBool True)] granting"
  by (simp add: run_simps pipe_probe_def make_pipe_def new_fd_def write_pipe_def close_writer_def close_fd_def
      read_pipe_def)

lemma memory_yields:
  "yields granting (memory_probe pf)
     [(''mapped'', PBool True), (''value'', PStr ''test''), (''page_size'', PInt (pf_page_size pf))] granting"
  by (simp add: run_simps memory_probe_def map_page_def poke_def peek_def)


lemma thread_yields:
  "yields granting (thread_probe pf) [(''threads'', PInt 2), (''counter'', PInt 200)] granting"
  using counter_report_exact [of 2 100 "pf_schedule pf"] by (simp add: run_simps thread_probe_def int_pv_def)

subsection \<open>The file probe\<close>

definition fresh_temp :: "os \<Rightarrow> bool" where
  "fresh_temp s \<longleftrightarrow> granting s \<and> os_dir s = Some []"

definition only_file :: "string \<Rightarrow> os \<Rightarrow> bool" where
  "only_file d s \<longleftrightarrow>
     granting s \<and> (\<exists>i. entries s = [(''file'', Inode i)] \<and> map_of (os_data s) i = Some d)"

definition has_file :: "bool \<Rightarrow> string \<Rightarrow> os \<Rightarrow> bool" where
  "has_file no_sym d s \<longleftrightarrow>
     granting s \<and> (\<exists>i. map_of (entries s) ''file'' = Some (Inode i) \<and> map_of (os_data s) i = Some d) \<and>
     (no_sym \<longrightarrow> map_of (entries s) ''sym'' = None)"

lemma entries_set [simp]: "entries (set_entries d s) = d"
  by (simp add: entries_def set_entries_def)

lemma set_entries_keeps [simp]:
  "os_script (set_entries d s) = os_script s" "os_data (set_entries d s) = os_data s"
  "os_fds (set_entries d s) = os_fds s"
  by (simp_all add: set_entries_def)

lemma entries_update [simp]:
  "entries (s\<lparr>os_data := x\<rparr>) = entries s" "entries (s\<lparr>os_fds := y\<rparr>) = entries s"
  by (simp_all add: entries_def)

lemmas file_simps = run_simps file_exists_def on_inode_def read_file_def stat_file_def inode_of_def contents_def

lemma hardlink_yields:
  "yields (only_file d) (hardlink_part cid)
     (if sublist ''hardlink'' cid then [(''same_inode'', PBool True), (''links'', PInt 2)] else []) (has_file True d)"
  unfolding hardlink_part_def
  by (rule yields_when)
     (auto simp: file_simps only_file_def has_file_def link_file_def links_to_def int_pv_def)

lemma symlink_yields:
  "yields (has_file True d) (symlink_part cid)
     (if sublist ''symlink'' cid then [(''target'', PStr ''file'')] else []) (has_file False d)"
  unfolding symlink_part_def
  by (rule yields_when)
     (auto simp: file_simps has_file_def symlink_file_def read_link_def map_of_update)

lemma yields_skip: "\<not> b \<Longrightarrow> (\<And>s. P s \<Longrightarrow> Q s) \<Longrightarrow> yields P (ewhen b m) [] Q"
  by (auto simp: yields_def ewhen_def merge_fields_def)

lemma yields_do: "b \<Longrightarrow> yields P m kvs Q \<Longrightarrow> yields P (ewhen b m) kvs Q"
  by (simp add: ewhen_def)

lemma rename_yields:
  "sublist ''rename'' cid \<Longrightarrow>
   yields (has_file False d) (rename_part cid) [(''old_exists'', PBool False), (''new_exists'', PBool True)] granting"
  unfolding rename_part_def
  by (rule yields_do) (auto simp: file_simps has_file_def rename_file_def map_of_update delete_conv')

lemma low_bits: "(128 + m mod 64) mod 64 = m mod 64" "(128 + m mod 64) div 64 = 2" for m :: nat
proof -
  have "m mod 64 < 64" by simp
  then obtain r where r: "m mod 64 = r" "r < 64" by blast
  show "(128 + m mod 64) mod 64 = m mod 64" unfolding r(1) using r(2) by (simp add: mod_if)
  show "(128 + m mod 64) div 64 = 2" unfolding r(1) using r(2) by (simp add: div_if)
qed

lemma decode_encode: "decode_utf8 (utf8 t) = Inr t"
proof (induction t)
  case Nil
  then show ?case by (simp add: utf8_def)
next
  case (Cons c t)
  let ?n = "of_char c :: nat"
  have step: "utf8 (c # t) = (if ?n < 128 then [c] else [char_of (192 + ?n div 64), char_of (128 + ?n mod 64)]) @ utf8 t"
    by (simp add: utf8_def)
  show ?case
  proof (cases "?n < 128")
    case True
    then show ?thesis unfolding step using Cons by simp
  next
    case False
    have n: "?n < 256" by simp
    have "m div 64 \<in> {2, 3}" if "m < 256" "\<not> m < 128" for m :: nat
      using that div_le_mono [of 128 m 64] less_mult_imp_div_less [of m 4 64] by auto
    from this [OF n False] have q: "?n div 64 \<in> {2, 3}" .
    have a: "of_char (char_of (192 + ?n div 64)) = (192 + ?n div 64 :: nat)" using q by auto
    have b: "of_char (char_of (128 + ?n mod 64)) = (128 + ?n mod 64 :: nat)" by simp
    note low = low_bits [of ?n]
    have "char_of ((of_char (char_of (192 + ?n div 64)) - 192) * 64 + of_char (char_of (128 + ?n mod 64)) mod 64 :: nat) = c"
      unfolding a b low by simp
    then show ?thesis unfolding step using Cons False q low by (auto simp: a b)
  qed
qed

lemma unlink_open_yields:
  "sublist ''unlink_open'' cid \<Longrightarrow>
   yields (has_file False (utf8 t)) (unlink_open_part cid) [(''path_exists'', PBool False), (''open_read'', PStr t)] granting"
  unfolding unlink_open_part_def
  by (rule yields_do)
     (auto simp: file_simps has_file_def open_file_def unlink_entry_def read_handle_def close_fd_def delete_conv' decode_encode)

lemma truncate_yields:
  "sublist ''truncate'' cid \<Longrightarrow>
   yields (has_file False d) (truncate_part cid) [(''size_after'', PInt 1)] granting"
  unfolding truncate_part_def
  by (rule yields_do) (auto simp: file_simps has_file_def truncate_file_def map_of_update int_pv_def min_def)


text \<open>
  The words of the id that take the file away, or change its size, exclude each other in the
  corpus. An id with two of them would fail: a renamed file is not found by its old name.
\<close>

definition one_word :: "string \<Rightarrow> bool" where
  "one_word cid \<longleftrightarrow>
     \<not> (sublist ''rename'' cid \<and> sublist ''unlink_open'' cid) \<and>
     \<not> (sublist ''rename'' cid \<and> sublist ''truncate'' cid) \<and>
     \<not> (sublist ''unlink_open'' cid \<and> sublist ''truncate'' cid)"

definition word_facts :: "string \<Rightarrow> string \<Rightarrow> (string \<times> pv) list" where
  "word_facts text cid =
     (if sublist ''rename'' cid then [(''old_exists'', PBool False), (''new_exists'', PBool True)] else []) @
     (if sublist ''unlink_open'' cid then [(''path_exists'', PBool False), (''open_read'', PStr text)] else []) @
     (if sublist ''truncate'' cid then [(''size_after'', PInt 1)] else [])"

lemma words_yield:
  assumes "one_word cid"
  shows "yields (has_file False (utf8 t))
    (eseq (rename_part cid) (eseq (unlink_open_part cid) (truncate_part cid))) (word_facts t cid) granting"
proof -
  have g: "has_file no_sym d s \<Longrightarrow> granting s" for no_sym d s by (simp add: has_file_def)
  let ?P = "has_file False (utf8 t)"
  have r: "\<not> sublist ''rename'' cid \<Longrightarrow> yields P (rename_part cid) [] P"
    and u: "\<not> sublist ''unlink_open'' cid \<Longrightarrow> yields P (unlink_open_part cid) [] P"
    and c: "\<not> sublist ''truncate'' cid \<Longrightarrow> yields P (truncate_part cid) [] P"
    and c': "\<not> sublist ''truncate'' cid \<Longrightarrow> yields ?P (truncate_part cid) [] granting" for P
    unfolding rename_part_def unlink_open_part_def truncate_part_def by (rule yields_skip; simp add: g)+
  show ?thesis
  proof (cases "sublist ''rename'' cid")
    case True
    with assms have n: "\<not> sublist ''unlink_open'' cid" "\<not> sublist ''truncate'' cid" by (auto simp: one_word_def)
    from yields_seq [OF rename_yields [OF True] yields_seq [OF u [OF n(1)] c [OF n(2)]]] True n
    show ?thesis by (simp add: word_facts_def)
  next
    case F: False
    show ?thesis
    proof (cases "sublist ''unlink_open'' cid")
      case True
      with assms have n: "\<not> sublist ''truncate'' cid" by (auto simp: one_word_def)
      from yields_seq [OF r [OF F] yields_seq [OF unlink_open_yields [OF True] c [OF n]]] F True n
      show ?thesis by (simp add: word_facts_def)
    next
      case False
      have "yields ?P (truncate_part cid) (if sublist ''truncate'' cid then [(''size_after'', PInt 1)] else []) granting"
        using truncate_yields c' by simp
      from yields_seq [OF r [OF F] yields_seq [OF u [OF False] this]] F False
      show ?thesis by (simp add: word_facts_def)
    qed
  qed
qed

definition file_facts :: "(string \<Rightarrow> string) \<Rightarrow> platform \<Rightarrow> string \<Rightarrow> string \<Rightarrow> (string \<times> pv) list" where
  "file_facts sha pf text cid =
     [(''exists'', PBool True), (''size'', int_pv (length (utf8 text))), (''content_sha256'', PStr (sha (utf8 text))),
      (''mode'', PStr (''0o'' @ octal (pf_file_mode pf)))] @
     (if sublist ''hardlink'' cid then [(''same_inode'', PBool True), (''links'', PInt 2)] else []) @
     (if sublist ''symlink'' cid then [(''target'', PStr ''file'')] else []) @
     word_facts text cid"

lemma write_first:
  assumes "fresh_temp s"
  shows "\<exists>t. write_file ''file'' d s = (Inr (), t) \<and> only_file d t"
proof -
  from assms have "os_script s = []" "entries s = []"
    by (simp_all add: fresh_temp_def granting_def entries_def)
  then show ?thesis
    by (simp add: write_file_def inode_of_def only_file_def granting_def map_of_update Let_def)
qed

lemma basics_yield:
  assumes "token_of c = Inr (PStr t)"
  shows "yields fresh_temp (file_basics sha pf c)
    [(''exists'', PBool True), (''size'', int_pv (length (utf8 (t @ t @ t)))), (''content_sha256'', PStr (sha (utf8 (t @ t @ t)))),
     (''mode'', PStr (''0o'' @ octal (pf_file_mode pf)))] (only_file (utf8 (t @ t @ t)))"
  unfolding yields_def
proof (intro allI impI)
  fix p :: probe assume "fresh_temp (pb_os p)"
  from write_first [OF this] obtain s where w: "write_file ''file'' (utf8 (t @ t @ t)) (pb_os p) = (Inr (), s)"
    and s: "only_file (utf8 (t @ t @ t)) s" by blast
  then obtain i where i: "entries s = [(''file'', Inode i)]" "map_of (os_data s) i = Some (utf8 (t @ t @ t))" "os_script s = []"
    by (auto simp: only_file_def granting_def)
  let ?facts = "[(''exists'', PBool True), (''size'', int_pv (length (utf8 (t @ t @ t)))),
        (''content_sha256'', PStr (sha (utf8 (t @ t @ t)))), (''mode'', PStr (''0o'' @ octal (pf_file_mode pf)))]"
  let ?a = "\<lparr>st_size = length (utf8 (t @ t @ t)), st_ino = i, st_nlink = links_to i s\<rparr>"
  have "file_exists ''file'' s = (Inr True, s)" "read_file ''file'' s = (Inr (utf8 (t @ t @ t)), s)"
    "stat_file ''file'' s = (Inr ?a, s)"
    using i by (simp_all add: file_exists_def read_file_def stat_file_def on_inode_def inode_of_def contents_def)
  then have "file_basics sha pf c p = (Inr (), p\<lparr>pb_os := s, pb_obs := merge_fields (pb_obs p) ?facts\<rparr>)"
    using w assms by (simp add: file_basics_def ebind_eq eseq_eq call_eq observe_def)
  with s show "\<exists>q. file_basics sha pf c p = (Inr (), q) \<and> pb_out q = pb_out p \<and>
      pb_obs q = merge_fields (pb_obs p) ?facts \<and> only_file (utf8 (t @ t @ t)) (pb_os q)"
    by (intro exI conjI) (assumption | simp)+
qed

lemma file_yields:
  assumes "one_word cid" and "token_of c = Inr (PStr t)"
  shows "yields fresh_temp (file_probe sha pf c cid) (file_facts sha pf (t @ t @ t) cid) granting"
proof -
  let ?d = "utf8 (t @ t @ t)"
  let ?facts = "[(''exists'', PBool True), (''size'', int_pv (length ?d)), (''content_sha256'', PStr (sha ?d)),
      (''mode'', PStr (''0o'' @ octal (pf_file_mode pf)))]"
  let ?rest = "eseq (hardlink_part cid) (eseq (symlink_part cid)
      (eseq (rename_part cid) (eseq (unlink_open_part cid) (truncate_part cid))))"
  have rest: "yields (only_file ?d) ?rest (drop 4 (file_facts sha pf (t @ t @ t) cid)) granting"
    using yields_seq [OF hardlink_yields yields_seq [OF symlink_yields words_yield [OF assms(1)]]]
    by (simp add: file_facts_def)
  from yields_seq [OF basics_yield [OF assms(2)] rest]
  show ?thesis by (simp add: file_probe_def file_facts_def)
qed


subsection \<open>What every host observes\<close>

text \<open>
  The observations of the families that do not depend on the host, as a function of the case; only
  the mode of a created file and the page size are taken from the platform.
\<close>

definition steady_facts :: "(string \<Rightarrow> string) \<Rightarrow> platform \<Rightarrow> pv \<Rightarrow> string \<Rightarrow> (string \<times> pv) list option" where
  "steady_facts sha pf c cid =
     (if starts_any cid [''fs.file'', ''fs.path'', ''fs.directory''] then
        (case token_of c of
           Inr (PStr t) \<Rightarrow> if one_word cid then Some (file_facts sha pf (t @ t @ t) cid) else None
         | _ \<Rightarrow> None)
      else if starts_any cid [''pipe.'', ''poll.pipe''] then Some [(''data'', PStr ''ok''), (''eof'', PBool True)]
      else if starts_any cid [''memory.''] then
        Some [(''mapped'', PBool True), (''value'', PStr ''test''), (''page_size'', PInt (pf_page_size pf))]
      else if starts_any cid [''thread.'', ''sync.''] then Some [(''threads'', PInt 2), (''counter'', PInt 200)]
      else None)"

lemma yields_weaken: "yields P m kvs Q \<Longrightarrow> (\<And>s. P' s \<Longrightarrow> P s) \<Longrightarrow> yields P' m kvs Q"
  by (simp add: yields_def)

lemma starts_apart:
  "starts_any cid [''pipe.'', ''poll.pipe''] \<or> starts_any cid [''memory.''] \<or> starts_any cid [''thread.'', ''sync.''] \<Longrightarrow>
   \<not> starts_any cid [''fd.''] \<and> \<not> starts_any cid [''process.'']"
  "starts_any cid [''thread.'', ''sync.''] \<Longrightarrow> \<not> starts_any cid [''socket.'', ''network.loopback'', ''poll.socket'']"
  by (auto simp: starts_any_def prefix_def)

lemma steady_yields:
  assumes "steady_facts sha pf c cid = Some kvs"
  shows "yields fresh_temp (run_probe sha loads pf c cid) kvs granting"
proof -
  have g: "fresh_temp s \<Longrightarrow> granting s" for s by (simp add: fresh_temp_def)
  note yields = pipe_yields [THEN yields_weaken, OF g] memory_yields [THEN yields_weaken, OF g]
    thread_yields [THEN yields_weaken, OF g]
  note apart = starts_apart [of cid]
  show ?thesis
  proof (cases "starts_any cid [''fs.file'', ''fs.path'', ''fs.directory'']")
    case True
    then obtain t where "token_of c = Inr (PStr t)" "one_word cid" "kvs = file_facts sha pf (t @ t @ t) cid"
      using assms by (auto simp: steady_facts_def split: if_splits sum.splits pv.splits)
    with True file_yields show ?thesis by (simp add: run_probe_def)
  next
    case F: False
    show ?thesis
    proof (cases "starts_any cid [''pipe.'', ''poll.pipe'']")
      case True
      have "run_probe sha loads pf c cid = pipe_probe" using F True apart by (simp add: run_probe_def)
      moreover have "kvs = [(''data'', PStr ''ok''), (''eof'', PBool True)]"
        using F True assms by (simp add: steady_facts_def)
      ultimately show ?thesis using yields(1) by simp
    next
      case G: False
      show ?thesis
      proof (cases "starts_any cid [''memory.'']")
        case True
        have "run_probe sha loads pf c cid = memory_probe pf" using F G True apart by (simp add: run_probe_def)
        moreover have "kvs = [(''mapped'', PBool True), (''value'', PStr ''test''), (''page_size'', PInt (pf_page_size pf))]"
          using F G True assms by (simp add: steady_facts_def)
        ultimately show ?thesis using yields(2) by simp
      next
        case H: False
        with F G assms have T: "starts_any cid [''thread.'', ''sync.'']"
          by (simp add: steady_facts_def split: if_splits)
        with F G H assms have "kvs = [(''threads'', PInt 2), (''counter'', PInt 200)]"
          by (simp add: steady_facts_def)
        moreover have "run_probe sha loads pf c cid = thread_probe pf"
          using F G H T apart by (simp add: run_probe_def)
        ultimately show ?thesis using yields(3) by simp
      qed
    qed
  qed
qed

lemma in_temp_yields:
  assumes "yields fresh_temp m kvs granting"
  shows "yields granting (in_temp m) kvs (\<lambda>s. os_dir s = None)"
  unfolding yields_def
proof (intro allI impI)
  fix p :: probe assume "granting (pb_os p)"
  let ?p = "p\<lparr>pb_os := set_entries [] (pb_os p)\<rparr>"
  have "call make_temp p = (Inr (), ?p)" and "fresh_temp (pb_os ?p)"
    using \<open>granting (pb_os p)\<close>
    by (simp_all add: call_eq make_temp_def granting_def fresh_temp_def set_entries_def)
  moreover from this(2) obtain q where q: "m ?p = (Inr (), q)" "pb_out q = pb_out p"
      "pb_obs q = merge_fields (pb_obs p) kvs" "granting (pb_os q)"
    using assms unfolding yields_def by fastforce
  moreover have "call remove_temp q = (Inr (), q\<lparr>pb_os := (pb_os q)\<lparr>os_dir := None\<rparr>\<rparr>)"
    using q(4) by (simp add: call_eq remove_temp_def granting_def)
  ultimately show "\<exists>q. in_temp m p = (Inr (), q) \<and> pb_out q = pb_out p \<and>
      pb_obs q = merge_fields (pb_obs p) kvs \<and> os_dir (pb_os q) = None"
    by (simp add: in_temp_def eseq_eq efinally_def)
qed

lemma read_clock_keeps: "read_clock s = (r, t) \<Longrightarrow> os_script t = os_script s \<and> os_dir t = os_dir s"
  by (auto simp: read_clock_def split: list.splits)

lemma execute_steady:
  assumes "base_observation c = Inr out" and "py_item c ''contract'' = Inr (PStr cid)"
    and "steady_facts sha pf c cid = Some kvs" and "os_script s = []"
  shows "\<exists>d t. execute_case sha loads errno_of pf c s = (Inr (PDict (AList.update ''duration_ns'' (PInt d)
      (AList.update ''observations'' (PDict (merge_fields [] kvs)) out))), t) \<and> os_dir t = None"
proof -
  obtain start s1 where rc: "read_clock s = (Inr start, s1)" by (rule read_clock_Inr)
  with assms(4) have g: "granting s1" using read_clock_keeps [OF rc] by (simp add: granting_def)
  have contract: "map_of out ''contract'' = Some (PStr cid)"
    using assms(1,2) by (auto simp: base_observation_def result_simps)
  note y = in_temp_yields [OF steady_yields [OF assms(3), of loads], unfolded yields_def]
  from y [THEN spec, of "\<lparr>pb_os = s1, pb_obs = [], pb_out = out\<rparr>"] g
  obtain q where q: "in_temp (contract_probe sha loads pf c (PStr cid)) \<lparr>pb_os = s1, pb_obs = [], pb_out = out\<rparr> = (Inr (), q)"
      "pb_out q = out" "pb_obs q = merge_fields [] kvs" "os_dir (pb_os q) = None"
    by (auto simp: contract_probe_def)
  obtain fin s2 where rf: "read_clock (pb_os q) = (Inr fin, s2)" by (rule read_clock_Inr)
  show ?thesis
    using rc rf assms(1) contract q read_clock_keeps [OF rf]
    by (auto simp: execute_case_def ebind_eq Let_def finished_def closing_def)
qed


lemma update_absent: "k \<notin> fst ` set d \<Longrightarrow> AList.update k v d = d @ [(k, v)]"
  by (induction d) auto

lemma merge_fields_distinct:
  "distinct (map fst (base @ extra)) \<Longrightarrow> merge_fields base extra = base @ extra"
proof (induction extra arbitrary: base)
  case (Cons kv extra)
  obtain k v where kv: "kv = (k, v)" by (cases kv)
  from Cons.prems have "k \<notin> fst ` set base" by (auto simp: kv)
  with Cons.IH [of "base @ [(k, v)]"] Cons.prems show ?case
    by (simp add: kv merge_fields_def update_absent)
qed (simp add: merge_fields_def)

lemma steady_facts_distinct:
  assumes "steady_facts sha pf c cid = Some kvs"
  shows "distinct (map fst kvs)" and "list_all (\<lambda>(k, v). wf_pv v) kvs"
proof -
  have "distinct (map fst (file_facts sha pf t cid)) \<and> list_all (\<lambda>(k, v). wf_pv v) (file_facts sha pf t cid)" for t
    by (cases "sublist ''hardlink'' cid"; cases "sublist ''symlink'' cid"; cases "sublist ''rename'' cid";
        cases "sublist ''unlink_open'' cid"; cases "sublist ''truncate'' cid";
        simp add: file_facts_def word_facts_def int_pv_def)
  then show "distinct (map fst kvs)" and "list_all (\<lambda>(k, v). wf_pv v) kvs"
    using assms by (auto simp: steady_facts_def split: if_splits sum.splits pv.splits)
qed

lemma wf_update: "wf_pv (PDict d) \<Longrightarrow> wf_pv v \<Longrightarrow> wf_pv (PDict (AList.update k v d))"
proof (induction d)
  case (Cons x d)
  have "fst ` set (AList.update k v d) = insert k (fst ` set d)" by (simp add: dom_update)
  with Cons show ?case by (cases x) (auto simp: distinct_update)
qed simp

lemma wf_base:
  assumes "base_observation c = Inr out" and "wf_pv c"
  shows "wf_pv (PDict out)"
proof -
  have "wf_pv v" if "py_item c k = Inr v" for k v
    using that assms(2) by (cases c) (auto split: option.splits intro: wf_pv_items)
  then show ?thesis using assms(1) by (auto simp: base_observation_def result_simps)
qed

lemma duration_dropped:
  assumes "''timing'' \<notin> set (c_observables k)" and "''resource_usage'' \<notin> set (c_observables k)"
  shows "normalize_observation fr k (PDict (AList.update ''duration_ns'' a d)) =
    normalize_observation fr k (PDict (AList.update ''duration_ns'' b d))"
proof -
  have "AList.delete ''duration_ns'' (AList.update ''duration_ns'' x d) = AList.delete ''duration_ns'' d" for x :: pv
    by (induction d) auto
  then show ?thesis using assms by (simp add: normalize_observation_def drop_duration_def)
qed



section \<open>Two hosts\<close>

definition demo_platform :: "int \<Rightarrow> platform" where
  "demo_platform pid =
     \<lparr>pf_temp = ''/tmp'', pf_file_mode = 420, pf_pid = pid, pf_ppid = 1, pf_uid = 0, pf_gid = 0, pf_groups = [],
      pf_page_size = 4096, pf_cpus = Some 2, pf_machine = ''x86_64'', pf_kernel = ''6.12'', pf_system = ''Linux'',
      pf_hostname = ''h'', pf_timezone = ''UTC'', pf_python = ''3.13'', pf_argv = 1, pf_has_path = True,
      pf_has_fork = True, pf_host_file = (\<lambda>_. None), pf_command = (\<lambda>_. None), pf_port = 4000, pf_received = 4,
      pf_random = [], pf_schedule = (\<lambda>_. []), pf_sqlite = (\<lambda>_. Inr (PInt 1))\<rparr>"

definition demo_os :: "nat \<Rightarrow> exn option list \<Rightarrow> os" where
  "demo_os fresh script =
     \<lparr>os_script = script, os_dir = None, os_data = [], os_fresh = fresh, os_fds = [0, 1, 2], os_pipe = ([], False),
      os_page = [], os_next_pid = 100, os_clock = [5, 9]\<rparr>"

definition demo_case :: pv where
  "demo_case =
     PDict [(''contract'', PStr ''fs.file.hardlink''), (''case_id'', PStr ''c''), (''seed'', PInt 1),
            (''stimulus'', PDict [(''token'', PStr ''ab'')])]"

theorem probe_always_answers_witness:
  "\<exists>obs t. execute_case (\<lambda>s. s) (\<lambda>_. Inr PNone) (\<lambda>_. None) (demo_platform 7) demo_case
       (demo_os 3 [None, None, Some (OtherError ''OSError'' ''no space'')]) = (Inr obs, t) \<and>
     pget obs ''case_id'' = Some (PStr ''c'') \<and> pget obs ''status'' = Some (PStr ''error'')"
proof -
  let ?run = "execute_case (\<lambda>s. s) (\<lambda>_. Inr PNone) (\<lambda>_. None) (demo_platform 7) demo_case
    (demo_os 3 [None, None, Some (OtherError ''OSError'' ''no space'')])"
  have "\<exists>out. base_observation demo_case = Inr out" by (simp add: base_observation_def demo_case_def)
  then obtain out where "base_observation demo_case = Inr out" by blast
  from probe_always_answers [OF this] obtain obs t where run: "?run = (Inr obs, t)" by blast
  have "case fst ?run of Inr v \<Rightarrow> pget v ''status'' = Some (PStr ''error'') \<and> pget v ''case_id'' = Some (PStr ''c'')
      | Inl e \<Rightarrow> False" by code_simp
  with run show ?thesis by simp
qed


end
