(* ===== verification/Agent.thy ===== *)
theory Agent
  imports ProbeFacts QemuFacts AtomicFiles
begin

text \<open>
  The guest agent \<open>src/reference/guest/osbench_agent.py\<close>, which answers the cases that \<open>qemu.py\<close>
  sends over the serial line, and the two ends of that line together. The operating system is that
  of \<open>Posix\<close>. \<open>read_case\<close> decodes the base64 text of a request line, its newline included, to the
  case; \<open>write_answer\<close> is the base64 form of the JSON text of an answer.
\<close>

section \<open>The execution of a case\<close>

text \<open>Reading in text mode turns every line ending into a newline.\<close>

fun universal_newlines :: "string \<Rightarrow> string" where
  "universal_newlines [] = []"
| "universal_newlines [c] = [if c = CHR 0x0D then CHR 0x0A else c]"
| "universal_newlines (c # d # s) =
     (if c = CHR 0x0D \<and> d = CHR 0x0A then CHR 0x0A # universal_newlines s
      else (if c = CHR 0x0D then CHR 0x0A else c) # universal_newlines (d # s))"

definition agent_file :: "(string \<Rightarrow> string) \<Rightarrow> string \<Rightarrow> (probe, unit) eff" where
  "agent_file sha token =
     eseq (call (write_file ''value'' (utf8 token)))
     (ebind (call (open_file ''value'')) (\<lambda>h. ebind (call (read_handle h)) (\<lambda>b. ebind (elift (decode_utf8 b)) (\<lambda>t.
      eseq (call (close_fd (fst h)))
     (ebind (call (file_exists ''value'')) (\<lambda>e. ebind (call (stat_file ''value'')) (\<lambda>a.
      ebind (call (read_file ''value'')) (\<lambda>c.
        observe [(''exists'', PBool e), (''size'', int_pv (st_size a)), (''sha256'', PStr (sha c)),
                 (''read'', PStr (universal_newlines t))]))))))))"

definition agent_socket :: "platform \<Rightarrow> (probe, unit) eff" where
  "agent_socket pf =
     eseq (call (efor [''socket'', ''bind'', ''listen'', ''getsockname'', ''accept'', ''close''] (\<lambda>_. syscall_ok)))
       (observe [(''loopback'', PBool True), (''port'', PInt (pf_port pf))])"

definition agent_threads :: "platform \<Rightarrow> (probe, unit) eff" where
  "agent_threads pf = observe (map (\<lambda>(k, n). (k, int_pv n)) (rev (counter_report 2 1000 (pf_schedule pf))))"

definition agent_package :: "platform \<Rightarrow> (probe, unit) eff" where
  "agent_package pf =
     ebind (run_command pf False [''dpkg-query'', ''-W'', ''base-files'']) (\<lambda>(code, stdout, stderr).
       observe [(''dpkg_return'', PInt code), (''output'', PStr (strip_text stdout))])"

definition agent_service :: "platform \<Rightarrow> (probe, unit) eff" where
  "agent_service pf =
     ebind (run_command pf False [''systemctl'', ''is-system-running'']) (\<lambda>(code, stdout, stderr).
     ebind (host_text pf ''/etc/os-release'') (\<lambda>t.
       observe [(''systemd'', PStr (strip_text stdout)), (''os_release'', PStr t)]))"

definition agent_sqlite :: "platform \<Rightarrow> (probe, unit) eff" where
  "agent_sqlite pf =
     ebind (elift (pf_sqlite pf [''create table t(x)'', ''insert into t values(1)'', ''select x from t'']))
       (\<lambda>v. observe [(''value'', v)])"

text \<open>The chain of prefixes in the order of the code.\<close>

definition agent_branch :: "(string \<Rightarrow> string) \<Rightarrow> platform \<Rightarrow> string \<Rightarrow> string \<Rightarrow> (probe, unit) eff" where
  "agent_branch sha pf cid token =
     (if starts_any cid [''fs.'', ''fd.'', ''persistence.''] then agent_file sha token
      else if starts_any cid [''socket.'', ''network.'', ''poll.socket''] then agent_socket pf
      else if starts_any cid [''thread.'', ''sync.'', ''scheduling.''] then agent_threads pf
      else if starts_any cid [''package.''] then agent_package pf
      else if starts_any cid [''service.'', ''distro.''] then agent_service pf
      else if starts_any cid [''workload.sqlite''] then agent_sqlite pf
      else if starts_any cid [''machine.''] then
        observe [(''machine'', PStr (pf_machine pf)), (''kernel'', PStr (pf_kernel pf)),
                 (''cpu_count'', cpu_count pf), (''page_size'', PInt (pf_page_size pf))]
      else if starts_any cid [''boot.''] then
        observe [(''booted'', PBool True), (''pid1'', present pf ''/proc/1'')]
      else observe [(''contract'', PStr cid), (''completed'', PBool True), (''token'', PStr token)])"

definition agent_token :: "(real \<Rightarrow> string) \<Rightarrow> pv \<Rightarrow> string result" where
  "agent_token fr c =
     rbind (py_get c ''stimulus'' (PDict [])) (\<lambda>s. rbind (py_get s ''token'' (PStr ''osbench'')) (\<lambda>t. Inr (py_str fr t)))"

definition agent_base :: "(real \<Rightarrow> string) \<Rightarrow> pv \<Rightarrow> (string \<times> pv) list result" where
  "agent_base fr c =
     rbind (py_get c ''contract'' (PStr [])) (\<lambda>contract. rbind (py_get c ''case_id'' PNone) (\<lambda>i.
     rbind (py_get c ''seed'' PNone) (\<lambda>seed.
       Inr [(''status'', PStr ''ok''), (''contract'', PStr (py_str fr contract)), (''case_id'', i), (''seed'', seed),
            (''phase'', PStr ''execute''), (''return'', PInt 0), (''errno'', PInt 0), (''stdout'', PStr []),
            (''stderr'', PStr []), (''exit_code'', PInt 0), (''signal'', PNone), (''observations'', PDict []),
            (''resources'', PDict [])])))"

definition agent_failure :: "(exn \<Rightarrow> pv option) \<Rightarrow> exn \<Rightarrow> (string \<times> pv) list" where
  "agent_failure errno_of e = error_fields errno_of e @ [(''exit_code'', PInt 1)]"

text \<open>\<open>result(case)\<close>; a case that is not a mapping raises before the handler is set up.\<close>

definition agent_probe :: "(string \<Rightarrow> string) \<Rightarrow> (real \<Rightarrow> string) \<Rightarrow> platform \<Rightarrow> pv \<Rightarrow> string \<Rightarrow> (probe, unit) eff" where
  "agent_probe sha fr pf c cid = ebind (elift (agent_token fr c)) (agent_branch sha pf cid)"

definition agent_result ::
  "(string \<Rightarrow> string) \<Rightarrow> (real \<Rightarrow> string) \<Rightarrow> (exn \<Rightarrow> pv option) \<Rightarrow> platform \<Rightarrow> pv \<Rightarrow> (os, pv) eff" where
  "agent_result sha fr errno_of pf c =
     ebind read_clock (\<lambda>start. ebind (elift (agent_base fr c)) (\<lambda>out.
       (\<lambda>s. let rp = in_temp (agent_probe sha fr pf c (str_of (the (map_of out ''contract''))))
                       \<lparr>pb_os = s, pb_obs = [], pb_out = out\<rparr>
             in ebind read_clock (\<lambda>fin.
                  eret (PDict (AList.update ''duration_ns'' (PInt (fin - start))
                    (closing (agent_failure errno_of) rp)))) (pb_os (snd rp)))))"

section \<open>The serial line\<close>

definition CASE_PREFIX :: string where
  "CASE_PREFIX = ''OSBENCH_CASE ''"

definition EINVAL :: int where
  "EINVAL = 22"

definition malformed_request :: "exn \<Rightarrow> pv" where
  "malformed_request e =
     PDict [(''status'', PStr ''error''), (''stderr'', PStr (exn_name e @ '': '' @ exn_message e)),
            (''return'', PInt (- 1)), (''errno'', PInt EINVAL), (''observations'', PDict []),
            (''resources'', PDict []), (''duration_ns'', PInt 0)]"

text \<open>One pass of the loop of \<open>main\<close> for a line; an empty one means that nothing has arrived yet.\<close>

definition agent_answer ::
  "(string \<Rightarrow> string) \<Rightarrow> (real \<Rightarrow> string) \<Rightarrow> (exn \<Rightarrow> pv option) \<Rightarrow> platform \<Rightarrow> (string \<Rightarrow> pv result) \<Rightarrow>
     string \<Rightarrow> os \<Rightarrow> pv \<times> os" where
  "agent_answer sha fr errno_of pf read_case line s =
     (case ebind (elift (read_case (drop (length CASE_PREFIX) line))) (agent_result sha fr errno_of pf) s of
        (Inr v, t) \<Rightarrow> (v, t)
      | (Inl e, t) \<Rightarrow> (malformed_request e, t))"

fun serve_lines ::
  "(string \<Rightarrow> os \<Rightarrow> pv \<times> os) \<Rightarrow> (pv \<Rightarrow> string) \<Rightarrow> string list \<Rightarrow> os \<Rightarrow> string list \<times> os" where
  "serve_lines reply write_answer [] s = ([], s)"
| "serve_lines reply write_answer (line # rest) s =
     (if prefix CASE_PREFIX line
      then (case reply line s of (v, t) \<Rightarrow>
             (case serve_lines reply write_answer rest t of (out, u) \<Rightarrow>
               ((RESULT_PREFIX @ write_answer v @ [CHR 0x0A]) # out, u)))
      else serve_lines reply write_answer rest s)"

definition READY_LINE :: string where
  "READY_LINE = ''OSBENCH_READY'' @ [CHR 0x0A]"

definition agent_main ::
  "(string \<Rightarrow> string) \<Rightarrow> (real \<Rightarrow> string) \<Rightarrow> (exn \<Rightarrow> pv option) \<Rightarrow> platform \<Rightarrow> (string \<Rightarrow> pv result) \<Rightarrow>
     (pv \<Rightarrow> string) \<Rightarrow> string list \<Rightarrow> os \<Rightarrow> string list \<times> os" where
  "agent_main sha fr errno_of pf read_case write_answer input s =
     (case serve_lines (agent_answer sha fr errno_of pf read_case) write_answer input s of
        (out, t) \<Rightarrow> (READY_LINE # out, t))"

section \<open>The answer\<close>

interpretation unchanged: answer_relation "(=)"
  by unfold_locales auto

lemma agent_keeps_answer: "relates (=) (in_temp (agent_probe sha fr pf c cid))"
proof -
  have "relates (=) (agent_branch sha pf cid token)" for token
    unfolding agent_branch_def agent_file_def agent_socket_def agent_threads_def agent_package_def agent_service_def
      agent_sqlite_def run_command_def host_text_def
    by (intro relates_intros)
  then show ?thesis unfolding agent_probe_def by (intro unchanged.relates_temp relates_intros)
qed

text \<open>What \<open>result\<close> makes of a case: the base fields, and those of the exception if there was one.\<close>

definition agent_document ::
  "(exn \<Rightarrow> pv option) \<Rightarrow> (string \<times> pv) list \<Rightarrow> unit result \<Rightarrow> (string, pv) dict \<Rightarrow> int \<Rightarrow> (string, pv) dict" where
  "agent_document errno_of out r obs n =
     AList.update ''duration_ns'' (PInt n) (AList.update ''observations'' (PDict obs)
       (case r of Inr _ \<Rightarrow> out | Inl e \<Rightarrow> merge_fields out (agent_failure errno_of e)))"

lemma agent_result_cases:
  assumes "agent_result sha fr errno_of pf c s = (Inr v, t)"
  obtains out r obs n where "agent_base fr c = Inr out"
    "v = PDict (agent_document errno_of out r obs n)"
proof -
  obtain start s1 where rc: "read_clock s = (Inr start, s1)" by (rule read_clock_Inr)
  obtain out where out: "agent_base fr c = Inr out"
    using assms rc by (cases "agent_base fr c") (auto simp: agent_result_def ebind_eq)
  obtain r q where rq: "in_temp (agent_probe sha fr pf c (str_of (the (map_of out ''contract''))))
      \<lparr>pb_os = s1, pb_obs = [], pb_out = out\<rparr> = (r, q)" by fastforce
  obtain fin s2 where rf: "read_clock (pb_os q) = (Inr fin, s2)" by (rule read_clock_Inr)
  have q: "pb_out q = out" using agent_keeps_answer rq unfolding relates_def by fastforce
  have "agent_result sha fr errno_of pf c s =
      (Inr (PDict (AList.update ''duration_ns'' (PInt (fin - start)) (closing (agent_failure errno_of) (r, q)))), s2)"
    using rc out rq rf by (simp add: agent_result_def ebind_eq)
  also have "closing (agent_failure errno_of) (r, q) = AList.update ''observations'' (PDict (pb_obs q))
      (case r of Inr _ \<Rightarrow> out | Inl e \<Rightarrow> merge_fields out (agent_failure errno_of e))"
    by (cases r) (simp_all add: closing_def q)
  finally have "v = PDict (agent_document errno_of out r (pb_obs q) (fin - start))"
    using assms by (simp add: agent_document_def)
  with out show ?thesis by (rule that)
qed

lemma agent_result_total:
  obtains v t where "agent_result sha fr errno_of pf (PDict c) s = (Inr v, t)"
proof -
  obtain start s1 where "read_clock s = (Inr start, s1)" by (rule read_clock_Inr)
  moreover obtain out where "agent_base fr (PDict c) = Inr out" by (simp add: agent_base_def)
  moreover obtain r q where "in_temp (agent_probe sha fr pf (PDict c) (str_of (the (map_of out ''contract''))))
      \<lparr>pb_os = s1, pb_obs = [], pb_out = out\<rparr> = (r, q)" by fastforce
  moreover obtain fin s2 where "read_clock (pb_os q) = (Inr fin, s2)" by (rule read_clock_Inr)
  ultimately show ?thesis using that by (simp add: agent_result_def ebind_eq)
qed

text \<open>
  C22. The guest agent answers every request with a document of one shape, whatever the bytes of
  the request, the case in it and the operating system do: the status is ok with the return value and
  the exit code 0 and an empty \<open>stderr\<close>, or error with the return value -1 and the exception in
  \<open>stderr\<close>; the observations and the resources are mappings and the duration is an integer.
\<close>

theorem agent_answer_typed:
  "\<exists>kvs t. agent_answer sha fr errno_of pf read_case line s = (PDict kvs, t) \<and>
     (map_of kvs ''status'' = Some (PStr ''ok'') \<and> map_of kvs ''return'' = Some (PInt 0) \<and>
        map_of kvs ''exit_code'' = Some (PInt 0) \<and> map_of kvs ''stderr'' = Some (PStr []) \<or>
      map_of kvs ''status'' = Some (PStr ''error'') \<and> map_of kvs ''return'' = Some (PInt (- 1)) \<and>
        (\<exists>e. map_of kvs ''stderr'' = Some (PStr (exn_name e @ '': '' @ exn_message e)))) \<and>
     (\<exists>obs. map_of kvs ''observations'' = Some (PDict obs)) \<and>
     map_of kvs ''resources'' = Some (PDict []) \<and> (\<exists>n. map_of kvs ''duration_ns'' = Some (PInt n))"
proof -
  obtain r t where run: "ebind (elift (read_case (drop (length CASE_PREFIX) line))) (agent_result sha fr errno_of pf) s = (r, t)"
    by fastforce
  show ?thesis
  proof (cases r)
    case (Inl e)
    with run show ?thesis by (auto simp: agent_answer_def malformed_request_def)
  next
    case (Inr v)
    with run obtain c where "agent_result sha fr errno_of pf c s = (Inr v, t)"
      by (auto simp: ebind_eq split: sum.splits)
    then obtain out r' obs n where "agent_base fr c = Inr out"
      "v = PDict (agent_document errno_of out r' obs n)"
      by (rule agent_result_cases)
    note v = this
    obtain a b c' where out: "out = [(''status'', PStr ''ok''), (''contract'', PStr a), (''case_id'', b), (''seed'', c'),
            (''phase'', PStr ''execute''), (''return'', PInt 0), (''errno'', PInt 0), (''stdout'', PStr []),
            (''stderr'', PStr []), (''exit_code'', PInt 0), (''signal'', PNone), (''observations'', PDict []),
            (''resources'', PDict [])]"
      using v(1) by (auto simp: agent_base_def result_simps)
    have "agent_answer sha fr errno_of pf read_case line s = (v, t)" using run Inr by (simp add: agent_answer_def)
    then show ?thesis
      by (cases r') (auto simp: v(2) agent_document_def out map_of_update merge_fields_def agent_failure_def error_fields_def)
  qed
qed

section \<open>The two ends of the line\<close>

lemma answer_line:
  assumes "one_line w"
  shows "result_payload (RESULT_PREFIX @ w @ [CHR 0x0A]) = Some w"
proof -
  have "CHR 0x0A \<notin> set (RESULT_PREFIX @ w)" "CHR 0x0D \<notin> set (RESULT_PREFIX @ w)"
    using assms by (simp_all add: one_line_def RESULT_PREFIX_def)
  from split_lines_line [OF this, of "[]" "[]"] show ?thesis by (simp add: result_payload_def)
qed

lemma ready_line: "whole_lines READY_LINE" "result_payload READY_LINE = None"
  by (simp_all add: whole_lines_def READY_LINE_def result_payload_def RESULT_PREFIX_def)


section \<open>Mixed targets\<close>

lemma different_fields_fail:
  assumes "distinct (map fst xs)" "distinct (map fst ys)" "fst ` set xs \<noteq> fst ` set ys"
  shows "verdict fr fp kind tol (PDict xs) (PDict ys) = Inr False"
proof -
  have "\<not> py_eq (PDict xs) (PDict ys)"
    unfolding py_eq_dict_iff [OF assms(1,2)] by (simp add: dom_map_of_conv_image_fst assms(3))
  moreover have "mset (map fst xs) \<noteq> mset (map fst ys)"
    using assms(3) by (metis list.set_map set_mset_mset)
  ultimately show ?thesis using assms(3) by (simp add: verdict_def del: py_eq.simps)
qed

lemma map_fst_delete: "map fst (AList.delete k xs) = filter (\<lambda>f. f \<noteq> k) (map fst xs)"
  by (induction xs) auto

lemma normalized_fields:
  obtains kvs' where "normalize_observation fr k (PDict kvs) = PDict kvs'"
    "map fst kvs' = (if ''timing'' \<notin> set (c_observables k) \<and> ''resource_usage'' \<notin> set (c_observables k)
       then filter (\<lambda>f. f \<noteq> ''duration_ns'') (map fst kvs) else map fst kvs)"
proof -
  have walk: "\<exists>kvs'. walk fr rules (PDict kvs) = PDict kvs' \<and> map fst kvs' = map fst kvs" for rules kvs
    by (auto simp: comp_def case_prod_beta)
  show ?thesis
    using that walk [of "active_rules k" kvs] walk [of "active_rules k" "AList.delete ''duration_ns'' kvs"]
    by (cases "active_rules k = {}"; cases "''timing'' \<notin> set (c_observables k) \<and> ''resource_usage'' \<notin> set (c_observables k)")
       (auto simp: normalize_observation_def Let_def drop_duration_def map_fst_delete simp del: walk.simps)
qed

lemma fields_apart:
  assumes "distinct (map fst xs)" "distinct (map fst ys)" "''exit_code'' \<in> fst ` set ys - fst ` set xs"
  shows "\<exists>d d'. compare_observations fr fp (PDict xs) (PDict ys) k = Inr (False, Some d) \<and>
     compare_observations fr fp (PDict ys) (PDict xs) k = Inr (False, Some d')"
proof -
  obtain xs' where x: "normalize_observation fr k (PDict xs) = PDict xs'" "map fst xs' =
      (if ''timing'' \<notin> set (c_observables k) \<and> ''resource_usage'' \<notin> set (c_observables k)
       then filter (\<lambda>f. f \<noteq> ''duration_ns'') (map fst xs) else map fst xs)" by (rule normalized_fields)
  obtain ys' where y: "normalize_observation fr k (PDict ys) = PDict ys'" "map fst ys' =
      (if ''timing'' \<notin> set (c_observables k) \<and> ''resource_usage'' \<notin> set (c_observables k)
       then filter (\<lambda>f. f \<noteq> ''duration_ns'') (map fst ys) else map fst ys)" by (rule normalized_fields)
  have d: "distinct (map fst xs')" "distinct (map fst ys')" using assms(1,2) x(2) y(2) by (metis distinct_filter)+
  have "''exit_code'' \<in> fst ` set ys'" "''exit_code'' \<notin> fst ` set xs'"
    using assms(3) unfolding image_set x(2) y(2) by auto
  then have n: "fst ` set xs' \<noteq> fst ` set ys'" by blast
  show ?thesis
    using different_fields_fail [OF d n] different_fields_fail [OF d(2,1) n [symmetric]] x(1) y(1)
    by (simp add: compare_observations_def compare_values_def)
qed

definition same_fields :: "(string, pv) dict \<Rightarrow> (string, pv) dict \<Rightarrow> bool" where
  "same_fields d e \<longleftrightarrow> ({''stdout'', ''stderr'', ''return''} \<subseteq> fst ` set d \<longrightarrow> map fst e = map fst d)"

interpretation fields: answer_relation same_fields
proof unfold_locales
  fix d e f :: "(string, pv) dict"
  assume "same_fields d e" "same_fields e f"
  then show "same_fields d f" unfolding same_fields_def by (cases "map fst e = map fst d") (metis list.set_map)+
qed (simp add: same_fields_def)

lemma map_fst_update: "k \<in> fst ` set d \<Longrightarrow> map fst (AList.update k v d) = map fst d"
  by (induction d) auto

lemma local_fields:
  assumes "execute_case sha loads errno_of pf c s = (Inr a, t)" and "status_ok a"
  obtains kvs where "a = PDict kvs" "map fst kvs = [''status'', ''contract'', ''case_id'', ''seed'', ''phase'', ''return'',
    ''errno'', ''stdout'', ''stderr'', ''observations'', ''resources'', ''duration_ns'']"
proof -
  obtain start s1 where rc: "read_clock s = (Inr start, s1)" by (rule read_clock_Inr)
  obtain out where out: "base_observation c = Inr out"
    using assms rc by (cases "base_observation c") (auto simp: execute_case_def ebind_eq)
  let ?m = "in_temp (contract_probe sha loads pf c (the (map_of out ''contract'')))"
  obtain r q where rq: "?m \<lparr>pb_os = s1, pb_obs = [], pb_out = out\<rparr> = (r, q)" by fastforce
  obtain fin s2 where rf: "read_clock (pb_os q) = (Inr fin, s2)" by (rule read_clock_Inr)
  have a: "a = PDict (AList.update ''duration_ns'' (PInt (fin - start)) (finished errno_of (r, q)))"
    using rc out rq rf assms(1) by (simp add: execute_case_def ebind_eq)
  have "relates same_fields ?m"
    by (rule fields.relates_probe) (simp add: same_fields_def merge_fields_def map_fst_update keys_update)
  with rq have "same_fields out (pb_out q)" unfolding relates_def by fastforce
  moreover have f: "map fst out = [''status'', ''contract'', ''case_id'', ''seed'', ''phase'', ''return'',
    ''errno'', ''stdout'', ''stderr'', ''observations'', ''resources'']"
    using out by (auto simp: base_observation_def result_simps)
  ultimately have q: "map fst (pb_out q) = map fst out"
    unfolding same_fields_def image_set f by simp
  have "r = Inr ()"
  proof (cases r)
    case (Inl e)
    have "pget a ''status'' = Some (PStr ''error'')"
      using finished_keys [of "''status''" errno_of "(r, q)"] by (simp add: a Inl pget_def map_of_update error_fields_def)
    with assms(2) show ?thesis by (simp add: status_ok_def pget_default_def)
  qed simp
  moreover have u: "map fst (AList.update ''observations'' v (pb_out q)) = map fst out" for v
    by (subst map_fst_update) (simp_all add: q f flip: list.set_map)
  moreover have "''duration_ns'' \<notin> fst ` set (AList.update ''observations'' v (pb_out q))" for v
    unfolding list.set_map [symmetric] u f by simp
  ultimately show ?thesis
    using that a f by (simp add: finished_def closing_def update_new_key)
qed

lemma agent_fields:
  assumes "agent_answer sha fr errno_of pf read_case line s = (b, t)" and "status_ok b"
  obtains kvs where "b = PDict kvs" "map fst kvs = [''status'', ''contract'', ''case_id'', ''seed'', ''phase'', ''return'',
    ''errno'', ''stdout'', ''stderr'', ''exit_code'', ''signal'', ''observations'', ''resources'', ''duration_ns'']"
proof -
  obtain r t' where run: "ebind (elift (read_case (drop (length CASE_PREFIX) line))) (agent_result sha fr errno_of pf) s = (r, t')"
    by fastforce
  have "r = Inr b"
    using assms run by (cases r) (auto simp: agent_answer_def malformed_request_def status_ok_def pget_default_def pget_def)
  with run obtain c where "agent_result sha fr errno_of pf c s = (Inr b, t')"
    by (auto simp: ebind_eq split: sum.splits)
  then obtain out r' obs n where "agent_base fr c = Inr out" "b = PDict (agent_document errno_of out r' obs n)"
    by (rule agent_result_cases)
  then show ?thesis
    using that assms(2)
    by (cases r') (auto simp: agent_document_def agent_base_def result_simps status_ok_def pget_default_def pget_def
        merge_fields_def agent_failure_def error_fields_def)
qed

text \<open>
  C23. A host and a guest never agree. Whatever the Contract, the case, the two systems and the request,
  an observation of the local probes and an answer of the guest agent fail the evaluator's comparison in
  both orders: the agent reports an exit code and a signal, the local probes have no such fields, and
  no normalization rule removes them. So an evaluation whose reference falls back to the host cannot
  pass any case of a machine.
\<close>

theorem host_and_guest_disagree:
  assumes "execute_case sha loads errno_of pf c s = (Inr a, t)"
    and "agent_answer sha' fr' errno_of' pf' read_case line s' = (b, t')"
  shows "\<exists>d d'. compare_observations fr fp a b k = Inr (False, Some d) \<and>
     compare_observations fr fp b a k = Inr (False, Some d')"
proof (cases "status_ok a \<and> status_ok b")
  case True
  then obtain xs ys where "a = PDict xs" "map fst xs = [''status'', ''contract'', ''case_id'', ''seed'', ''phase'',
      ''return'', ''errno'', ''stdout'', ''stderr'', ''observations'', ''resources'', ''duration_ns'']"
    "b = PDict ys" "map fst ys = [''status'', ''contract'', ''case_id'', ''seed'', ''phase'', ''return'', ''errno'',
      ''stdout'', ''stderr'', ''exit_code'', ''signal'', ''observations'', ''resources'', ''duration_ns'']"
    using local_fields [OF assms(1)] agent_fields [OF assms(2)] by metis
  then show ?thesis using fields_apart [of xs ys] unfolding image_set by simp
qed (auto simp: compare_observations_def)

section \<open>A machine that answers\<close>

definition demo_request :: "(string \<times> pv) list" where
  "demo_request =
     [(''contract'', PStr ''boot.init''), (''case_id'', PStr ''c7''), (''seed'', PInt 3), (''stimulus'', PDict [])]"


theorem host_and_guest_disagree_witness:
  "\<exists>a b d. fst (execute_case (\<lambda>s. s) (\<lambda>_. Inr PNone) (\<lambda>_. None) (demo_platform 7) demo_case (demo_os 3 [])) = Inr a \<and>
     fst (agent_answer (\<lambda>s. s) (\<lambda>_. []) (\<lambda>_. None) (demo_platform 8) (\<lambda>_. Inr demo_case) [] (demo_os 5 [])) = b \<and>
     status_ok a \<and> status_ok b \<and>
     compare_observations (\<lambda>_. []) (\<lambda>_. None) a b (example_contract [] ''exact'') = Inr (False, Some d)"
proof -
  let ?a = "execute_case (\<lambda>s. s) (\<lambda>_. Inr PNone) (\<lambda>_. None) (demo_platform 7) demo_case (demo_os 3 [])"
  let ?b = "agent_answer (\<lambda>s. s) (\<lambda>_. []) (\<lambda>_. None) (demo_platform 8) (\<lambda>_. Inr demo_case) [] (demo_os 5 [])"
  have s: "case fst ?a of Inr a \<Rightarrow> pget a ''status'' = Some (PStr ''ok'') | Inl _ \<Rightarrow> False"
    "pget (fst ?b) ''status'' = Some (PStr ''ok'')" by code_simp+
  obtain r t where a: "?a = (r, t)" by fastforce
  obtain b t' where b: "?b = (b, t')" by fastforce
  from s(1) a obtain a where r: "r = Inr a" "pget a ''status'' = Some (PStr ''ok'')" by (cases r) auto
  from host_and_guest_disagree [OF a [unfolded r(1)] b, of "\<lambda>_. []" "\<lambda>_. None" "example_contract [] ''exact''"]
  show ?thesis using a b r s(2) by (auto simp: status_ok_def pget_default_def)
qed

end
