(* ===== verification/LocalProbes.thy ===== *)
theory LocalProbes
  imports Agent Evaluate "HOL-Library.List_Lexorder" "HOL-Library.Char_ord"
begin

text \<open>
  \<open>local_probes.py\<close>: the probes of the module that \<open>probes.py\<close> replaced. Each family of Contracts sets
  one field of the observations, beside a digest of the case and the remainder of its seed. The operating
  system is that of \<open>Posix\<close>; \<open>dumps\<close> is \<open>json.dumps\<close> with sorted keys and no blanks, \<open>fi\<close> reads a text as
  an integer, \<open>pf_random\<close> are the sixteen bytes of \<open>os.urandom\<close>.
\<close>

section \<open>The probes\<close>

definition case_digest :: "(string \<Rightarrow> string) \<Rightarrow> (pv \<Rightarrow> string) \<Rightarrow> pv \<Rightarrow> string result" where
  "case_digest sha dumps c =
     rbind (py_item c ''contract'') (\<lambda>contract. rbind (py_get c ''family'' PNone) (\<lambda>family.
     rbind (py_get c ''seed'' PNone) (\<lambda>seed. rbind (py_get c ''stimulus'' PNone) (\<lambda>stimulus.
       Inr (sha (utf8 (dumps (PDict [(''contract'', contract), (''family'', family), (''seed'', seed),
                                     (''stimulus'', stimulus)]))))))))"

text \<open>The format \<open>04x\<close> of a number below 65536.\<close>

definition hex4 :: "nat \<Rightarrow> string" where
  "hex4 n = map (\<lambda>d. hex_digit (n div d mod 16)) [4096, 256, 16, 1]"

definition list_temp :: "(os, string list) eff" where
  "list_temp = sys (\<lambda>s. (Inr (sort (map fst (entries s))), s))"

definition local_file_body :: "(string \<Rightarrow> string) \<Rightarrow> (real \<Rightarrow> string) \<Rightarrow> platform \<Rightarrow> string \<Rightarrow> int \<Rightarrow> (os, pv) eff" where
  "local_file_body sha fr pf contract seed =
     (let name = ''f-'' @ hex4 (nat (seed AND 65535));
          data = utf8 (''osbench:'' @ contract @ '':'' @ py_str fr (PInt seed))
      in eseq (write_file name data) (ebind (stat_file name) (\<lambda>st. ebind (read_file name) (\<lambda>b. ebind list_temp (\<lambda>names.
           eret (PDict [(''path'', PStr (pf_temp pf @ ''/'' @ name)), (''size'', int_pv (st_size st)),
                        (''mode'', int_pv (pf_file_mode pf)), (''inode'', int_pv (st_ino st)),
                        (''sha256'', PStr (sha b)), (''entries'', PList (map PStr names))]))))))"

definition local_file :: "(string \<Rightarrow> string) \<Rightarrow> (real \<Rightarrow> string) \<Rightarrow> platform \<Rightarrow> string \<Rightarrow> int \<Rightarrow> (os, pv) eff" where
  "local_file sha fr pf contract seed =
     eseq make_temp (efinally (local_file_body sha fr pf contract seed) remove_temp)"

text \<open>A socket takes a descriptor, and an exception leaves the ones that are open.\<close>

definition local_socket :: "platform \<Rightarrow> (os, pv) eff" where
  "local_socket pf =
     ebind new_fd (\<lambda>listener. eseq (efor [''bind'', ''listen'', ''getsockname''] (\<lambda>_. syscall_ok))
     (ebind new_fd (\<lambda>client. ebind new_fd (\<lambda>server.
      let payload = received pf ''osbench''; reply = received pf (rev payload)
      in eseq (efor [''sendall'', ''recv'', ''sendall'', ''recv''] (\<lambda>_. syscall_ok))
        (eseq (efor [client, server, listener] close_fd)
          (ebind (elift (decode_utf8 payload)) (\<lambda>p. ebind (elift (decode_utf8 reply)) (\<lambda>r.
            eret (PDict [(''port'', PInt (pf_port pf)), (''request'', PStr p), (''reply'', PStr r)])))))))))"

definition local_process :: "platform \<Rightarrow> (os, pv) eff" where
  "local_process pf =
     eret (PDict [(''pid'', PInt (pf_pid pf)), (''ppid'', PInt (pf_ppid pf)), (''uid'', PInt (pf_uid pf)),
                  (''environment_present'', PBool (pf_has_path pf))])"

definition local_clock :: "(os, pv) eff" where
  "local_clock =
     ebind read_clock (\<lambda>first. ebind read_clock (\<lambda>second.
       eret (PDict [(''nondecreasing'', PBool (second \<ge> first)), (''delta_positive'', PBool (second - first > 0))])))"

definition local_identity :: "platform \<Rightarrow> (os, pv) eff" where
  "local_identity pf =
     eret (PDict [(''platform'', PStr (pf_system pf)), (''machine'', PStr (pf_machine pf)),
                  (''os_release_present'', PBool (truthy (text_result (pf_host_file pf ''/etc/os-release''))))])"

definition local_random :: "platform \<Rightarrow> (os, pv) eff" where
  "local_random pf =
     eseq syscall_ok (eret (PDict [(''length'', int_pv (length (pf_random pf))),
       (''nonzero'', PBool (list_ex (\<lambda>b. b \<noteq> CHR 0x00) (pf_random pf)))]))"

definition EBADF :: int where
  "EBADF = 9"

text \<open>The chain of prefixes in the order of the code: the field that is set, and the value that it gets.\<close>

definition local_branch ::
  "(string \<Rightarrow> string) \<Rightarrow> (real \<Rightarrow> string) \<Rightarrow> platform \<Rightarrow> string \<Rightarrow> string \<Rightarrow> int \<Rightarrow> string \<times> (os, pv) eff" where
  "local_branch sha fr pf digest cid seed =
     (if starts_any cid [''fs.'', ''fd.''] then (''filesystem'', local_file sha fr pf cid seed)
      else if starts_any cid [''socket.'', ''network.''] then (''socket'', local_socket pf)
      else if starts_any cid [''process.''] then (''process'', local_process pf)
      else if starts_any cid [''time.'', ''machine.clock''] then (''clock'', local_clock)
      else if starts_any cid [''distro.''] then (''identity'', local_identity pf)
      else if starts_any cid [''failure.invalid_fd''] then (''expected_errno'', eret (PInt EBADF))
      else if starts_any cid [''devfs.random'', ''io.random''] then (''random'', local_random pf)
      else (''property'', eret (PDict [(''supported'', PBool True), (''token'', PStr (take 24 digest))])))"

section \<open>The execution of a case\<close>

record local_plan =
  lp_contract :: string
  lp_seed :: int
  lp_digest :: string
  lp_fields :: "(string \<times> pv) list"

definition local_observed :: "local_plan \<Rightarrow> (string \<times> pv) list" where
  "local_observed p = [(''digest'', PStr (lp_digest p)), (''seed_mod'', PInt (lp_seed p mod 997))]"

text \<open>What is evaluated before the handler is set up: an exception of it leaves the function.\<close>

definition local_base ::
  "(string \<Rightarrow> string) \<Rightarrow> (pv \<Rightarrow> string) \<Rightarrow> (real \<Rightarrow> string) \<Rightarrow> (string \<Rightarrow> int option) \<Rightarrow> pv \<Rightarrow> local_plan result" where
  "local_base sha dumps fr fi c =
     rbind (py_item c ''contract'') (\<lambda>contract. rbind (py_get c ''seed'' (PInt 0)) (\<lambda>s. rbind (py_int fi s) (\<lambda>seed.
     rbind (py_item c ''case_id'') (\<lambda>i. rbind (py_get c ''family'' PNone) (\<lambda>family.
     rbind (case_digest sha dumps c) (\<lambda>digest.
       Inr \<lparr>lp_contract = py_str fr contract, lp_seed = seed, lp_digest = digest, lp_fields =
             [(''status'', PStr ''ok''), (''contract'', PStr (py_str fr contract)), (''case_id'', i),
              (''family'', family), (''return'', PInt 0), (''errno'', PInt 0), (''stdout'', PStr []),
              (''stderr'', PStr []), (''exit_code'', PInt 0), (''signal'', PNone),
              (''observations'', PDict [(''digest'', PStr digest), (''seed_mod'', PInt (seed mod 997))]),
              (''resources'', PDict [])]\<rparr>))))))"

definition local_document :: "(exn \<Rightarrow> pv option) \<Rightarrow> local_plan \<Rightarrow> string \<Rightarrow> pv result \<Rightarrow> (string, pv) dict" where
  "local_document errno_of p name r =
     (case r of
        Inr v \<Rightarrow> AList.update ''observations'' (PDict (AList.update name v (local_observed p))) (lp_fields p)
      | Inl e \<Rightarrow> merge_fields (lp_fields p) (agent_failure errno_of e))"

definition execute_local_case ::
  "(string \<Rightarrow> string) \<Rightarrow> (pv \<Rightarrow> string) \<Rightarrow> (real \<Rightarrow> string) \<Rightarrow> (string \<Rightarrow> int option) \<Rightarrow> (exn \<Rightarrow> pv option) \<Rightarrow>
     platform \<Rightarrow> pv \<Rightarrow> (os, pv) eff" where
  "execute_local_case sha dumps fr fi errno_of pf c =
     ebind read_clock (\<lambda>start. ebind (elift (local_base sha dumps fr fi c)) (\<lambda>p.
       (\<lambda>s. case local_branch sha fr pf (lp_digest p) (lp_contract p) (lp_seed p) of (name, m) \<Rightarrow>
          (case m s of (r, t) \<Rightarrow>
             ebind read_clock (\<lambda>fin.
               eret (PDict (AList.update ''duration_ns'' (PInt (max 1 (fin - start)))
                 (local_document errno_of p name r)))) t))))"

section \<open>What an observation says\<close>

lemma os_dir_sys:
  assumes "sys f s = (r, t)" and "\<And>u. os_dir (snd (f u)) = os_dir u"
  shows "os_dir t = os_dir s"
proof -
  have "r = fst (f u) \<and> t = snd (f u) \<Longrightarrow> os_dir t = os_dir u" for u using assms(2) by simp
  then show ?thesis
    using assms(1) assms(2) [of s] assms(2) [of "s\<lparr>os_script := tl (os_script s)\<rparr>"]
    by (auto simp: sys_def split: list.splits option.splits)
qed

text \<open>A computation leaves the temporary directory as it is.\<close>

definition same_dir :: "(os, 'a) eff \<Rightarrow> bool" where
  "same_dir m \<longleftrightarrow> (\<forall>s. os_dir (snd (m s)) = os_dir s)"

lemma same_dir_bind: "same_dir m \<Longrightarrow> (\<And>x. same_dir (f x)) \<Longrightarrow> same_dir (ebind m f)"
  by (simp add: same_dir_def ebind_eq split: prod.splits sum.splits) (metis snd_conv)

lemma same_dir_seq: "same_dir m \<Longrightarrow> same_dir n \<Longrightarrow> same_dir (eseq m n)"
  unfolding eseq_def by (rule same_dir_bind)

lemma same_dir_for: "(\<And>x. same_dir (body x)) \<Longrightarrow> same_dir (efor xs body)"
  by (induction xs) (simp_all add: same_dir_def [of "eret ()"] same_dir_seq)

lemma same_dir_sys: "(\<And>u. os_dir (snd (f u)) = os_dir u) \<Longrightarrow> same_dir (sys f)"
  unfolding same_dir_def by (metis os_dir_sys prod.collapse)

lemma same_dir_simple: "same_dir (eret x)" "same_dir (elift r)" "same_dir syscall_ok" "same_dir new_fd"
    "same_dir (close_fd d)" "same_dir read_clock"
  by (simp_all add: same_dir_def [of "eret x"] same_dir_def [of "elift r"] syscall_ok_def new_fd_def close_fd_def same_dir_sys)
     (simp add: same_dir_def read_clock_def split: list.splits)

lemmas same_dir_intros = same_dir_bind same_dir_seq same_dir_for same_dir_simple

lemma local_file_clean:
  assumes "local_file sha fr pf contract seed s = (Inr v, t)"
  shows "os_dir t = None"
proof -
  from assms obtain u w where "remove_temp u = (Inr w, t)"
    by (auto simp: local_file_def eseq_eq efinally_def split: prod.splits sum.splits)
  then show ?thesis by (auto simp: remove_temp_def sys_def split: list.splits option.splits)
qed

lemma local_branch_clean:
  assumes "local_branch sha fr pf digest cid seed = (name, m)" and "m s = (Inr v, t)" and "os_dir s = None"
  shows "os_dir t = None"
proof -
  have same: "same_dir (local_socket pf)" "same_dir (local_process pf)" "same_dir local_clock" "same_dir (local_identity pf)"
    "same_dir (local_random pf)"
    unfolding local_socket_def local_process_def local_clock_def local_identity_def local_random_def Let_def
    by (intro same_dir_intros)+
  have "m = local_file sha fr pf cid seed \<or> same_dir m"
    using assms(1) same by (auto simp: local_branch_def same_dir_simple split: if_splits)
  then show ?thesis
  proof
    assume "m = local_file sha fr pf cid seed"
    with assms(2) show ?thesis using local_file_clean by simp
  next
    assume "same_dir m"
    then have "os_dir (snd (m s)) = os_dir s" by (simp add: same_dir_def)
    with assms(2,3) show ?thesis by simp
  qed
qed

lemma local_branch_name:
  assumes "local_branch sha fr pf digest cid seed = (name, m)"
  shows "name \<noteq> ''digest'' \<and> name \<noteq> ''seed_mod''"
  using assms by (auto simp: local_branch_def split: if_splits)

lemma execute_local_eq:
  assumes "local_base sha dumps fr fi c = Inr p"
  obtains start s1 name m r t n u where "read_clock s = (Inr start, s1)"
    "local_branch sha fr pf (lp_digest p) (lp_contract p) (lp_seed p) = (name, m)" "m s1 = (r, t)" "n \<ge> 1"
    "os_dir u = os_dir t"
    "execute_local_case sha dumps fr fi errno_of pf c s =
       (Inr (PDict (AList.update ''duration_ns'' (PInt n) (local_document errno_of p name r))), u)"
proof -
  obtain start s1 where rc: "read_clock s = (Inr start, s1)" by (rule read_clock_Inr)
  obtain name m where b: "local_branch sha fr pf (lp_digest p) (lp_contract p) (lp_seed p) = (name, m)" by fastforce
  obtain r t where m: "m s1 = (r, t)" by fastforce
  obtain fin u where rf: "read_clock t = (Inr fin, u)" by (rule read_clock_Inr)
  have "os_dir u = os_dir t" using same_dir_simple(6) rf unfolding same_dir_def by (metis snd_conv)
  with rc b m rf assms show ?thesis
    by (intro that [of start s1 name m r t "max 1 (fin - start)" u]) (simp_all add: execute_local_case_def ebind_eq)
qed

text \<open>
  What the older probes say of a case. A case whose fields can be read is always answered with its id,
  the digest and the remainder of its seed, even if the system refuses a call: an answer with the status ok
  has exactly one more observation and leaves no temporary directory, and one with the status error has no
  more observations, the exit code 1 and the exception in \<open>stderr\<close>.
\<close>

theorem local_case_answers:
  assumes "local_base sha dumps fr fi c = Inr p" and "os_dir s = None"
  shows "\<exists>obs t kvs. execute_local_case sha dumps fr fi errno_of pf c s = (Inr obs, t) \<and>
     Inr (the (pget obs ''case_id'')) = py_item c ''case_id'' \<and> pget obs ''observations'' = Some (PDict kvs) \<and>
     (pget obs ''status'' = Some (PStr ''ok'') \<and> pget obs ''exit_code'' = Some (PInt 0) \<and> os_dir t = None \<and>
        (\<exists>name v. kvs = local_observed p @ [(name, v)]) \<or>
      pget obs ''status'' = Some (PStr ''error'') \<and> pget obs ''exit_code'' = Some (PInt 1) \<and> kvs = local_observed p \<and>
        (\<exists>e. pget obs ''stderr'' = Some (PStr (exn_name e @ '': '' @ exn_message e))))"
proof -
  obtain start s1 name m r t n u where run: "read_clock s = (Inr start, s1)"
    "local_branch sha fr pf (lp_digest p) (lp_contract p) (lp_seed p) = (name, m)" "m s1 = (r, t)" "n \<ge> 1"
    "os_dir u = os_dir t"
    "execute_local_case sha dumps fr fi errno_of pf c s =
       (Inr (PDict (AList.update ''duration_ns'' (PInt n) (local_document errno_of p name r))), u)"
    using execute_local_eq [OF assms(1)] .
  have s1: "os_dir s1 = None" using same_dir_simple(6) run(1) assms(2) unfolding same_dir_def by (metis snd_conv)
  obtain i where fields: "map_of (lp_fields p) ''case_id'' = Some i" "py_item c ''case_id'' = Inr i"
    "map_of (lp_fields p) ''status'' = Some (PStr ''ok'')" "map_of (lp_fields p) ''exit_code'' = Some (PInt 0)"
    "map_of (lp_fields p) ''observations'' = Some (PDict (local_observed p))"
    using assms(1) by (auto simp: local_base_def result_simps local_observed_def)
  show ?thesis
  proof (cases r)
    case (Inr v)
    then have "os_dir u = None" using local_branch_clean [OF run(2) _ s1] run(3,5) by simp
    moreover have "AList.update name v (local_observed p) = local_observed p @ [(name, v)]"
      using local_branch_name [OF run(2)] by (auto simp: local_observed_def)
    ultimately show ?thesis
      unfolding run(6) Inr by (simp add: local_document_def pget_def map_of_update fields)
  next
    case (Inl e)
    show ?thesis
      unfolding run(6) Inl
      by (auto simp: local_document_def pget_def map_of_update merge_fields_def agent_failure_def error_fields_def fields)
  qed
qed

theorem local_case_answers_witness:
  "\<exists>obs t kvs. execute_local_case (\<lambda>s. s) (\<lambda>_. ''{}'') (\<lambda>_. []) (\<lambda>_. None) (\<lambda>_. None) (demo_platform 7) demo_case
       ((demo_os 3 [])\<lparr>os_script := [None, Some (OtherError ''OSError'' ''no space'')]\<rparr>) = (Inr obs, t) \<and>
     pget obs ''case_id'' = Some (PStr ''c'') \<and> pget obs ''status'' = Some (PStr ''error'') \<and>
     pget obs ''observations'' = Some (PDict [(''digest'', PStr ''{}''), (''seed_mod'', PInt 1)])"
proof -
  let ?run = "execute_local_case (\<lambda>s. s) (\<lambda>_. ''{}'') (\<lambda>_. []) (\<lambda>_. None) (\<lambda>_. None) (demo_platform 7) demo_case
       ((demo_os 3 [])\<lparr>os_script := [None, Some (OtherError ''OSError'' ''no space'')]\<rparr>)"
  have "\<exists>p. local_base (\<lambda>s. s) (\<lambda>_. ''{}'') (\<lambda>_. []) (\<lambda>_. None) demo_case = Inr p"
    by (simp add: local_base_def demo_case_def case_digest_def)
  then obtain p where "local_base (\<lambda>s. s) (\<lambda>_. ''{}'') (\<lambda>_. []) (\<lambda>_. None) demo_case = Inr p" by blast
  from local_case_answers [OF this, where s = "(demo_os 3 [])\<lparr>os_script := [None, Some (OtherError ''OSError'' ''no space'')]\<rparr>"]
  obtain obs t where run: "?run = (Inr obs, t)" by (fastforce simp: demo_os_def)
  have "case fst ?run of Inr v \<Rightarrow> pget v ''status'' = Some (PStr ''error'') \<and> pget v ''case_id'' = Some (PStr ''c'') \<and>
      pget v ''observations'' = Some (PDict [(''digest'', PStr ''{}''), (''seed_mod'', PInt 1)])
      | Inl e \<Rightarrow> False" by code_simp
  with run show ?thesis by simp
qed

end
