(* ===== verification/ReferenceTools.thy ===== *)
theory ReferenceTools
  imports Probes Inventory Qemu Calibration
begin

text \<open>
  The functions of \<open>reference.py\<close> that call scripts and read what they leave: building, booting,
  inspecting and exporting the reference system, and the artifacts from which the lock is realized.
  A run of a script is an input: its return code, what it prints, and the files it leaves. Files are
  those below the root of the repository; a script prints paths in normal form.
\<close>

section \<open>Scripts\<close>

record script_run =
  sr_code :: int
  sr_stdout :: string
  sr_stderr :: string
  sr_leaves :: "tree \<Rightarrow> tree"

definition newline :: string where
  "newline = [CHR 0x0A]"

text \<open>\<open>f"{what} failed:\\n{completed.stdout}\\n{completed.stderr}"\<close>.\<close>

definition script_failure :: "string \<Rightarrow> script_run \<Rightarrow> exn" where
  "script_failure what r = RuntimeError (what @ '' failed:'' @ newline @ sr_stdout r @ newline @ sr_stderr r)"

text \<open>\<open>completed.stdout.strip().splitlines()[-1]\<close>.\<close>

definition last_line :: "string \<Rightarrow> string result" where
  "last_line out =
     (let ls = text_lines False [] (strip_text out)
      in if ls = [] then Inl (OtherError ''IndexError'' ''list index out of range'') else Inr (last ls))"

definition path_at :: "string \<Rightarrow> path" where
  "path_at printed = split_on (CHR ''/'') printed"

text \<open>A script that succeeds, then what is made of the path it prints and of the files it has left.\<close>

definition after_script :: "string \<Rightarrow> script_run \<Rightarrow> (string \<Rightarrow> (tree, 'a) eff) \<Rightarrow> (tree, 'a) eff" where
  "after_script what r use fs =
     (let fs = sr_leaves r fs in
      if sr_code r \<noteq> 0 then (Inl (script_failure what r), fs)
      else ebind (elift (last_line (sr_stdout r))) use fs)"

definition reading :: "(tree \<Rightarrow> 'a result) \<Rightarrow> (tree, 'a) eff" where
  "reading f = (\<lambda>fs. (f fs, fs))"

text \<open>A function that returns the new files with its value, as an effect.\<close>

definition leaving :: "(tree \<Rightarrow> (tree \<times> 'a) result) \<Rightarrow> (tree, 'a) eff" where
  "leaving f fs = (case f fs of Inl e \<Rightarrow> (Inl e, fs) | Inr (gs, v) \<Rightarrow> (Inr v, gs))"

definition REFERENCE :: path where
  "REFERENCE = [''artifacts'', ''reference'']"

definition IMAGE :: path where
  "IMAGE = REFERENCE @ [''debian-13.6-amd64.qcow2'']"

definition INSTALLER_MANIFEST :: path where
  "INSTALLER_MANIFEST = REFERENCE @ [''installer'', ''manifest.json'']"

definition INVENTORY :: path where
  "INVENTORY = REFERENCE @ [''inventory'']"

section \<open>Building, booting, inspecting and exporting\<close>

definition build_reference ::
  "(string \<Rightarrow> string) \<Rightarrow> (string \<Rightarrow> pv result) \<Rightarrow> script_run \<Rightarrow> (tree, pv) eff" where
  "build_reference sha loads r =
     after_script ''reference build'' r (\<lambda>printed.
       ebind (reading (sha256_file sha (path_at printed))) (\<lambda>digest.
       ebind (reading (\<lambda>fs.
         if exists_at fs INSTALLER_MANIFEST
         then rbind (read_document loads INSTALLER_MANIFEST fs) (\<lambda>m.
              rbind (py_get m ''custom_iso'' PNone) (\<lambda>v. Inr [(''installer'', v)]))
         else Inr [])) (\<lambda>installer.
         eret (PDict ([(''image'', PStr printed), (''sha256'', PStr digest),
           (''log'', PStr ''artifacts/reference/install.log'')] @ installer)))))"

definition boot_reference ::
  "(real \<Rightarrow> string) \<Rightarrow> host \<Rightarrow> qemu_profile \<Rightarrow> string \<Rightarrow> string \<Rightarrow> connect_tick list \<Rightarrow> serial_tick list \<Rightarrow>
     (machine, pv) eff" where
  "boot_reference fr host p run_id work_dir =
     boot_check fr host p run_id work_dir (join ''/'' IMAGE) 1 ''OSBENCH_READY'' None"

text \<open>\<open>virt_copy_out\<close> says whether the tool is found; without it the running system is inspected.\<close>

definition inventory_reference ::
  "inspected \<Rightarrow> (string \<Rightarrow> string) \<Rightarrow> (pv \<Rightarrow> string) \<Rightarrow> (string \<Rightarrow> pv result) \<Rightarrow> bool \<Rightarrow> script_run \<Rightarrow> pv \<Rightarrow>
     (tree, pv) eff" where
  "inventory_reference h sha dumps loads virt_copy_out r profile fs =
     (if (\<exists>s. map_of fs IMAGE = Some (Plain s)) \<and> virt_copy_out
      then after_script ''reference inventory'' r (\<lambda>printed.
        ebind (reading (read_document loads (path_at printed @ [''manifest.json'']))) (\<lambda>m.
          if \<not> is_dict m then eraise (TypeError ''object is not a mapping'')
          else eret (PDict (merge_fields (items_of m) [(''output'', PStr printed), (''profile'', profile)])))) fs
      else leaving (collect_reference h sha dumps INVENTORY profile) fs)"

definition OCI_LAYOUT :: path where
  "OCI_LAYOUT = REFERENCE @ [''oci-layout'']"

definition OCI_ARCHIVE :: path where
  "OCI_ARCHIVE = REFERENCE @ [''osbench-reference-13.6-v0.1.oci.tar'']"

definition oci_report :: "oci_layout \<Rightarrow> pv" where
  "oci_report l =
     PDict [(''layout'', PStr (join ''/'' OCI_LAYOUT)), (''archive'', PStr (join ''/'' OCI_ARCHIVE)),
            (''manifest_digest'', PStr (oc_manifest_digest l)), (''rootfs_digest'', PStr (oc_rootfs_digest l))]"

definition export_rootfs ::
  "(string \<Rightarrow> string) \<Rightarrow> (pv \<Rightarrow> string) \<Rightarrow> (pv \<Rightarrow> string) \<Rightarrow> script_run \<Rightarrow> (tree, pv) eff" where
  "export_rootfs sha canonical dumps r =
     after_script ''rootfs export'' r (\<lambda>printed.
       ebind (leaving (\<lambda>fs. rbind (build_oci_layout sha canonical dumps (path_at printed) OCI_LAYOUT True fs)
           (\<lambda>l. Inr (oc_tree l, l)))) (\<lambda>l.
       ebind (reading (sha256_file sha (path_at printed))) (\<lambda>digest.
         eret (PDict [(''rootfs'', PStr printed), (''sha256'', PStr digest), (''oci'', oci_report l),
           (''docker_build'', PStr ''docker build -f reference/oci/Dockerfile -t osbench-reference:13.6-v0.1 .''),
           (''docker_run'', PStr ''docker run --rm -it osbench-reference:13.6-v0.1'')]))))"

section \<open>What the lock is realized from\<close>

text \<open>
  Outside the repository: the package list of the container with its text, the first lines of the
  version texts of the two tools that are found, and the firmware.
\<close>

record surroundings =
  su_container :: "string option"
  su_qemu_version :: "(string \<times> string) option"
  su_xorriso_version :: "(string \<times> string) option"
  su_ovmf :: "string option"

definition first_version_line :: "string \<times> string \<Rightarrow> pv" where
  "first_version_line outputs =
     (case text_lines False [] (if fst outputs = [] then snd outputs else fst outputs) of
        [] \<Rightarrow> PNone | line # _ \<Rightarrow> PStr line)"

text \<open>A file that need not exist: \<open>if path.exists(): f(path)\<close>.\<close>

definition if_exists :: "(path \<Rightarrow> tree \<Rightarrow> 'a result) \<Rightarrow> path \<Rightarrow> tree \<Rightarrow> 'a option result" where
  "if_exists f p fs = (if exists_at fs p then rbind (f p fs) (\<lambda>v. Inr (Some v)) else Inr None)"

text \<open>The calibration of the profile; a document that cannot be parsed is left out.\<close>

definition calibration_file ::
  "(string \<Rightarrow> string) \<Rightarrow> (string \<Rightarrow> pv result) \<Rightarrow> string \<Rightarrow> tree \<Rightarrow> (string \<times> pv result) option" where
  "calibration_file sha loads profile fs =
     (case map_of fs (path_at (calibration_path profile)) of
        Some (Plain s) \<Rightarrow> Some (sha s, loads s)
      | _ \<Rightarrow> None)"

definition lock_findings ::
  "(string \<Rightarrow> string) \<Rightarrow> (string \<Rightarrow> pv result) \<Rightarrow> surroundings \<Rightarrow> string \<Rightarrow> tree \<Rightarrow> findings result" where
  "lock_findings sha loads su profile fs =
     rbind (if_exists (read_document loads) INSTALLER_MANIFEST fs) (\<lambda>installer.
     rbind (if_exists (sha256_file sha) IMAGE fs) (\<lambda>img.
     rbind (if_exists (read_document loads) (INVENTORY @ [''manifest.json'']) fs) (\<lambda>inventory.
     rbind (if_exists read_bytes (INVENTORY @ [''packages.tsv'']) fs) (\<lambda>packages.
     rbind (if_exists (sha256_file sha) (REFERENCE @ [''debian-13.6-rootfs.tar'']) fs) (\<lambda>rootfs.
     rbind (if_exists (sha256_file sha) OCI_ARCHIVE fs) (\<lambda>archive.
     rbind (if_exists (sha256_file sha) [''artifacts'', ''workloads'', ''SHA256SUMS''] fs) (\<lambda>workloads.
     rbind (if_exists (sha256_file sha) [''artifacts'', ''probes'', ''SHA256SUMS''] fs) (\<lambda>probes.
     rbind (if_exists (sha256_file sha) [''artifacts'', ''payload'', ''osbench-payload.iso''] fs) (\<lambda>payload.
       Inr \<lparr>fd_container = map_option (\<lambda>t. (sha t, t)) (su_container su), fd_installer = installer, fd_image = img,
            fd_inventory = inventory, fd_packages = packages,
            fd_qemu_version = map_option first_version_line (su_qemu_version su),
            fd_xorriso_version = map_option first_version_line (su_xorriso_version su),
            fd_ovmf = map_option sha (su_ovmf su), fd_rootfs = rootfs, fd_oci_archive = archive,
            fd_workloads = workloads, fd_probes = probes, fd_payload = payload,
            fd_calibration = calibration_file sha loads profile fs\<rparr>)))))))))"

definition REALIZED_LOCK :: path where
  "REALIZED_LOCK = REFERENCE @ [''lock.realized.json'']"

text \<open>\<open>realize_lock\<close> on the files: the lock of the sources is read, the realized one is written.\<close>

definition realize_lock_file ::
  "(string \<Rightarrow> string) \<Rightarrow> (string \<Rightarrow> pv result) \<Rightarrow> (pv \<Rightarrow> string) \<Rightarrow> surroundings \<Rightarrow> string \<Rightarrow> (tree, pv) eff" where
  "realize_lock_file sha loads dumps su profile =
     ebind (reading (read_document loads LOCK_PATH)) (\<lambda>lock.
     ebind (reading (lock_findings sha loads su profile)) (\<lambda>fd.
     ebind (elift (realize_lock profile fd lock)) (\<lambda>l.
     ebind (leaving (\<lambda>fs. rbind (mkdirs REFERENCE fs) (\<lambda>fs.
         rbind (write_bytes REALIZED_LOCK (dumps (rl_document l)) fs) (\<lambda>fs. Inr (fs, ()))))) (\<lambda>_.
       eret (PDict [(''status'', PStr (rl_status l)), (''output'', PStr (join ''/'' REALIZED_LOCK)),
                    (''resolved'', PDict (rl_fields l))])))))"

end
