(* ===== verification/Tracing.thy ===== *)
theory Tracing
  imports Oci
begin

text \<open>
  \<open>tracing.py\<close> and \<open>tools/tracing/trace_workloads.py\<close>: one workload is run under \<open>strace\<close> when the
  tool is found and without it otherwise; the script traces a list of workloads and goes on after a
  failure. What running a command gives is an input: its return code and outputs and the names of
  the trace files it leaves in the output directory. \<open>loads\<close> parses a manifest, \<open>dumps\<close> is the text
  of \<open>write_json\<close>; a workload's name has no slash.
\<close>

record completed =
  cp_returncode :: int
  cp_stdout :: string
  cp_stderr :: string
  cp_traces :: "(string \<times> string) list"

record tracer =
  tr_strace :: "string option"
  tr_execute :: "string list \<Rightarrow> completed"
  tr_duration :: "string \<Rightarrow> int"

definition manifest_path :: "string \<Rightarrow> path" where
  "manifest_path name = [''workloads'', ''manifests'', name @ ''.yaml'']"

definition traced_command :: "tracer \<Rightarrow> path \<Rightarrow> string \<Rightarrow> string list" where
  "traced_command t output command =
     (case tr_strace t of
        Some strace \<Rightarrow>
          if strace \<noteq> []
          then [strace, ''-ff'', ''-ttt'', ''-yy'', ''-s'', ''256'', ''-o'', join ''/'' (output @ [''strace'']),
                ''/bin/sh'', ''-c'', command]
          else [''/bin/sh'', ''-c'', command]
      | None \<Rightarrow> [''/bin/sh'', ''-c'', command])"

definition strace_found :: "tracer \<Rightarrow> bool" where
  "strace_found t \<longleftrightarrow> (case tr_strace t of Some s \<Rightarrow> s \<noteq> [] | None \<Rightarrow> False)"

text \<open>\<open>sorted(path.name for path in output.glob("strace*"))\<close>.\<close>

definition trace_files :: "path \<Rightarrow> tree \<Rightarrow> string list" where
  "trace_files output fs =
     sort (map last (filter (\<lambda>p. p \<noteq> [] \<and> butlast p = output \<and> prefix ''strace'' (last p)) (map fst fs)))"

definition leave_traces :: "path \<Rightarrow> (string \<times> string) list \<Rightarrow> tree \<Rightarrow> tree" where
  "leave_traces output traces fs = foldl (\<lambda>fs (n, s). AList.update (output @ [n]) (Plain s) fs) fs traces"

definition trace_result ::
  "tracer \<Rightarrow> string \<Rightarrow> pv \<Rightarrow> pv \<Rightarrow> string \<Rightarrow> path \<Rightarrow> completed \<Rightarrow> tree \<Rightarrow> pv" where
  "trace_result t name profile document command output c fs =
     PDict [(''schema_version'', PStr ''osbench.trace.v1''), (''workload'', PStr name), (''profile'', profile),
       (''command'', PStr command), (''returncode'', PInt (cp_returncode c)), (''stdout'', PStr (cp_stdout c)),
       (''stderr'', PStr (cp_stderr c)), (''duration_ns'', PInt (tr_duration t name)),
       (''strace_available'', PBool (strace_found t)),
       (''trace_files'', PList (map PStr (trace_files output fs))),
       (''contracts'', pget_default document ''contracts'' (PList [])), (''output'', PStr (join ''/'' output))]"

definition trace_workload ::
  "(real \<Rightarrow> string) \<Rightarrow> (string \<Rightarrow> pv result) \<Rightarrow> (pv \<Rightarrow> string) \<Rightarrow> tracer \<Rightarrow> string \<Rightarrow> path option \<Rightarrow> pv \<Rightarrow>
     (tree, pv) eff" where
  "trace_workload fr loads dumps t name output profile =
     (\<lambda>fs. if \<not> exists_at fs (manifest_path name) then (Inl (FileNotFoundError (join ''/'' (manifest_path name))), fs) else
      ebind (elift (read_document loads (manifest_path name) fs)) (\<lambda>document.
      ebind (elift (rbind (py_item document ''command'') (\<lambda>v. Inr (py_str fr v)))) (\<lambda>command.
        (let output = (case output of Some p \<Rightarrow> p | None \<Rightarrow> [''artifacts'', ''traces'', name]) in
         (\<lambda>fs. case mkdirs output fs of
            Inl e \<Rightarrow> (Inl e, fs)
          | Inr fs \<Rightarrow>
              (let c = tr_execute t (traced_command t output command);
                   fs = leave_traces output (cp_traces c) fs;
                   result = trace_result t name profile document command output c fs
               in case write_bytes (output @ [''result.json'']) (dumps result) fs of
                    Inl e \<Rightarrow> (Inl e, fs)
                  | Inr fs \<Rightarrow> (Inr result, fs)))))) fs)"

section \<open>The script\<close>

definition failed_trace :: "string \<Rightarrow> exn \<Rightarrow> pv" where
  "failed_trace name e =
     PDict [(''workload'', PStr name), (''error'', PStr (exn_name e @ '': '' @ exn_message e))]"

fun trace_all :: "(string \<Rightarrow> (tree, pv) eff) \<Rightarrow> string list \<Rightarrow> tree \<Rightarrow> pv list \<times> tree" where
  "trace_all trace [] fs = ([], fs)"
| "trace_all trace (name # names) fs =
     (case trace name fs of
        (Inl e, fs) \<Rightarrow> (case trace_all trace names fs of (results, fs) \<Rightarrow> (failed_trace name e # results, fs))
      | (Inr r, fs) \<Rightarrow> (case trace_all trace names fs of (results, fs) \<Rightarrow> (r # results, fs)))"

definition workload_names :: "tree \<Rightarrow> string list" where
  "workload_names fs =
     sort (map (\<lambda>p. take (length (last p) - 5) (last p))
       (filter (\<lambda>p. p \<noteq> [] \<and> butlast p = [''workloads'', ''manifests''] \<and> suffix ''.yaml'' (last p)) (map fst fs)))"

definition trace_workloads ::
  "(real \<Rightarrow> string) \<Rightarrow> (string \<Rightarrow> pv result) \<Rightarrow> (pv \<Rightarrow> string) \<Rightarrow> tracer \<Rightarrow> string list \<Rightarrow> pv \<Rightarrow> tree \<Rightarrow>
     (pv \<times> int) \<times> tree" where
  "trace_workloads fr loads dumps t names profile fs =
     (case trace_all (\<lambda>name. trace_workload fr loads dumps t name None profile)
             (if names = [] then workload_names fs else names) fs of
        (results, fs) \<Rightarrow>
          ((PDict [(''results'', PList results)], if list_ex (\<lambda>r. pget r ''error'' \<noteq> None) results then 1 else 0), fs))"

section \<open>Tracing goes on after a failure\<close>

lemma trace_workload_result:
  assumes "trace_workload fr loads dumps t name output profile fs = (Inr r, gs)"
  shows "pget r ''workload'' = Some (PStr name)" and "pget r ''error'' = None"
  using assms
  by (auto simp: trace_workload_def ebind_eq Let_def trace_result_def pget_def split: if_splits sum.splits)

lemma trace_all_results:
  "trace_all trace names fs = (results, gs) \<Longrightarrow>
   (\<And>name fs r gs. trace name fs = (Inr r, gs) \<Longrightarrow> pget r ''workload'' = Some (PStr name) \<and> pget r ''error'' = None) \<Longrightarrow>
   map (\<lambda>r. pget r ''workload'') results = map (\<lambda>n. Some (PStr n)) names"
  by (induction names arbitrary: fs results gs)
    (auto simp: failed_trace_def pget_def split: prod.splits sum.splits)

text \<open>
  The tracing script answers for every workload it was given, in their order, whatever becomes
  of the earlier ones, and its exit status is zero exactly when each of them could be traced; the
  return code of a workload plays no part in it.
\<close>

theorem tracing_answers_all:
  assumes "names \<noteq> []" and "trace_workloads fr loads dumps t names profile fs = ((report, status), gs)"
  shows "\<exists>results. report = PDict [(''results'', PList results)] \<and>
     map (\<lambda>r. pget r ''workload'') results = map (\<lambda>n. Some (PStr n)) names \<and>
     (status = 0 \<longleftrightarrow> (\<forall>r\<in>set results. pget r ''error'' = None)) \<and> status \<in> {0, 1}"
proof -
  obtain results where r: "trace_all (\<lambda>name. trace_workload fr loads dumps t name None profile) names fs = (results, gs)"
    "report = PDict [(''results'', PList results)]"
    "status = (if list_ex (\<lambda>r. pget r ''error'' \<noteq> None) results then 1 else 0)"
    using assms by (auto simp: trace_workloads_def split: prod.splits)
  from trace_all_results [OF r(1)] trace_workload_result show ?thesis
    unfolding r(2,3) by (auto simp: list_ex_iff)
qed

definition demo_tracer :: tracer where
  "demo_tracer =
     \<lparr>tr_strace = None, tr_execute = (\<lambda>_. \<lparr>cp_returncode = 7, cp_stdout = [], cp_stderr = [], cp_traces = []\<rparr>),
      tr_duration = (\<lambda>_. 1)\<rparr>"

definition demo_workloads :: tree where
  "demo_workloads =
     [([], Folder), ([''workloads''], Folder), ([''workloads'', ''manifests''], Folder),
      ([''workloads'', ''manifests'', ''git.yaml''], Plain ''m'')]"

text \<open>A workload that fails, one without a manifest, and the first again.\<close>

theorem tracing_answers_all_witness:
  "\<exists>report gs results. trace_workloads (\<lambda>_. []) (\<lambda>_. Inr (PDict [(''command'', PStr ''false'')])) (\<lambda>_. ''r'')
       demo_tracer [''git'', ''ssh'', ''git''] PNone demo_workloads = ((report, 1), gs) \<and>
     report = PDict [(''results'', PList results)] \<and> length results = 3 \<and>
     (\<exists>r\<in>set results. pget r ''error'' \<noteq> None)"
proof -
  let ?run = "trace_workloads (\<lambda>_. []) (\<lambda>_. Inr (PDict [(''command'', PStr ''false'')])) (\<lambda>_. ''r'')
    demo_tracer [''git'', ''ssh'', ''git''] PNone demo_workloads"
  have "snd (fst ?run) = 1" by code_simp
  then obtain report gs where run: "?run = ((report, 1), gs)" by (metis prod.collapse)
  from tracing_answers_all [OF _ run] obtain results where r: "report = PDict [(''results'', PList results)]"
    "map (\<lambda>r. pget r ''workload'') results = map (\<lambda>n. Some (PStr n)) [''git'', ''ssh'', ''git'']"
    "\<exists>r\<in>set results. pget r ''error'' \<noteq> None" by auto
  from arg_cong [OF r(2), of length] have "length results = 3" by simp
  with run r show ?thesis by blast
qed

end
