(* ===== verification/Cli.thy ===== *)
theory Cli
  imports ReferenceTools CycleCheck Graph Dataset Payload Preflight FullSelftest Perturbations Tracing Trajectory
begin

text \<open>
  \<open>cli.py\<close>: the commands. A command has options that are checked before its function is called, and a
  body that runs a component on its own state (files, targets, machines), shows documents and ends with
  the exit status 0, or with 1 when it raises. What a component reads from outside its state is an
  argument, as in its own theory.
\<close>

section \<open>Commands\<close>

record 's session =
  se_world :: 's
  se_shown :: "pv list"

record 's cli_command =
  co_accepted :: bool
  co_body :: "('s session, unit) eff"

definition on_world :: "('s, 'a) eff \<Rightarrow> ('s session, 'a) eff" where
  "on_world m s = (case m (se_world s) of (r, w) \<Rightarrow> (r, s\<lparr>se_world := w\<rparr>))"

definition emit :: "pv \<Rightarrow> ('s session, unit) eff" where
  "emit v = emodify (\<lambda>s. s\<lparr>se_shown := se_shown s @ [v]\<rparr>)"

text \<open>\<open>raise typer.Exit(1)\<close>.\<close>

definition exit_if :: "bool \<Rightarrow> ('s session, unit) eff" where
  "exit_if b = (if b then eraise (OtherError ''Exit'' ''1'') else eret ())"

definition command :: "bool \<Rightarrow> ('s session, unit) eff \<Rightarrow> 's cli_command" where
  "command ok body = \<lparr>co_accepted = ok, co_body = body\<rparr>"

text \<open>The pattern of most commands: a report is made and shown, and a bad one ends with status 1.\<close>

definition reporting :: "('s, 'a) eff \<Rightarrow> ('a \<Rightarrow> pv) \<Rightarrow> ('a \<Rightarrow> bool) \<Rightarrow> ('s session, unit) eff" where
  "reporting m form bad = ebind (on_world m) (\<lambda>r. eseq (emit (form r)) (exit_if (bad r)))"

definition showing :: "('s, pv) eff \<Rightarrow> ('s session, unit) eff" where
  "showing m = ebind (on_world m) emit"

text \<open>The exit status, the documents shown and the state: a rejected option ends with status 2.\<close>

definition invoke :: "'s cli_command \<Rightarrow> 's \<Rightarrow> int \<times> pv list \<times> 's" where
  "invoke c w =
     (if \<not> co_accepted c then (2, [], w)
      else (case co_body c \<lparr>se_world = w, se_shown = []\<rparr> of (r, s) \<Rightarrow>
        (case r of Inr _ \<Rightarrow> 0 | Inl _ \<Rightarrow> 1, se_shown s, se_world s)))"

definition at_least :: "int \<Rightarrow> int option \<Rightarrow> bool" where
  "at_least l n \<longleftrightarrow> (case n of None \<Rightarrow> True | Some x \<Rightarrow> l \<le> x)"

definition strs :: "string list \<Rightarrow> pv" where
  "strs xs = PList (map PStr xs)"

section \<open>doctor and contracts\<close>

definition issue_json :: "issue \<Rightarrow> pv" where
  "issue_json i = PDict [(''path'', PStr (i_path i)), (''message'', PStr (i_message i))]"

record workstation =
  wk_python :: string
  wk_platform :: string
  wk_machine :: string
  wk_root :: string
  wk_which :: "string \<Rightarrow> string option"
  wk_exists :: "string \<Rightarrow> bool"

definition DOCTOR_TOOLS :: "string list" where
  "DOCTOR_TOOLS = [''docker'', ''qemu-system-x86_64'', ''qemu-img'', ''xorriso'', ''guestfish'', ''virt-copy-out'',
     ''strace'', ''gcc'', ''dpkg-deb'']"

definition doctor_report :: "workstation \<Rightarrow> report \<Rightarrow> pv" where
  "doctor_report h r =
     (let img = wk_root h @ ''/'' @ join ''/'' IMAGE;
          guest = length (filter (\<lambda>c. c_transport c \<notin> Some ` {''host'', ''raw_syscall'', ''shell'', ''none''}) (r_contracts r))
      in PDict [(''python'', PStr (wk_python h)), (''platform'', PStr (wk_platform h)), (''machine'', PStr (wk_machine h)),
           (''root'', PStr (wk_root h)),
           (''tools'', PDict (map (\<lambda>n. (n, p_opt PStr (wk_which h n))) DOCTOR_TOOLS)),
           (''firmware'', strs (filter (wk_exists h) [''/usr/share/OVMF/OVMF_CODE_4M.fd'', ''/usr/share/OVMF/OVMF_CODE.fd''])),
           (''reference_image'', PStr img), (''reference_image_exists'', PBool (wk_exists h img)),
           (''contracts'', p_nat (length (r_contracts r))),
           (''contract_issues'', PList (map issue_json (r_issues r))),
           (''host_mapped'', PInt (int (length (r_contracts r)) - int guest)), (''guest_only'', p_nat guest)])"

definition doctor_fails :: "bool \<Rightarrow> pv \<Rightarrow> bool" where
  "doctor_fails strict report \<longleftrightarrow>
     truthy (pget_default report ''contract_issues'' PNone) \<or>
     strict \<and> (\<not> truthy (pget_default (pget_default report ''tools'' PNone) ''qemu-system-x86_64'' PNone) \<or>
       \<not> truthy (pget_default report ''firmware'' PNone))"

definition doctor :: "workstation \<Rightarrow> report result \<Rightarrow> bool \<Rightarrow> 's cli_command" where
  "doctor h validated strict =
     command True (reporting (elift (rbind validated (\<lambda>r. Inr (doctor_report h r)))) (\<lambda>v. v) (doctor_fails strict))"

definition stats_json :: "string \<Rightarrow> report \<Rightarrow> pv" where
  "stats_json corpus_sha256 r =
     PDict [(''contracts'', p_nat (length (r_contracts r))), (''by_level'', p_dict p_nat (by_level (r_contracts r))),
            (''by_domain'', p_dict p_nat (by_domain (r_contracts r))),
            (''by_transport'', p_dict p_nat (by_transport (r_contracts r))), (''corpus_sha256'', PStr corpus_sha256)]"

definition contracts_validate :: "report result \<Rightarrow> string \<Rightarrow> 's cli_command" where
  "contracts_validate validated corpus_sha256 =
     command True (reporting (elift validated)
       (\<lambda>r. PDict [(''valid'', PBool (valid r)), (''stats'', stats_json corpus_sha256 r),
                   (''issues'', PList (map issue_json (r_issues r)))])
       (\<lambda>r. \<not> valid r))"

section \<open>dataset and payload\<close>

text \<open>What the dataset functions read, and where the rows of a profile are.\<close>

record 'g dataset_inputs =
  di_generation :: "'g generation"
  di_report :: "(bool \<times> pv list) result"
  di_loaded :: "pv list result"
  di_corpus_sha256 :: string
  di_file_sha256 :: "pv list \<Rightarrow> string"
  di_path :: "string \<Rightarrow> string"

definition build_from :: "'g dataset_inputs \<Rightarrow> string \<Rightarrow> int \<Rightarrow> int \<Rightarrow> (dataset_files, pv) eff" where
  "build_from i profile seed cases_per_contract =
     build_dataset (di_generation i) profile seed cases_per_contract (di_report i) (di_loaded i) (di_corpus_sha256 i)
       (di_file_sha256 i) (di_path i profile)"

definition dataset_build ::
  "'g dataset_inputs \<Rightarrow> string \<Rightarrow> int \<Rightarrow> int \<Rightarrow> bool \<Rightarrow> dataset_files cli_command" where
  "dataset_build i profile seed cases_per_contract determinism =
     command (1 \<le> cases_per_contract \<and> cases_per_contract \<le> 1000)
       (ebind (on_world (build_from i profile seed cases_per_contract)) (\<lambda>manifest.
          if determinism then
            ebind (elift (check_determinism (di_generation i) profile seed cases_per_contract (di_loaded i))) (\<lambda>same.
              eseq (emit (pset manifest ''deterministic'' (PBool same))) (exit_if (\<not> same)))
          else emit manifest))"

definition dataset_build_alias :: "'g dataset_inputs \<Rightarrow> string \<Rightarrow> int \<Rightarrow> int \<Rightarrow> dataset_files cli_command" where
  "dataset_build_alias i profile seed cases_per_contract =
     command True (showing (build_from i profile seed cases_per_contract))"

definition dataset_report_json :: "dataset_report \<Rightarrow> pv" where
  "dataset_report_json r =
     PDict ([(''valid'', PBool (dv_valid r))] @
       (case dv_case_count r of None \<Rightarrow> [] | Some n \<Rightarrow> [(''case_count'', p_nat n)]) @ [(''issues'', strs (dv_issues r))])"

definition dataset_validate ::
  "(real \<Rightarrow> string) \<Rightarrow> (pv list \<Rightarrow> string) \<Rightarrow> string list result \<Rightarrow> string \<Rightarrow> bool \<Rightarrow> dataset_files cli_command" where
  "dataset_validate fr file_sha256 known path public =
     command True (reporting (\<lambda>fs. (validate_dataset fr file_sha256 known path public fs, fs)) dataset_report_json
       (\<lambda>r. \<not> dv_valid r))"

definition payload_stage ::
  "(string \<Rightarrow> string) \<Rightarrow> (string \<Rightarrow> string) \<Rightarrow> (pv \<Rightarrow> string) \<Rightarrow> path option \<Rightarrow> tree cli_command" where
  "payload_stage hash hex dumps output =
     command True (showing (leaving (stage_payload hash hex dumps (case output of Some p \<Rightarrow> p | None \<Rightarrow> STAGING))))"

text \<open>The exit status of a report that is a document: \<open>not report["valid"]\<close>.\<close>

definition says :: "string \<Rightarrow> pv \<Rightarrow> bool" where
  "says k report \<longleftrightarrow> truthy (pget_default report k PNone)"

definition payload_validate ::
  "(string \<Rightarrow> string) \<Rightarrow> (string \<Rightarrow> string) \<Rightarrow> (string \<Rightarrow> pv result) \<Rightarrow> path option \<Rightarrow> tree cli_command" where
  "payload_validate hash hex loads p =
     command True (reporting
       (reading (validate_payload_tree hash hex loads (case p of Some q \<Rightarrow> q | None \<Rightarrow> STAGING))) (\<lambda>v. v) (\<lambda>v. \<not> says ''valid'' v))"

definition payload_build ::
  "(string \<Rightarrow> string) \<Rightarrow> (string \<Rightarrow> string) \<Rightarrow> (pv \<Rightarrow> string) \<Rightarrow> (int \<times> string \<times> string) option \<Rightarrow> string option \<Rightarrow> tree cli_command" where
  "payload_build hash hex dumps xorriso output = command True (showing (build_payload hash hex dumps xorriso output))"

section \<open>graph\<close>

definition outputs_json :: "string \<Rightarrow> graph_outputs \<Rightarrow> pv" where
  "outputs_json graph_sha256 g =
     PDict [(''nodes'', p_nat (length (g_nodes (o_graph g)))), (''edges'', p_nat (length (g_edges (o_graph g)))),
            (''acyclic'', PBool True), (''roots'', strs (o_roots g)),
            (''topological_order_count'', p_nat (o_order_count g)),
            (''graph'', PStr ''capability_graph/graph.yaml''), (''json'', PStr ''capability_graph/graph.json''),
            (''dot'', PStr ''capability_graph/graph.dot''),
            (''workload_matrix'', PStr ''capability_graph/workload_matrix.json''), (''graph_sha256'', PStr graph_sha256)]"

definition graph_build :: "report \<Rightarrow> pv \<Rightarrow> string \<Rightarrow> 's cli_command" where
  "graph_build r workloads graph_sha256 =
     command True (showing (elift (rbind (write_graph_outputs r workloads) (\<lambda>g. Inr (outputs_json graph_sha256 g)))))"

text \<open>A query that names what was asked and lists what was found.\<close>

definition listing :: "string \<Rightarrow> string \<Rightarrow> string \<Rightarrow> string list result \<Rightarrow> 's cli_command" where
  "listing asked name found ids =
     command True (showing (elift (rbind ids (\<lambda>xs. Inr (PDict [(asked, PStr name), (found, strs xs)])))))"

definition graph_prerequisites :: "contract list \<Rightarrow> string \<Rightarrow> bool \<Rightarrow> 's cli_command" where
  "graph_prerequisites cs contract_id direct =
     listing ''contract'' contract_id ''prerequisites'' (prerequisites cs contract_id (\<not> direct))"

definition graph_unlocked :: "contract list \<Rightarrow> string \<Rightarrow> bool \<Rightarrow> 's cli_command" where
  "graph_unlocked cs contract_id transitive =
     listing ''contract'' contract_id ''unlocked'' (unlocked_by cs contract_id transitive)"

definition graph_frontier :: "contract list \<Rightarrow> string \<Rightarrow> documents cli_command" where
  "graph_frontier cs results_path =
     command True (showing (ebind (read_json results_path) (\<lambda>doc.
       eret (PDict [(''results'', PStr results_path), (''frontier'', strs (frontier cs doc))]))))"

definition graph_workload :: "contract list \<Rightarrow> pv \<Rightarrow> string \<Rightarrow> 's cli_command" where
  "graph_workload cs workloads w = listing ''workload'' w ''contracts'' (contracts_for_workload cs workloads w)"

definition graph_blocked :: "contract list \<Rightarrow> pv \<Rightarrow> string \<Rightarrow> 's cli_command" where
  "graph_blocked cs workloads contract_id =
     listing ''contract'' contract_id ''workloads'' (workloads_for cs workloads contract_id)"

section \<open>reference\<close>

definition reference_build :: "(string \<Rightarrow> string) \<Rightarrow> (string \<Rightarrow> pv result) \<Rightarrow> script_run \<Rightarrow> tree cli_command" where
  "reference_build sha loads r = command True (showing (build_reference sha loads r))"

definition reference_boot ::
  "(real \<Rightarrow> string) \<Rightarrow> host \<Rightarrow> qemu_profile \<Rightarrow> string \<Rightarrow> string \<Rightarrow> connect_tick list \<Rightarrow> serial_tick list \<Rightarrow> machine cli_command" where
  "reference_boot fr host p run_id work_dir connecting ticks =
     command True (showing (boot_reference fr host p run_id work_dir connecting ticks))"

definition reference_inventory ::
  "inspected \<Rightarrow> (string \<Rightarrow> string) \<Rightarrow> (pv \<Rightarrow> string) \<Rightarrow> (string \<Rightarrow> pv result) \<Rightarrow> bool \<Rightarrow> script_run \<Rightarrow> string option \<Rightarrow> tree cli_command" where
  "reference_inventory h sha dumps loads virt_copy_out r profile =
     command True (showing (inventory_reference h sha dumps loads virt_copy_out r (p_opt PStr profile)))"

text \<open>\<open>form\<close> is the document of a preflight report, which also lists the artifacts and tools it was made from.\<close>

definition reference_preflight ::
  "(preflight_report \<Rightarrow> pv) \<Rightarrow> (real \<Rightarrow> string) \<Rightarrow> (string \<Rightarrow> int option) \<Rightarrow> qemu_profile \<Rightarrow> pv \<Rightarrow> bool \<Rightarrow> installation \<Rightarrow>
     bool \<Rightarrow> bool \<Rightarrow> 's cli_command" where
  "reference_preflight form fr fi p lock source_lock_valid inst verify_hashes strict =
     command True (reporting (elift (preflight_reference fr fi verify_hashes p lock source_lock_valid inst)) form
       (\<lambda>r. strict \<and> \<not> pf_materialization_ready r))"

definition reference_calibrate_unsynced ::
  "('r, 'w) env \<Rightarrow> 'g generation \<Rightarrow> calibration_setup \<Rightarrow> ('r target \<times> 'w) cli_command" where
  "reference_calibrate_unsynced env gn cb =
     command (2 \<le> cb_trials cb \<and> cb_trials cb \<le> 1000) (showing (calibrate_unsynced_outcomes env gn cb))"

definition reference_calibrate_unsynced_alias ::
  "('r, 'w) env \<Rightarrow> 'g generation \<Rightarrow> calibration_setup \<Rightarrow> ('r target \<times> 'w) cli_command" where
  "reference_calibrate_unsynced_alias env gn cb =
     command (2 \<le> cb_trials cb) (co_body (reference_calibrate_unsynced env gn cb))"

definition reference_lock_sources ::
  "(string \<Rightarrow> string) \<Rightarrow> (string \<Rightarrow> string) \<Rightarrow> (pv \<Rightarrow> string) \<Rightarrow> (string \<Rightarrow> pv result) \<Rightarrow> bool \<Rightarrow> tree cli_command" where
  "reference_lock_sources hash hex dumps loads check =
     command True (reporting (synchronize_source_lock hash hex dumps loads check) (\<lambda>v. v) (\<lambda>v. check \<and> \<not> says ''valid'' v))"

definition reference_lock_realize ::
  "(string \<Rightarrow> string) \<Rightarrow> (string \<Rightarrow> pv result) \<Rightarrow> (pv \<Rightarrow> string) \<Rightarrow> surroundings \<Rightarrow> string \<Rightarrow> tree cli_command" where
  "reference_lock_realize sha loads dumps su profile =
     command True (showing (realize_lock_file sha loads dumps su profile))"

definition reference_export_oci ::
  "(string \<Rightarrow> string) \<Rightarrow> (pv \<Rightarrow> string) \<Rightarrow> (pv \<Rightarrow> string) \<Rightarrow> script_run \<Rightarrow> tree cli_command" where
  "reference_export_oci sha canonical dumps r = command True (showing (export_rootfs sha canonical dumps r))"

section \<open>oracle, eval and smoke\<close>

text \<open>An evaluation with its configuration read and its run bound to an environment, as \<open>Evaluate\<close> has it.\<close>

type_synonym ('r, 'w) evaluator = "request \<Rightarrow> 'w \<Rightarrow> stored_document result \<times> ('r, 'w) run_state option"

definition summary_json :: "string \<Rightarrow> stored_document \<Rightarrow> pv" where
  "summary_json output d =
     PDict [(''output'', PStr output), (''scores'', scores_json (d_scores d)), (''selection'', selection_json (d_selection d))]"

text \<open>\<open>any(not case["passed"] for case in result["cases"])\<close>.\<close>

definition any_failed :: "stored_document \<Rightarrow> bool" where
  "any_failed d \<longleftrightarrow> list_ex (\<lambda>r. \<not> r_passed r) (d_cases d)"

definition judged :: "('r, 'w) evaluator \<Rightarrow> string \<Rightarrow> request \<Rightarrow> 'w \<Rightarrow> (('r, 'w) run_state option session, unit) eff" where
  "judged ev output q w = reporting (\<lambda>_. ev q w) (summary_json output) any_failed"

definition eval_command ::
  "('r, 'w) evaluator \<Rightarrow> string \<Rightarrow> request \<Rightarrow> int option \<Rightarrow> 'w \<Rightarrow> ('r, 'w) run_state option cli_command" where
  "eval_command ev output q progress_every w =
     command (at_least 1 (q_max_cases q) \<and> 1 \<le> q_shard_count q \<and> 0 \<le> q_shard_index q \<and> at_least 1 progress_every)
       (judged ev output q w)"

definition smoke :: "('r, 'w) evaluator \<Rightarrow> 'w \<Rightarrow> ('r, 'w) run_state option cli_command" where
  "smoke ev w = command True (judged ev ''results/smoke.json''
     \<lparr>q_target = ''reference'', q_reference = ''reference'', q_max_cases = None, q_one_per_contract = True,
      q_shard_count = 1, q_shard_index = 0\<rparr> w)"

definition oracle_selftest ::
  "(request \<Rightarrow> run_config result) \<Rightarrow> (run_config \<Rightarrow> 'w \<Rightarrow> result_document result \<times> ('r, 'w) run_state) \<Rightarrow>
     'w \<Rightarrow> ('r, 'w) run_state option cli_command" where
  "oracle_selftest prep run w =
     command True (reporting (\<lambda>_. selftest prep run w) (summary_json ''results/oracle-selftest.json'') any_failed)"

text \<open>\<open>{**validation, "shard_errors": errors}\<close>, or what is reported when no shard has completed.\<close>

definition validation_json :: "validation \<Rightarrow> (string \<times> pv) list" where
  "validation_json v =
     [(''valid'', PBool (w_valid v)), (''issues'', strs (w_issues v)), (''summary'', p_opt (\<lambda>d. d) (w_summary v))]"

definition selftest_json :: "string \<Rightarrow> string \<Rightarrow> real \<Rightarrow> selftest_report \<Rightarrow> pv result" where
  "selftest_json run_id output elapsed x =
     (case x_merged x of
        None \<Rightarrow> Inr (PDict
          [(''output'', PStr output), (''report'', PDict [(''valid'', PBool (x_valid x)), (''issues'', strs (x_issues x))]),
           (''scores'', PDict []), (''selection'', PDict []), (''elapsed_seconds'', PFloat elapsed)])
      | Some d \<Rightarrow> rbind (validate_results (Inr (document_json run_id d))) (\<lambda>v.
          Inr (PDict
            [(''output'', PStr output), (''report'', PDict (validation_json v @ [(''shard_errors'', strs (x_shard_errors x))])),
             (''scores'', scores_json (d_scores d)), (''selection'', selection_json (d_selection d)),
             (''elapsed_seconds'', PFloat elapsed)])))"

record selftest_options =
  so_shard_count :: int
  so_jobs :: "int option"
  so_timeout :: real
  so_progress_every :: int
  so_worker_max_cases :: int
  so_max_cases_per_shard :: "int option"

definition selftest_accepted :: "selftest_options \<Rightarrow> bool" where
  "selftest_accepted so \<longleftrightarrow> 1 \<le> so_shard_count so \<and> at_least 1 (so_jobs so) \<and> 1 \<le> so_timeout so \<and>
     1 \<le> so_progress_every so \<and> 1 \<le> so_worker_max_cases so \<and> at_least 1 (so_max_cases_per_shard so)"

text \<open>\<open>run\<close> gives the outcome of each shard for the two options that select its cases.\<close>

definition oracle_full_selftest ::
  "(real \<Rightarrow> string) \<Rightarrow> scoring_config \<Rightarrow> corpus \<Rightarrow> string \<Rightarrow> int option \<Rightarrow>
     (bool \<Rightarrow> int option \<Rightarrow> int \<Rightarrow> nat \<Rightarrow> stored_document result) \<Rightarrow> (nat \<Rightarrow> real) \<Rightarrow> real \<Rightarrow>
     string option \<Rightarrow> bool \<Rightarrow> selftest_options \<Rightarrow> 's cli_command" where
  "oracle_full_selftest fg conf contracts run_id cpus run finish elapsed output one_per_contract so =
     command (selftest_accepted so)
       (ebind (elift (run_full_local_selftest fg conf contracts run_id cpus (so_jobs so) (so_timeout so) (so_shard_count so)
           (run one_per_contract (so_max_cases_per_shard so) (so_shard_count so)) finish)) (\<lambda>x.
          reporting (elift (selftest_json run_id
              (case output of Some p \<Rightarrow> p | None \<Rightarrow> ''results/full-local-selftest.json'') elapsed x))
            (\<lambda>v. v) (\<lambda>_. \<not> x_passed x)))"

definition perturbation_json :: "perturbation \<Rightarrow> pv" where
  "perturbation_json p =
     PDict [(''index'', p_nat (pt_index p)), (''detected'', PBool (pt_detected p)), (''difference'', p_opt (\<lambda>d. d) (pt_difference p))]"

definition oracle_perturbation_selftest :: "(real \<Rightarrow> string) \<Rightarrow> (string \<Rightarrow> real option) \<Rightarrow> int \<Rightarrow> 's cli_command" where
  "oracle_perturbation_selftest fr fp limit =
     command (1 \<le> limit \<and> limit \<le> 100) (reporting (elift (perturbation_selftest fr fp limit))
       (\<lambda>(passed, ps). PDict [(''passed'', PBool passed), (''perturbations'', PList (map perturbation_json ps))])
       (\<lambda>(passed, ps). \<not> passed))"

section \<open>results, trace and trajectory\<close>

definition results_summarize :: "string \<Rightarrow> documents cli_command" where
  "results_summarize p = command True (showing (ebind (read_json p) (\<lambda>doc. elift (summarize doc))))"

definition results_validate :: "string \<Rightarrow> documents cli_command" where
  "results_validate p =
     command True (reporting (\<lambda>s. (rbind (validate_results (fst (read_json p s))) (\<lambda>v. Inr (v, fst (read_json p s))), s))
       (\<lambda>(v, input). PDict (case input of
          Inl _ \<Rightarrow> [(''valid'', PBool False), (''issues'', strs (w_issues v))] | Inr _ \<Rightarrow> validation_json v))
       (\<lambda>(v, input). \<not> w_valid v))"

text \<open>The result files that are merged hold documents that an evaluation has written.\<close>

definition results_merge ::
  "(real \<Rightarrow> string) \<Rightarrow> scoring_config \<Rightarrow> corpus \<Rightarrow> string \<Rightarrow> stored_document list \<Rightarrow> 's cli_command" where
  "results_merge fg conf contracts output docs =
     command True (showing (elift (rbind (merge_results fg conf contracts docs) (\<lambda>d. Inr (summary_json output d)))))"

definition trace_workload_command ::
  "(real \<Rightarrow> string) \<Rightarrow> (string \<Rightarrow> pv result) \<Rightarrow> (pv \<Rightarrow> string) \<Rightarrow> tracer \<Rightarrow> string \<Rightarrow> string option \<Rightarrow> tree cli_command" where
  "trace_workload_command fr loads dumps t name profile =
     command True (showing (trace_workload fr loads dumps t name None (p_opt PStr profile)))"

definition trajectory_init_command ::
  "(real \<Rightarrow> string) \<Rightarrow> string \<Rightarrow> string option \<Rightarrow> string option \<Rightarrow> int \<Rightarrow> documents cli_command" where
  "trajectory_init_command fr generated p run_id now = command True (showing (trajectory_init fr generated p run_id now))"

definition trajectory_record_command ::
  "(real \<Rightarrow> string) \<Rightarrow> string \<Rightarrow> string \<Rightarrow> tnote \<Rightarrow> documents cli_command" where
  "trajectory_record_command fr generated p e = command True (showing (trajectory_record fr generated p e))"

definition trajectory_summarize_command :: "string \<Rightarrow> documents cli_command" where
  "trajectory_summarize_command p = command True (showing (trajectory_summarize p))"

section \<open>Aliases at the top level\<close>

text \<open>The aliases repeat the bodies of the commands; that of the full self-test has no cap on the cases of a shard.\<close>

definition contracts_validate_alias :: "report result \<Rightarrow> string \<Rightarrow> 's cli_command" where
  "contracts_validate_alias validated corpus_sha256 = contracts_validate validated corpus_sha256"

definition payload_build_alias ::
  "(string \<Rightarrow> string) \<Rightarrow> (string \<Rightarrow> string) \<Rightarrow> (pv \<Rightarrow> string) \<Rightarrow> (int \<times> string \<times> string) option \<Rightarrow> string option \<Rightarrow> tree cli_command" where
  "payload_build_alias hash hex dumps xorriso output = command True (showing (build_payload hash hex dumps xorriso output))"

definition reference_build_alias :: "(string \<Rightarrow> string) \<Rightarrow> (string \<Rightarrow> pv result) \<Rightarrow> script_run \<Rightarrow> tree cli_command" where
  "reference_build_alias sha loads r = reference_build sha loads r"

definition reference_boot_alias ::
  "(real \<Rightarrow> string) \<Rightarrow> host \<Rightarrow> qemu_profile \<Rightarrow> string \<Rightarrow> string \<Rightarrow> connect_tick list \<Rightarrow> serial_tick list \<Rightarrow> machine cli_command" where
  "reference_boot_alias fr host p run_id work_dir connecting ticks =
     command True (showing (boot_reference fr host p run_id work_dir connecting ticks))"

definition reference_inventory_alias ::
  "inspected \<Rightarrow> (string \<Rightarrow> string) \<Rightarrow> (pv \<Rightarrow> string) \<Rightarrow> (string \<Rightarrow> pv result) \<Rightarrow> bool \<Rightarrow> script_run \<Rightarrow> string option \<Rightarrow> tree cli_command" where
  "reference_inventory_alias h sha dumps loads virt_copy_out r profile =
     command True (showing (inventory_reference h sha dumps loads virt_copy_out r (p_opt PStr profile)))"

definition reference_preflight_alias ::
  "(preflight_report \<Rightarrow> pv) \<Rightarrow> (real \<Rightarrow> string) \<Rightarrow> (string \<Rightarrow> int option) \<Rightarrow> qemu_profile \<Rightarrow> pv \<Rightarrow> bool \<Rightarrow> installation \<Rightarrow>
     bool \<Rightarrow> bool \<Rightarrow> 's cli_command" where
  "reference_preflight_alias form fr fi p lock source_lock_valid inst verify_hashes strict =
     command True (reporting (elift (preflight_reference fr fi verify_hashes p lock source_lock_valid inst)) form
       (\<lambda>r. strict \<and> \<not> pf_materialization_ready r))"

definition oracle_full_selftest_alias ::
  "(real \<Rightarrow> string) \<Rightarrow> scoring_config \<Rightarrow> corpus \<Rightarrow> string \<Rightarrow> int option \<Rightarrow>
     (bool \<Rightarrow> int option \<Rightarrow> int \<Rightarrow> nat \<Rightarrow> stored_document result) \<Rightarrow> (nat \<Rightarrow> real) \<Rightarrow> real \<Rightarrow>
     string option \<Rightarrow> bool \<Rightarrow> selftest_options \<Rightarrow> 's cli_command" where
  "oracle_full_selftest_alias fg conf contracts run_id cpus run finish elapsed output one_per_contract so =
     oracle_full_selftest fg conf contracts run_id cpus run finish elapsed output one_per_contract
       (so\<lparr>so_max_cases_per_shard := None\<rparr>)"

definition oracle_selftest_alias ::
  "(request \<Rightarrow> run_config result) \<Rightarrow> (run_config \<Rightarrow> 'w \<Rightarrow> result_document result \<times> ('r, 'w) run_state) \<Rightarrow>
     'w \<Rightarrow> ('r, 'w) run_state option cli_command" where
  "oracle_selftest_alias prep run w = oracle_selftest prep run w"

end
