(* ===== verification/CliFacts.thy ===== *)
theory CliFacts
  imports Cli DatasetFacts
begin

text \<open>
  Facts about the commands: what their exit status says, and how commands that are run one after the
  other fit together.
\<close>

section \<open>The exit status\<close>

lemma invoke_reporting:
  "invoke (command ok (reporting m form bad)) w =
     (if \<not> ok then (2, [], w)
      else (case m w of
        (Inl e, w') \<Rightarrow> (1, [], w') | (Inr r, w') \<Rightarrow> (if bad r then 1 else 0, [form r], w')))"
  by (auto simp: invoke_def command_def reporting_def on_world_def emit_def exit_if_def ebind_eq eseq_eq
      split: prod.splits sum.splits)

lemma invoke_showing:
  "invoke (command ok (showing m)) w =
     (if \<not> ok then (2, [], w)
      else (case m w of (Inl e, w') \<Rightarrow> (1, [], w') | (Inr v, w') \<Rightarrow> (0, [v], w')))"
  by (auto simp: invoke_def command_def showing_def on_world_def emit_def ebind_eq split: prod.splits sum.splits)

lemma accepted_command [simp]: "co_accepted (command ok body) = ok"
  by (simp add: command_def)

lemma stored_scores [simp]: "d_scores (stored d) = d_scores d"
  by (simp add: stored_def result_document.extend_def)

lemma invoke_eval:
  "co_accepted (eval_command ev output q every w) \<Longrightarrow>
     invoke (eval_command ev output q every w) v =
       (case ev q w of
          (Inl e, s) \<Rightarrow> (1, [], s)
        | (Inr d, s) \<Rightarrow> (if any_failed d then 1 else 0, [summary_json output d], s))"
  unfolding eval_command_def judged_def by (simp add: invoke_reporting)

section \<open>A candidate machine that is not available\<close>

definition nothing_supported :: "'r target \<Rightarrow> string \<Rightarrow> nat \<Rightarrow> ('r, 'w) run_state \<Rightarrow> bool" where
  "nothing_supported ref img n s \<longleftrightarrow> v_reference s = Some ref \<and> v_candidate s = Some (QemuTarget img None) \<and>
     v_results s = [] \<and> length (v_unsupported s) = n"

lemma persist_nothing [simp]: "nothing_supported ref img n (persisted cf status e b s) = nothing_supported ref img n s"
  by (simp add: nothing_supported_def persisted_def Let_def)

lemma unavailable_case:
  assumes "\<forall>w. \<not> e_available env w"
  shows "triple (nothing_supported ref img n) (run_case env fr fp cf pc) (\<lambda>_. nothing_supported ref img (Suc n)) (\<lambda>_ _. False)"
proof (cases pc)
  case (Pair pos c)
  have "\<exists>t. run_case env fr fp cf pc s = (Inr (), t) \<and> nothing_supported ref img (Suc n) t" if "nothing_supported ref img n s" for s
  proof -
    have "\<exists>s1. start_case cf pos c s = (Inr (), s1) \<and> nothing_supported ref img n s1"
      using that by (simp add: start_case_def eseq_eq log_event_def persist_def) (simp add: nothing_supported_def)
    then obtain s1 where s1: "start_case cf pos c s = (Inr (), s1)" "nothing_supported ref img n s1" by blast
    then have "unsupported_reason env c s1 \<noteq> None"
      using assms by (simp add: unsupported_reason_def nothing_supported_def)
    then obtain reason where "unsupported_reason env c s1 = Some reason" by blast
    moreover have "\<exists>t. record_unsupported cf pos c reason s1 = (Inr (), t) \<and> nothing_supported ref img (Suc n) t"
      using s1(2) by (simp add: record_unsupported_def eseq_eq log_event_def persist_def) (simp add: nothing_supported_def)
    ultimately show ?thesis using s1(1) by (simp add: Pair run_case_def eseq_eq)
  qed
  then show ?thesis by (force simp: triple_def)
qed

lemma unavailable_body:
  fixes s :: "('r, 'w) run_state"
  assumes "\<forall>w. \<not> e_available env w" and "mk (cf_reference_spec cf) = Inr ref"
    and "mk (cf_target_spec cf) = Inr (QemuTarget img None)" and "v_results s = []" "v_unsupported s = []"
  shows "\<exists>t. run_body env fr fp mk cf s = (Inr (), t) \<and> nothing_supported ref img (length (cf_selected cf)) t"
proof -
  have "\<exists>t. open_targets mk cf s = (Inr (), t) \<and> nothing_supported ref img 0 t"
    using assms(2-5) by (simp add: open_targets_def ebind_eq eseq_eq nothing_supported_def)
  then obtain t where t: "open_targets mk cf s = (Inr (), t)" "nothing_supported ref img 0 t" by blast
  let ?body = "efor (enumerate 1 (cf_selected cf)) (run_case env fr fp cf)"
  have loop: "triple (nothing_supported ref img 0) ?body
      (\<lambda>_. nothing_supported ref img (length (enumerate 1 (cf_selected cf)))) (\<lambda>_ _. False)"
    by (rule triple_for) (rule unavailable_case [OF assms(1)])
  obtain r u where u: "?body (persisted cf ''running'' None False t) = (r, u)" by fastforce
  have p: "nothing_supported ref img 0 (persisted cf ''running'' None False t)" using t(2) by simp
  from loop p have "case ?body (persisted cf ''running'' None False t) of
      (Inr x, v) \<Rightarrow> nothing_supported ref img (length (enumerate 1 (cf_selected cf))) v | (Inl e, v) \<Rightarrow> False"
    unfolding triple_def by (elim allE impE) assumption+
  with u have "r = Inr () \<and> nothing_supported ref img (length (cf_selected cf)) u" by (cases r) simp_all
  with t(1) u show ?thesis by (simp add: run_body_def eseq_eq persist_def)
qed

lemma unavailable_run:
  fixes env :: "('r, 'w) env" and w :: 'w
  assumes "\<forall>w. \<not> e_available env w" and "mk (cf_reference_spec cf) = Inr ref" and "ref = LocalTarget n \<or> ref = QemuTarget i None"
    and "mk (cf_target_spec cf) = Inr (QemuTarget img None)" and "good_config conf"
  shows "\<exists>d t. evaluate_run env fr fp fg conf mk cf (run_init cf w) = (Inr d, t) \<and> d_cases d = [] \<and>
     length (d_unsupported d) = length (cf_selected cf) \<and> s_oscorrect (d_scores d) = 0"
proof -
  have "\<exists>s :: ('r, 'w) run_state. begin_run cf (run_init cf w) = (Inr (), s) \<and> v_results s = [] \<and> v_unsupported s = []"
    by (simp add: begin_run_def eseq_eq log_event_def persist_def persisted_def run_init_def)
  then obtain s :: "('r, 'w) run_state" where s: "begin_run cf (run_init cf w) = (Inr (), s)" "v_results s = []" "v_unsupported s = []" by blast
  obtain t where t: "run_body env fr fp mk cf s = (Inr (), t)" "nothing_supported ref img (length (cf_selected cf)) t"
    using unavailable_body [OF assms(1,2,4) s(2,3)] by blast
  have "\<exists>u. close_targets env t = (Inr (), u) \<and> nothing_supported ref img (length (cf_selected cf)) u"
    using t(2) assms(3)
    by (auto simp: close_targets_def close_target_def eseq_eq on_reference_def on_candidate_def nothing_supported_def)
  then obtain u where u: "close_targets env t = (Inr (), u)" "nothing_supported ref img (length (cf_selected cf)) u" by blast
  let ?results = "[] :: case_result list"
  have "unknown_contract (cf_contracts cf) ?results = None" by (simp add: unknown_contract_def)
  from score_results_ok [OF assms(5) this] obtain scores g where
    scores: "score_results fg conf ?results (cf_contracts cf) (cf_profile cf) = Inr scores"
    "s_boot_gate scores = boot_gate (contract_scores ?results) (ids_at (cf_contracts cf) (\<lambda>l. l = ''boot''))"
    "s_oscorrect scores = s_boot_gate scores * g" by blast
  have "s_oscorrect scores = 0"
    using scores(2,3) by (auto simp: boot_gate_def contract_scores_def list_all_iff)
  then show ?thesis
    using s(1) t(1) u scores(1)
    by (simp add: evaluate_run_def eseq_eq efinally_def eexcept_reraise_def finish_run_def ebind_eq log_event_def
        persist_def persisted_def result_of_def nothing_supported_def Let_def)
qed



section \<open>The exit status and the score\<close>

definition covered :: "corpus \<Rightarrow> case_result list \<Rightarrow> bool" where
  "covered contracts results \<longleftrightarrow>
     (\<forall>l\<in>set LEVELS. \<exists>i c. (i, c) \<in> set contracts \<and> c_level c = l) \<and>
     (\<forall>i c. (i, c) \<in> set contracts \<longrightarrow> (\<exists>r\<in>set results. r_contract r = i))"

lemma fully_correct_covered:
  assumes "\<forall>(i, c)\<in>set contracts. c_level c \<in> set LEVELS" and "unknown_contract contracts results = None"
  shows "fully_correct contracts results \<longleftrightarrow> list_all r_passed results \<and> covered contracts results"
proof -
  have "c_level c \<in> set LEVELS" if "(i, c) \<in> set contracts" for i c using assms(1) that by auto
  moreover have "\<exists>c. (r_contract r, c) \<in> set contracts" if "r \<in> set results" for r
    using assms(2) that unfolding unknown_contract_None_iff by force
  ultimately show ?thesis
    unfolding fully_correct_def covered_def solved_def list_all_iff by blast
qed

lemma run_scores:
  assumes "evaluate_run env fr fp fg conf mk cf (run_init cf w) = (Inr d, t)"
  shows "score_results fg conf (d_cases d) (cf_contracts cf) (cf_profile cf) = Inr (d_scores d)"
  using assms
proof (cases rule: evaluate_run_cases)
  case (completed s d')
  show ?thesis
    using completed(2,3)
    by (elim finish_run_Inr) (auto simp: result_of_def Let_def)
qed simp_all

text \<open>
  C7. The exit status and the score agree: when an evaluation returns, its exit status is 0 or 1, and
  OSCorrect is 1 exactly when the status is 0, every level has a Contract and every Contract has an
  evaluated case. So a status of 0 means a perfect score only for a run that covers the corpus.
\<close>

theorem exit_zero_and_perfect_score:
  assumes "co_accepted (eval_command ev output q every w)"
    and "ev = evaluate prep (\<lambda>cf w. evaluate_run env fr fp fg conf mk cf (run_init cf w))"
    and "prep q = Inr cf" and "ev q w = (Inr d, s)" and "good_config conf"
    and "\<forall>(i, c)\<in>set (cf_contracts cf). c_level c \<in> set LEVELS"
  shows "fst (invoke (eval_command ev output q every w) None) \<in> {0, 1} \<and>
    (s_oscorrect (d_scores d) = 1 \<longleftrightarrow>
       fst (invoke (eval_command ev output q every w) None) = 0 \<and> covered (cf_contracts cf) (d_cases d))"
proof -
  obtain cf' d' t where run: "prep q = Inr cf'" "d = stored d'"
    "evaluate_run env fr fp fg conf mk cf' (run_init cf' w) = (Inr d', t)"
    using assms(4) unfolding assms(2) by (rule evaluate_Inr)
  have cf: "cf' = cf" using run(1) assms(3) by simp
  have "score_results fg conf (d_cases d) (cf_contracts cf) (cf_profile cf) = Inr (d_scores d)"
    using run_scores [OF run(3)] by (simp add: run(2) cf)
  moreover from this have u: "unknown_contract (cf_contracts cf) (d_cases d) = None"
    by (auto simp: score_results_def split: option.splits)
  ultimately have "s_oscorrect (d_scores d) = 1 \<longleftrightarrow> fully_correct (cf_contracts cf) (d_cases d)"
    using score_meaning [OF assms(5) u, of fg "cf_profile cf"] by auto
  moreover have "fst (invoke (eval_command ev output q every w) None) = (if list_all r_passed (d_cases d) then 0 else 1)"
    using invoke_eval [OF assms(1)] assms(4) by (simp add: any_failed_def list_all_iff list_ex_iff)
  ultimately show ?thesis using fully_correct_covered [OF assms(6) u] by simp
qed

theorem exit_zero_and_perfect_score_witness:
  "\<exists>d s. evaluate (\<lambda>_. Inr (example_run ''reference''))
       (\<lambda>cf w. evaluate_run example_env (\<lambda>_. []) (\<lambda>_. None) (\<lambda>_. []) example_config example_make cf (run_init cf w))
       selftest_request () = (Inr d, s) \<and>
     (s_oscorrect (d_scores d) = 1 \<longleftrightarrow> fst (invoke (eval_command (evaluate (\<lambda>_. Inr (example_run ''reference''))
       (\<lambda>cf w. evaluate_run example_env (\<lambda>_. []) (\<lambda>_. None) (\<lambda>_. []) example_config example_make cf (run_init cf w)))
       ''out.json'' selftest_request None ()) None) = 0 \<and> covered example_corpus (d_cases d))"
proof -
  let ?ev = "evaluate (\<lambda>_. Inr (example_run ''reference''))
       (\<lambda>cf w. evaluate_run example_env (\<lambda>_. []) (\<lambda>_. None) (\<lambda>_. []) example_config example_make cf (run_init cf w))"
  obtain d t where "evaluate_run example_env (\<lambda>_. []) (\<lambda>_. None) (\<lambda>_. []) example_config example_make
     (example_run ''reference'') (run_init (example_run ''reference'') ()) = (Inr d, t)"
    using example_completes [OF example_make_reference(1)] by blast
  then have run: "?ev selftest_request () = (Inr (stored d), Some t)" by (simp add: evaluate_def)
  have levels: "set (map (\<lambda>(i, c). (i, c_level c)) example_corpus) = {(''a'', ''boot''), (''b'', ''boot'')}"
    unfolding example_corpus_eq by simp
  have "c_level c = ''boot''" if "(i, c) \<in> set example_corpus" for i c
  proof -
    have "(i, c_level c) \<in> set (map (\<lambda>(i, c). (i, c_level c)) example_corpus)" using that by force
    then show ?thesis unfolding levels by auto
  qed
  then have lev: "\<forall>(i, c)\<in>set (cf_contracts (example_run ''reference'')). c_level c \<in> set LEVELS"
    by (auto simp: example_run_def LEVELS_def)
  have acc: "co_accepted (eval_command ?ev ''out.json'' selftest_request None ())"
    by (simp add: eval_command_def selftest_request_def at_least_def)
  have cf: "cf_contracts (example_run ''reference'') = example_corpus" by (simp add: example_run_def)
  note c = exit_zero_and_perfect_score [OF acc refl refl run example_config_good lev, unfolded cf]
  show ?thesis by (intro exI conjI) (rule run, rule conjunct2 [OF c])
qed

section \<open>The two ways to build a dataset\<close>

lemma no_cases:
  assumes "n \<le> 0" and "cs \<noteq> []" and "\<forall>c\<in>set cs. \<exists>v. py_item c ''id'' = Inr v"
  shows "generate_cases gn profile seed n (Some cs) loaded = Inr []"
proof -
  have "map_result (\<lambda>c. py_item c ''id'') cs = Inr (map (\<lambda>c. projr (py_item c ''id'')) cs)"
    by (rule map_result_ok) (use assms(3) in force)
  moreover have "slots items n = []" for items using assms(1) by (simp add: slots_def)
  ultimately show ?thesis using assms(2) by (simp add: generate_cases_def Let_def)
qed

text \<open>
  C39. The alias of \<open>dataset build\<close> does not check its options: with a count of cases below one the command
  ends with the status 2 and leaves the dataset, while \<open>dataset-build\<close> succeeds, replaces the rows by none,
  and leaves a manifest with which \<open>dataset validate\<close> accepts the empty dataset.
\<close>

theorem alias_builds_empty_dataset:
  assumes "n \<le> 0" and "di_report i = Inr (True, cs)" and "cs \<noteq> []" and "\<forall>c\<in>set cs. \<exists>v. py_item c ''id'' = Inr v"
  shows "invoke (dataset_build i profile seed n determinism) files = (2, [], files) \<and>
    (\<exists>m built. invoke (dataset_build_alias i profile seed n) files = (0, [m], built) \<and> ds_rows built = Some [] \<and>
       fst (invoke (dataset_validate fr (di_file_sha256 i) (Inr known) path public) built) = 0)"
proof -
  let ?m = "dataset_manifest (di_generation i) profile seed n (length cs) (di_corpus_sha256 i) (di_file_sha256 i)
    (di_path i profile) [] []"
  let ?built = "files\<lparr>ds_rows := Some [], ds_manifest := Some ?m\<rparr>"
  have "build_from i profile seed n files = (Inr ?m, ?built)"
    by (simp add: build_from_def build_dataset_def assms(2) no_cases [OF assms(1,3,4)] Let_def)
  then have "invoke (dataset_build_alias i profile seed n) files = (0, [?m], ?built)"
    by (simp add: dataset_build_alias_def invoke_showing)
  moreover have "manifest_issues (di_file_sha256 i) ?m [] = Inr []"
    by (simp add: manifest_issues_def dataset_manifest_def p_nat_def)
  then have "fst (invoke (dataset_validate fr (di_file_sha256 i) (Inr known) path public) ?built) = 0"
    by (simp add: dataset_validate_def invoke_reporting validate_dataset_def)
  moreover have "invoke (dataset_build i profile seed n determinism) files = (2, [], files)"
    using assms(1) by (simp add: dataset_build_def invoke_def command_def)
  ultimately show ?thesis by (intro conjI exI [of _ ?m] exI [of _ ?built]) simp_all
qed

definition demo_inputs :: "nat dataset_inputs" where
  "demo_inputs =
     \<lparr>di_generation = example_generation, di_report = Inr (True, [PDict [(''id'', PStr ''a'')]]), di_loaded = Inr [],
      di_corpus_sha256 = ''k'', di_file_sha256 = (\<lambda>rows. if rows = [] then ''empty'' else ''full''), di_path = (\<lambda>_. ''cases.jsonl'')\<rparr>"

theorem alias_builds_empty_dataset_witness:
  "invoke (dataset_build demo_inputs ''public'' 1 0 False) \<lparr>ds_rows = Some [PNone], ds_manifest = None\<rparr> =
       (2, [], \<lparr>ds_rows = Some [PNone], ds_manifest = None\<rparr>) \<and>
   (\<exists>m built. invoke (dataset_build_alias demo_inputs ''public'' 1 0) \<lparr>ds_rows = Some [PNone], ds_manifest = None\<rparr> = (0, [m], built) \<and>
      ds_rows built = Some [])"
proof -
  have i: "(0 :: int) \<le> 0" "di_report demo_inputs = Inr (True, [PDict [(''id'', PStr ''a'')]])" "[PDict [(''id'', PStr ''a'')]] \<noteq> []"
    "\<forall>c\<in>set [PDict [(''id'', PStr ''a'')]]. \<exists>v. py_item c ''id'' = Inr v"
    by (simp_all add: demo_inputs_def)
  show ?thesis
    using alias_builds_empty_dataset [OF i, of "''public''" 1 False "\<lparr>ds_rows = Some [PNone], ds_manifest = None\<rparr>"]
    by blast
qed

end
