(* ===== verification/Tools.thy ===== *)
theory Tools
  imports Cli Bootstrap Oci DatasetFacts
begin

text \<open>
  The scripts of \<open>tools/contract_discovery\<close> and \<open>tools/coverage\<close>, and the search for the root of the
  repository of \<open>paths.py\<close>. \<open>dumps\<close> is \<open>json.dumps\<close> with sorted keys and no blanks, \<open>pretty\<close> the
  indented form that the scripts write, \<open>loads\<close> the parsing of JSON.
\<close>

section \<open>paths.py\<close>

text \<open>
  Absolute paths are their components. \<open>expand\<close> is \<open>Path(...).expanduser().resolve()\<close>, \<open>here\<close> the
  resolved path of the module.
\<close>

definition parents :: "path \<Rightarrow> path list" where
  "parents p = map (\<lambda>n. take n p) (rev [0..<length p])"

definition is_root :: "(path \<Rightarrow> bool) \<Rightarrow> path \<Rightarrow> bool" where
  "is_root exists d \<longleftrightarrow> exists (d @ [''pyproject.toml'']) \<and> exists (d @ [''contracts''])"

definition repo_root :: "(string \<Rightarrow> path) \<Rightarrow> (path \<Rightarrow> bool) \<Rightarrow> string option \<Rightarrow> path \<Rightarrow> path \<Rightarrow> path" where
  "repo_root expand exists override here cwd =
     (if override \<noteq> None \<and> override \<noteq> Some [] then expand (the override)
      else case find (is_root exists) (butlast here # parents here) of Some d \<Rightarrow> d | None \<Rightarrow> cwd)"

section \<open>Contract discovery\<close>

text \<open>A script writes its document to a file, below directories that it creates, or prints it.\<close>

definition deliver :: "(pv \<Rightarrow> string) \<Rightarrow> path option \<Rightarrow> pv \<Rightarrow> tree \<Rightarrow> (tree \<times> string) result" where
  "deliver pretty output doc fs =
     (let payload = pretty doc @ [CHR 0x0A]
      in case output of
           None \<Rightarrow> Inr (fs, payload)
         | Some p \<Rightarrow> rbind (mkdirs (butlast p) fs) (\<lambda>gs. rbind (write_bytes p payload gs) (\<lambda>hs. Inr (hs, []))))"

definition index_error :: exn where
  "index_error = OtherError ''IndexError'' ''list index out of range''"

definition proposal_id :: "(string \<Rightarrow> string) \<Rightarrow> (pv \<Rightarrow> string) \<Rightarrow> string \<Rightarrow> pv \<Rightarrow> string" where
  "proposal_id sha dumps contract_id evidence = contract_id @ '':'' @ take 16 (sha (dumps evidence))"

definition proposed_contract :: "string \<Rightarrow> pv" where
  "proposed_contract cid =
     (let domain = hd (split_on (CHR ''.'') cid)
      in PDict
       [(''schema_version'', PStr ''osbench.contract.v1''), (''id'', PStr cid),
        (''title'', PStr (title_case False (replace_char (CHR ''_'') '' '' (replace_char (CHR ''.'') '' '' cid)))),
        (''domain'', PStr domain), (''level'', PStr ''kernel_subsystems''), (''abstraction'', PStr domain),
        (''operation'', PStr (operation cid)),
        (''description'', PStr ''PROPOSED: replace with evidence-grounded observable behavior before review.''),
        (''prerequisites'', PList []), (''sources'', PList []), (''observables'', strs [''syscall_return'', ''errno'']),
        (''normalization'', strs [''none'']), (''equivalence'', PDict [(''type'', PStr ''semantic'')]),
        (''invariants'', strs [''Pending oracle execution and human review.'']), (''error_conditions'', PList []),
        (''case_dimensions'', strs [''primitive'', ''boundary'', ''failure'', ''composition'']),
        (''orthogonal_with'', PList []), (''fault_injection'', strs [''invalid_argument'']),
        (''generator'', PDict [(''implementation'', PStr ''generators.common.contract_case''), (''version'', PStr ''1''),
           (''parameters'', PDict [(''contract_id'', PStr cid)]), (''probe'', PStr ''generic'')]),
        (''timeouts'', PDict [(''case_seconds'', PInt 20)]), (''transport'', PStr ''guest_agent''),
        (''tags'', strs [''draft'', ''behavioral''])])"

text \<open>\<open>propose.py\<close>: an id without a dot has no second part, and the script ends with an exception.\<close>

definition proposal :: "(string \<Rightarrow> string) \<Rightarrow> (pv \<Rightarrow> string) \<Rightarrow> string \<Rightarrow> pv \<Rightarrow> pv result" where
  "proposal sha dumps cid evidence =
     (case evidence of
        PList (x # xs) \<Rightarrow>
          if CHR ''.'' \<notin> set cid then Inl index_error
          else Inr (PDict
            [(''schema_version'', PStr ''osbench.contract_proposal.v1''),
             (''proposal_id'', PStr (proposal_id sha dumps cid evidence)), (''evidence'', evidence),
             (''contract'', proposed_contract cid),
             (''uncertainty'', PDict [(''confidence'', PFloat 0),
                (''open_questions'', strs [''Exact reference behavior has not been measured.'',
                   ''Prerequisite closure remains to be established.''])]),
             (''review_state'', PStr ''proposed'')])
      | _ \<Rightarrow> Inl (OtherError ''SystemExit'' ''evidence must be a nonempty JSON array''))"

definition propose ::
  "(string \<Rightarrow> string) \<Rightarrow> (pv \<Rightarrow> string) \<Rightarrow> (pv \<Rightarrow> string) \<Rightarrow> (string \<Rightarrow> pv result) \<Rightarrow> string \<Rightarrow> string \<Rightarrow> path option \<Rightarrow>
     tree \<Rightarrow> (tree \<times> string) result" where
  "propose sha dumps pretty loads evidence_text cid output fs =
     rbind (loads evidence_text) (\<lambda>evidence. rbind (proposal sha dumps cid evidence) (\<lambda>doc. deliver pretty output doc fs))"

text \<open>\<open>validate_proposal.py\<close>: \<open>validated\<close> is what the schema library returns or raises.\<close>

definition validate_proposal :: "(pv \<Rightarrow> unit result) \<Rightarrow> pv \<Rightarrow> pv result" where
  "validate_proposal validated doc =
     rbind (validated doc) (\<lambda>_. rbind (py_item doc ''proposal_id'') (\<lambda>i.
       Inr (PDict [(''valid'', PBool True), (''proposal_id'', i)])))"

text \<open>\<open>stabilize.py\<close>: how often each normalized observation occurs, the most frequent first.\<close>

definition signature :: "(pv \<Rightarrow> string) \<Rightarrow> pv \<Rightarrow> string result" where
  "signature dumps obs = rbind (py_get obs ''normalized'' obs) (\<lambda>v. Inr (dumps v))"

definition most_common :: "string list \<Rightarrow> (string \<times> nat) list" where
  "most_common xs = sort_key (\<lambda>(k, n). - int n) (foldl (\<lambda>d x. bump x d) [] xs)"

definition outcome_rows :: "(string \<Rightarrow> pv result) \<Rightarrow> (string \<times> nat) list \<Rightarrow> pv list result" where
  "outcome_rows loads counts =
     map_result (\<lambda>(k, n). rbind (loads k) (\<lambda>v. Inr (PDict [(''count'', p_nat n), (''value'', v)]))) counts"

definition stabilize :: "(pv \<Rightarrow> string) \<Rightarrow> (string \<Rightarrow> pv result) \<Rightarrow> string \<Rightarrow> pv result" where
  "stabilize dumps loads observations =
     rbind (map_result loads (filter (\<lambda>l. \<not> is_blank l) (text_lines False [] observations))) (\<lambda>rows.
     rbind (map_result (signature dumps) rows) (\<lambda>signatures.
     rbind (outcome_rows loads (most_common signatures)) (\<lambda>outcomes.
       Inr (PDict [(''schema_version'', PStr ''osbench.stabilization.v1''), (''trials'', p_nat (length rows)),
                   (''distinct_outcomes'', p_nat (length (most_common signatures))), (''outcomes'', PList outcomes)]))))"

section \<open>Coverage\<close>

text \<open>\<open>contract_stats.py\<close>: the document it prints and its exit status.\<close>

definition contract_stats :: "string \<Rightarrow> report \<Rightarrow> pv \<times> int" where
  "contract_stats corpus_sha256 r =
     (PDict (merge_fields [(''valid'', PBool (valid r))] (items_of (stats_json corpus_sha256 r))), if valid r then 0 else 1)"

text \<open>
  \<open>report.py\<close>: the Contracts are the documents of the files whose path has no part \<open>schema\<close>.
\<close>

definition tally :: "string list \<Rightarrow> pv" where
  "tally xs = p_dict p_nat (sorted_items (foldl (\<lambda>d x. bump x d) [] xs))"

definition field_texts :: "string \<Rightarrow> pv list \<Rightarrow> string list result" where
  "field_texts k docs = map_result (\<lambda>c. rbind (py_item c k) (\<lambda>v. Inr (str_of v))) docs"

definition coverage_report :: "(path \<times> pv) list \<Rightarrow> nat \<Rightarrow> pv result" where
  "coverage_report files workloads =
     (let contracts = map snd (filter (\<lambda>(p, _). ''schema'' \<notin> set p) files)
      in rbind (field_texts ''level'' contracts) (\<lambda>levels. rbind (field_texts ''domain'' contracts) (\<lambda>domains.
         rbind (field_texts ''transport'' contracts) (\<lambda>transports.
           Inr (PDict [(''schema_version'', PStr ''osbench.coverage.v1''), (''contracts'', p_nat (length contracts)),
                       (''by_level'', tally levels), (''by_domain'', tally domains), (''by_transport'', tally transports),
                       (''workloads'', p_nat workloads)])))))"

text \<open>\<open>build_workload_matrix.py\<close>: the rows by name, and the lines of the generated page.\<close>

fun rows_by_name :: "contract list \<Rightarrow> pv \<Rightarrow> string list \<Rightarrow> (string \<times> string list) list result" where
  "rows_by_name cs doc [] = Inr []"
| "rows_by_name cs doc (w # ws) =
     rbind (contracts_for_workload cs doc w) (\<lambda>ids. rbind (rows_by_name cs doc ws) (\<lambda>rows. Inr ((w, ids) # rows)))"

definition matrix_script :: "contract list \<Rightarrow> pv \<Rightarrow> (string \<times> string list) list result" where
  "matrix_script cs doc = rows_by_name cs doc (sort (map fst (items_of doc)))"

definition matrix_page :: "(string \<times> string list) list \<Rightarrow> string list" where
  "matrix_page rows =
     [''# Workload capability matrix'', []] @
     concat (map (\<lambda>(name, ids). [''## '' @ name, [], join '', '' (map (\<lambda>x. ''`'' @ x @ ''`'') ids), []]) rows)"

text \<open>
  \<open>build_syscall_inventory.py\<close>: a line of the header that defines a number, as the regular expression
  reads it, and the family of a name, that of the first rule with a prefix of it.
\<close>

definition name_char :: "char \<Rightarrow> bool" where
  "name_char c \<longleftrightarrow> is_letter c \<or> c \<in> set ''0123456789_''"

definition digit_char :: "char \<Rightarrow> bool" where
  "digit_char c \<longleftrightarrow> c \<in> set ''0123456789''"

definition number_of :: "string \<Rightarrow> int" where
  "number_of ds = foldl (\<lambda>n c. 10 * n + (int (of_char c) - 48)) 0 ds"

definition syscall_line :: "string \<Rightarrow> (string \<times> int) option" where
  "syscall_line line =
     (let start = ''#define __NR_''; rest = drop (length start) line;
          name = takeWhile name_char rest; after = dropWhile name_char rest;
          gap = takeWhile (\<lambda>c. is_blank [c]) after; digits = takeWhile digit_char (dropWhile (\<lambda>c. is_blank [c]) after)
      in if prefix start line \<and> name \<noteq> [] \<and> gap \<noteq> [] \<and> digits \<noteq> [] then Some (name, number_of digits) else None)"

definition FALLBACK :: "(string \<times> int) list" where
  "FALLBACK =
     [(''read'', 0), (''write'', 1), (''open'', 2), (''close'', 3), (''mmap'', 9), (''munmap'', 11), (''pipe'', 22),
      (''clone'', 56), (''fork'', 57), (''execve'', 59), (''exit'', 60), (''wait4'', 61), (''socket'', 41), (''futex'', 202),
      (''epoll_create1'', 291), (''openat'', 257), (''statx'', 332)]"

definition FAMILY_RULES :: "(string \<times> string list) list" where
  "FAMILY_RULES =
     [(''process'', [''clone'', ''fork'', ''exec'', ''wait'', ''exit'', ''kill'', ''getpid'']),
      (''file'', [''open'', ''read'', ''write'', ''stat'', ''link'', ''unlink'', ''rename'', ''chmod'', ''chown'', ''mkdir'',
         ''getdents'', ''fsync'']),
      (''memory'', [''mmap'', ''munmap'', ''mprotect'', ''brk'', ''madvise'', ''mlock'']),
      (''network'', [''socket'', ''bind'', ''listen'', ''accept'', ''connect'', ''send'', ''recv'']),
      (''sync'', [''futex'', ''sem'', ''eventfd'']), (''poll'', [''poll'', ''select'', ''epoll'']),
      (''time'', [''clock'', ''timer'', ''nanosleep'', ''time''])]"

definition family_of :: "string \<Rightarrow> string \<Rightarrow> string" where
  "family_of otherwise name =
     (case find (\<lambda>(f, ps). starts_any name ps) FAMILY_RULES of Some (f, _) \<Rightarrow> f | None \<Rightarrow> otherwise)"

text \<open>\<open>header\<close> is the first of the two header files that exists, with its text.\<close>

definition syscall_inventory :: "(string \<times> string) option \<Rightarrow> pv" where
  "syscall_inventory header =
     (let (source, otherwise, rows) =
            (case header of
               Some (p, content) \<Rightarrow> (p, ''unclassified'', List.map_filter syscall_line (text_lines False [] content))
             | None \<Rightarrow> (''fallback'', ''bootstrap'', FALLBACK))
      in PDict [(''schema_version'', PStr ''osbench.syscall_inventory.v1''), (''architecture'', PStr ''x86_64''),
                (''source'', PStr source), (''count'', p_nat (length rows)),
                (''syscalls'', PList (map (\<lambda>(name, n). PDict [(''number'', PInt n), (''name'', PStr name),
                   (''family'', PStr (family_of otherwise name))]) (sort_key snd rows)))])"

section \<open>The package index\<close>

text \<open>
  \<open>workloads/packages/make_packages_index.py\<close>: one paragraph for each package of a directory, in the
  order of the names. \<open>control\<close> is what \<open>dpkg-deb -f\<close> prints for a package, or its failure.
\<close>

definition packages_in :: "path \<Rightarrow> tree \<Rightarrow> path list" where
  "packages_in repository fs =
     sort (filter (\<lambda>p. p \<noteq> [] \<and> butlast p = repository \<and> suffix ''.deb'' (last p)) (map fst fs))"

definition package_paragraph ::
  "(string \<Rightarrow> string) \<Rightarrow> (path \<Rightarrow> string result) \<Rightarrow> tree \<Rightarrow> path \<Rightarrow> string result" where
  "package_paragraph sha control fs p =
     rbind (control p) (\<lambda>text. rbind (read_bytes p fs) (\<lambda>content.
       Inr (strip_text text @ [CHR 0x0A] @ ''Filename: '' @ last p @ [CHR 0x0A] @ ''Size: '' @ str_of_nat (length content) @
            [CHR 0x0A] @ ''SHA256: '' @ sha content @ [CHR 0x0A])))"

definition packages_index :: "(string \<Rightarrow> string) \<Rightarrow> (path \<Rightarrow> string result) \<Rightarrow> path \<Rightarrow> tree \<Rightarrow> tree result" where
  "packages_index sha control repository fs =
     rbind (map_result (package_paragraph sha control fs) (packages_in repository fs)) (\<lambda>rows.
       write_bytes (repository @ [''Packages'']) (join [CHR 0x0A] rows) fs)"

section \<open>The two builders of the workload matrix\<close>

lemma closures_agree: "matrix_closure cs name ids = Inr found \<longleftrightarrow> add_closures cs ids = Inr found"
  by (induction ids arbitrary: found) (auto simp: prerequisites_def Let_def result_simps)

lemma rows_agree:
  assumes "\<forall>(name, item)\<in>set listed. pget doc name = Some item"
  shows "matrix_rows cs listed = Inr rows \<longleftrightarrow> rows_by_name cs doc (map fst listed) = Inr rows"
  using assms
proof (induction listed arbitrary: rows)
  case (Cons head_row listed)
  obtain name item where e: "head_row = (name, item)" by (cases head_row)
  then have "workload_item doc name = (if is_dict item then Some (strs_field item ''contracts'') else None)"
    using Cons.prems by (simp add: workload_item_def)
  moreover have "matrix_rows cs listed = Inr r \<longleftrightarrow> rows_by_name cs doc (map fst listed) = Inr r" for r
    using Cons by simp
  ultimately show ?case
    by (auto simp: e contracts_for_workload_def closures_agree result_simps Let_def)
qed simp

lemma keys_of_sorted_items: "map fst (sorted_items d) = sort (map fst d)" for d :: "('k::linorder, 'v) dict"
  by (rule sym, rule properties_for_sort) (simp_all add: sorted_items_def)


definition demo_contracts :: "contract list" where
  "demo_contracts =
     [contract_of_doc (PDict [(''id'', PStr ''boot'')]),
      contract_of_doc (PDict [(''id'', PStr ''git''), (''prerequisites'', PList [PStr ''boot''])])]"


section \<open>Counting outcomes\<close>

lemma tally_counts:
  defines "C \<equiv> foldl (\<lambda>d x. bump x d) []"
  shows "distinct (map fst (C xs)) \<and> fst ` set (C xs) = set xs \<and> (\<forall>k. dict_get (C xs) k 0 = count_list xs k)"
proof (induction xs rule: rev_induct)
  case Nil
  then show ?case by (simp add: C_def dict_get_def)
next
  case (snoc x xs)
  have "C (xs @ [x]) = bump x (C xs)" by (simp add: C_def)
  with snoc show ?case
    by (auto simp: bump_def distinct_update dom_update dict_get_update)
qed

lemma most_common_counts:
  obtains ks where "most_common xs = map (\<lambda>k. (k, count_list xs k)) ks" "distinct ks" "set ks = set xs"
    "sorted_wrt (\<lambda>k l. count_list xs k \<ge> count_list xs l) ks"
proof -
  let ?C = "foldl (\<lambda>d x. bump x d) [] xs" and ?M = "most_common xs"
  note C = tally_counts [of xs]
  have M: "mset ?M = mset ?C" "sorted (map (\<lambda>(k, n). - int n) ?M)" by (simp_all add: most_common_def)
  have keys: "mset (map fst ?M) = mset (map fst ?C)" using M(1) by (metis mset_map)
  have "n = count_list xs k" if "(k, n) \<in> set ?M" for k n
  proof -
    from that have "(k, n) \<in> set ?C" using M(1) by (metis mset_eq_setD)
    with C have "dict_get ?C k 0 = n" by (simp add: dict_get_def)
    with C show ?thesis by simp
  qed
  then have "map (\<lambda>k. (k, count_list xs k)) (map fst ?M) = ?M"
    unfolding map_map by (intro map_idI) auto
  note eq = this [symmetric]
  show ?thesis
  proof (rule that [OF eq])
    show "distinct (map fst ?M)" using C keys by (metis distinct_count_atmost_1 mset_eq_imp_distinct_iff)
    show "set (map fst ?M) = set xs" using C keys by (metis mset_eq_setD set_map)
    show "sorted_wrt (\<lambda>k l. count_list xs k \<ge> count_list xs l) (map fst ?M)"
      using M(2) by (subst (asm) eq) (simp add: sorted_map o_def sorted_wrt_map)
  qed
qed

lemma count_list_map_inj: "inj_on f (insert v (set xs)) \<Longrightarrow> count_list (map f xs) (f v) = count_list xs v"
  by (induction xs) (auto simp: inj_on_def)

text \<open>
  The summary of repeated observations is exact: when the values of the trials survive the round trip
  through their JSON texts, \<open>stabilize.py\<close> reports each distinct normalized outcome once, with the number of
  trials that have it, the most frequent first, and the counts add up to the number of trials.
\<close>

theorem stabilization_counts:
  assumes "map_result loads (filter (\<lambda>l. \<not> is_blank l) (text_lines False [] text)) = Inr rows"
    and "map_result (\<lambda>obs. py_get obs ''normalized'' obs) rows = Inr vs"
    and "\<forall>v\<in>set vs. loads (dumps v) = Inr v"
  shows "\<exists>ws. stabilize dumps loads text =
       Inr (PDict [(''schema_version'', PStr ''osbench.stabilization.v1''), (''trials'', p_nat (length rows)),
         (''distinct_outcomes'', p_nat (length ws)),
         (''outcomes'', PList (map (\<lambda>v. PDict [(''count'', p_nat (count_list vs v)), (''value'', v)]) ws))]) \<and>
     distinct ws \<and> set ws = set vs \<and> sorted_wrt (\<lambda>v w. count_list vs v \<ge> count_list vs w) ws \<and>
     sum_list (map (count_list vs) ws) = length rows"
proof -
  have sigs: "map_result (signature dumps) rows = Inr (map dumps vs)"
    using assms(2) unfolding map_result_iff by (simp add: list_all2_map2 signature_def list_all2_mono)
  have inj: "inj_on dumps (set vs)" using assms(3) by (metis inj_onI sum.inject(2))
  obtain ks where ks: "most_common (map dumps vs) = map (\<lambda>k. (k, count_list (map dumps vs) k)) ks" "distinct ks"
    "set ks = set (map dumps vs)" "sorted_wrt (\<lambda>k l. count_list (map dumps vs) k \<ge> count_list (map dumps vs) l) ks"
    by (rule most_common_counts)
  define ws where "ws = map (\<lambda>k. projr (loads k)) ks"
  have keys_of_ws: "ks = map dumps ws"
    unfolding ws_def map_map using ks(3) assms(3) by (intro sym [OF map_idI]) auto
  have ws: "set ws \<subseteq> set vs" unfolding ws_def using ks(3) assms(3) by auto
  have dist: "distinct ws" using ks(2) unfolding keys_of_ws by (simp add: distinct_map)
  have all: "set ws = set vs"
    using ks(3) inj ws unfolding keys_of_ws by (simp add: inj_on_image_eq_iff)
  have count: "count_list (map dumps vs) (dumps v) = count_list vs v" if "v \<in> set vs" for v
    using that inj by (simp add: count_list_map_inj insert_absorb)
  have order: "sorted_wrt (\<lambda>v w. count_list vs v \<ge> count_list vs w) ws"
    using ks(4) unfolding keys_of_ws sorted_wrt_map by (rule sorted_wrt_mono_rel [rotated]) (use all count in simp)
  have outs: "outcome_rows loads (most_common (map dumps vs)) =
      Inr (map (\<lambda>v. PDict [(''count'', p_nat (count_list vs v)), (''value'', v)]) ws)"
  proof -
    have "list_all2 (\<lambda>k r. rbind (loads (fst k)) (\<lambda>v. Inr (PDict [(''count'', p_nat (snd k)), (''value'', v)])) = Inr r)
      (most_common (map dumps vs)) (map (\<lambda>v. PDict [(''count'', p_nat (count_list vs v)), (''value'', v)]) ws)"
      unfolding ks(1) keys_of_ws using all assms(3) count by (auto simp: list_all2_map1 list_all2_map2 list.rel_map intro!: list.rel_refl_strong)
    then show ?thesis unfolding outcome_rows_def map_result_iff by (simp add: case_prod_beta)
  qed
  have "sum_list (map (count_list vs) ws) = sum (count_list vs) (set vs)"
    using dist by (simp add: sum_list_distinct_conv_sum_set all)
  also have "\<dots> = length vs" by (simp add: sum_count_set)
  also have "\<dots> = length rows" using assms(2) unfolding map_result_iff by (auto dest: list_all2_lengthD)
  finally have "sum_list (map (count_list vs) ws) = length rows" .
  moreover have "length (most_common (map dumps vs)) = length ws" by (simp add: ks(1) keys_of_ws)
  ultimately show ?thesis
    using dist all order assms(1) sigs outs by (intro exI [of _ ws]) (simp add: stabilize_def)
qed

definition demo_line :: "string \<Rightarrow> pv" where
  "demo_line s = PDict [(''value'', PStr s)]"

fun demo_text :: "pv \<Rightarrow> string" where
  "demo_text (PDict ((k, PStr s) # _)) = s"
| "demo_text _ = []"

theorem stabilization_counts_witness:
  "\<exists>ws. stabilize demo_text (\<lambda>s. Inr (demo_line s)) (''a'' @ [CHR 0x0A] @ ''b'' @ [CHR 0x0A] @ ''a'') =
       Inr (PDict [(''schema_version'', PStr ''osbench.stabilization.v1''), (''trials'', p_nat (length (map demo_line [''a'', ''b'', ''a'']))),
         (''distinct_outcomes'', p_nat (length ws)),
         (''outcomes'', PList (map (\<lambda>v. PDict [(''count'', p_nat (count_list (map demo_line [''a'', ''b'', ''a'']) v)),
            (''value'', v)]) ws))]) \<and> set ws = {demo_line ''a'', demo_line ''b''}"
proof -
  let ?rows = "map demo_line [''a'', ''b'', ''a'']"
  have a: "map_result (\<lambda>s. Inr (demo_line s)) (filter (\<lambda>l. \<not> is_blank l)
      (text_lines False [] (''a'' @ [CHR 0x0A] @ ''b'' @ [CHR 0x0A] @ ''a''))) = Inr ?rows"
    by (simp add: is_blank_def)
  have b: "map_result (\<lambda>obs. py_get obs ''normalized'' obs) ?rows = Inr ?rows" by (simp add: demo_line_def)
  have c: "\<forall>v\<in>set ?rows. Inr (demo_line (demo_text v)) = (Inr v :: pv result)" by (simp add: demo_line_def)
  show ?thesis
    by (rule exE [OF stabilization_counts [OF a b c]], elim conjE, rule exI, rule conjI, assumption) auto
qed

end
