(* ===== verification/Loading.thy ===== *)
theory Loading
  imports Cli
begin

text \<open>
  What a process keeps between calls: the two caches of \<open>contracts.py\<close>, and the public dataset that
  \<open>load_public_cases\<close> of \<open>oracle.py\<close> builds when it is missing. A disk gives the files of a corpus for a
  root, \<open>None\<close> being the root of the repository.
\<close>

section \<open>The cached corpus\<close>

record corpus_cache =
  cc_loaded :: "contract list option"
  cc_report :: "report option"

definition cold :: corpus_cache where
  "cold = \<lparr>cc_loaded = None, cc_report = None\<rparr>"

text \<open>\<open>lru_cache\<close> on a function without arguments: a value is kept, an exception is not.\<close>

definition remember :: "('c \<Rightarrow> 'a option) \<Rightarrow> ('a \<Rightarrow> 'c \<Rightarrow> 'c) \<Rightarrow> 'a result \<Rightarrow> 'c \<Rightarrow> 'a result \<times> 'c" where
  "remember get put now c =
     (case get c of
        Some a \<Rightarrow> (Inr a, c)
      | None \<Rightarrow> (case now of Inl e \<Rightarrow> (Inl e, c) | Inr a \<Rightarrow> (Inr a, put a c)))"

type_synonym disk_files = "string option \<Rightarrow> (string \<times> pv result) list"

definition load_corpus :: "disk_files \<Rightarrow> string option \<Rightarrow> corpus_cache \<Rightarrow> contract list result \<times> corpus_cache" where
  "load_corpus disk base_dir c =
     (if base_dir = None then remember cc_loaded (\<lambda>v c. c\<lparr>cc_loaded := Some v\<rparr>) (load_contracts (disk None)) c
      else (load_contracts (disk base_dir), c))"

definition validate_corpus ::
  "nat \<Rightarrow> (pv \<Rightarrow> schema_error list) \<Rightarrow> disk_files \<Rightarrow> string option \<Rightarrow> corpus_cache \<Rightarrow> report result \<times> corpus_cache" where
  "validate_corpus limit iter_errors disk base_dir c =
     (if base_dir = None
      then remember cc_report (\<lambda>r c. c\<lparr>cc_report := Some r\<rparr>) (validate_contracts limit iter_errors (disk None)) c
      else (validate_contracts limit iter_errors (disk base_dir), c))"

datatype corpus_call = Load "string option" | Validate "string option"

datatype corpus_answer = Loaded "contract list result" | Validated "report result"

fun answer_call ::
  "nat \<Rightarrow> (pv \<Rightarrow> schema_error list) \<Rightarrow> disk_files \<Rightarrow> corpus_call \<Rightarrow> corpus_cache \<Rightarrow> corpus_answer \<times> corpus_cache" where
  "answer_call limit ie disk (Load base_dir) c = (case load_corpus disk base_dir c of (r, d) \<Rightarrow> (Loaded r, d))"
| "answer_call limit ie disk (Validate base_dir) c = (case validate_corpus limit ie disk base_dir c of (r, d) \<Rightarrow> (Validated r, d))"

text \<open>The calls of a process, each with the disk that it finds.\<close>

fun answer_calls ::
  "nat \<Rightarrow> (pv \<Rightarrow> schema_error list) \<Rightarrow> (disk_files \<times> corpus_call) list \<Rightarrow> corpus_cache \<Rightarrow> corpus_answer list" where
  "answer_calls limit ie [] c = []"
| "answer_calls limit ie ((disk, k) # ks) c =
     (case answer_call limit ie disk k c of (a, d) \<Rightarrow> a # answer_calls limit ie ks d)"

fun uncached :: "nat \<Rightarrow> (pv \<Rightarrow> schema_error list) \<Rightarrow> disk_files \<Rightarrow> corpus_call \<Rightarrow> corpus_answer" where
  "uncached limit ie disk (Load base_dir) = Loaded (load_contracts (disk base_dir))"
| "uncached limit ie disk (Validate base_dir) = Validated (validate_contracts limit ie (disk base_dir))"

definition coherent :: "nat \<Rightarrow> (pv \<Rightarrow> schema_error list) \<Rightarrow> disk_files \<Rightarrow> corpus_cache \<Rightarrow> bool" where
  "coherent limit ie disk c \<longleftrightarrow>
     (\<forall>v. cc_loaded c = Some v \<longrightarrow> load_contracts (disk None) = Inr v) \<and>
     (\<forall>r. cc_report c = Some r \<longrightarrow> validate_contracts limit ie (disk None) = Inr r)"

lemma answer_call_coherent:
  assumes "coherent limit ie disk c"
  shows "\<exists>d. answer_call limit ie disk k c = (uncached limit ie disk k, d) \<and> coherent limit ie disk d"
  using assms
  by (cases k) (auto simp: load_corpus_def validate_corpus_def remember_def coherent_def split: option.splits sum.splits)

text \<open>
  The caches are not visible: while the files do not change, every call of a process answers what it
  would answer without a cache, errors included.
\<close>

theorem cache_transparent:
  "answer_calls limit ie (map (Pair disk) ks) cold = map (uncached limit ie disk) ks"
proof -
  have "answer_calls limit ie (map (Pair disk) ks) c = map (uncached limit ie disk) ks" if "coherent limit ie disk c" for c
    using that
  proof (induction ks arbitrary: c)
    case (Cons k ks)
    from answer_call_coherent [OF Cons.prems] obtain d where
      "answer_call limit ie disk k c = (uncached limit ie disk k, d)" "coherent limit ie disk d" by blast
    with Cons.IH show ?case by simp
  qed simp
  then show ?thesis by (simp add: coherent_def cold_def)
qed

text \<open>
  When the files change under a process, the corpus that it validates is the one it has seen first,
  while the digest of \<open>contract_corpus_sha256\<close> is that of the new files.
\<close>

lemma report_is_kept:
  assumes "validate_corpus limit ie disk None c = (Inr r, d)"
  shows "validate_corpus limit ie disk' None d = (Inr r, d)"
  using assms by (auto simp: validate_corpus_def remember_def split: option.splits sum.splits)

section \<open>The public dataset\<close>

definition load_public_cases :: "'g dataset_inputs \<Rightarrow> dataset_files \<Rightarrow> pv list result \<times> dataset_files" where
  "load_public_cases i files =
     (case ds_rows files of
        Some rows \<Rightarrow> (Inr rows, files)
      | None \<Rightarrow>
          (case build_from i ''public'' 1 10 files of
             (Inl e, built) \<Rightarrow> (Inl e, built)
           | (Inr _, built) \<Rightarrow> (case ds_rows built of Some rows \<Rightarrow> (Inr rows, built) | None \<Rightarrow> (Inl (FileNotFoundError (di_path i ''public'')), built))))"

text \<open>
  A dataset that was loaded stays: the next load gives the same rows and builds nothing. A build that
  fails before its rows are written leaves the dataset missing.
\<close>

lemma load_public_cases_twice:
  assumes "load_public_cases i files = (Inr rows, built)"
  shows "load_public_cases j built = (Inr rows, built)"
  using assms by (auto simp: load_public_cases_def split: option.splits prod.splits sum.splits)

lemma load_public_cases_total:
  assumes "build_from i ''public'' 1 10 files = (Inr m, built)" and "ds_rows files = None"
  shows "\<exists>rows. load_public_cases i files = (Inr rows, built) \<and> ds_rows built = Some rows \<and> ds_manifest built = Some m"
  using assms
  by (auto simp: load_public_cases_def build_from_def build_dataset_def Let_def split: sum.splits prod.splits)

end
