(* ===== verification/Spec2Isabelle.thy ===== *)
theory Spec2Isabelle
  imports GraphFacts TopologyFacts FullSelftest Minimization CalibrationFacts Preflight BootstrapFacts Trajectory AtomicFiles SourceLock Payload LockCounter Oci Inventory Agent LocalProbes CliFacts Tools Loading
begin

text \<open>
  A verification development for OSBench, a benchmark that decides whether a candidate operating
  system behaves like a pinned Debian reference. The Python package under \<open>src/osbench\<close> loads a
  corpus of Contracts (one observable behaviour each, with prerequisites), generates test cases for
  them, executes every case on a reference target and on a candidate target (the host, or a QEMU
  machine with a guest agent), normalizes and compares the two observations, scores the verdicts
  and writes result documents that can be split over shards and merged. Around it are the programs
  that build the corpus, the guest payload and the reference system, and the command line.

  \<^bold>\<open>Theories and sources.\<close> In the order in which they depend on each other:

  \<^item> \<open>Prelude\<close>, \<open>PyValue\<close>, \<open>Effects\<close>: Python exceptions and fallible results (\<open>rbind\<close>), ordered
    dictionaries, dynamically typed values with Python's equality, and state-passing computations
    with \<open>try\<close>, \<open>except\<close> and \<open>finally\<close> and a calculus of triples for them. \<open>Constants\<close> is
    \<open>constants.py\<close>.
  \<^item> \<open>CycleCheck\<close>, \<open>Contracts\<close>, \<open>Loading\<close>: \<open>contracts.py\<close>. A Contract document is a record; loading,
    the schema and reference checks, the depth-first cycle search and the statistics follow the code
    branch by branch. Main fact: the validator accepts exactly the well-formed corpora. \<open>Loading\<close> has
    the caches, which are not visible while the files do not change.
  \<^item> \<open>Bootstrap\<close>, \<open>BootstrapFacts\<close>: \<open>tools/bootstrap_contracts.py\<close>, which generates the corpus from a
    catalog: the prerequisites, the loop that tops their number up, the documents and the files. The
    generated corpus is valid; the loop returns on a large catalog and never on a small one.
  \<^item> \<open>Graph\<close>, \<open>GraphFacts\<close>, \<open>TopologyFacts\<close>: \<open>graph.py\<close>. Closures compute reachability, both
    directions agree, a valid corpus has a topological order and a non-empty frontier until
    everything has passed.
  \<^item> \<open>Comparators\<close>, \<open>Normalization\<close>, \<open>Observations\<close>: \<open>comparators.py\<close>, \<open>normalization.py\<close> and
    \<open>_compare_observations\<close>. Comparison fails closed; declared nondeterminism does not fail a case.
  \<^item> \<open>Selection\<close>: the case selection and the aggregation of \<open>oracle.py\<close>; shards partition the cases.
  \<^item> \<open>Targets\<close>, \<open>Evaluation\<close>, \<open>EvaluationFacts\<close>, \<open>RunFacts\<close>, \<open>Completion\<close>, \<open>Evaluate\<close>: \<open>targets.py\<close>
    and \<open>evaluate\<close> of \<open>oracle.py\<close> as a computation on a run state (position, observations, progress
    rows, journal, state file, query count, both targets). The journal follows a protocol
    (\<open>journal_step\<close>), the books balance, a failure is recorded before it is raised again, and the
    targets are closed.
  \<^item> \<open>Scoring\<close>, \<open>ScoringFacts\<close>: \<open>scoring.py\<close>; ranges, meaning of one and zero, monotonicity.
  \<^item> \<open>Results\<close>, \<open>ResultsFacts\<close>, \<open>FullSelftest\<close>: \<open>results.py\<close>, \<open>full_selftest.py\<close>: what is written
    validates, merging loses no case, and the shards of a self-test cover the dataset.
  \<^item> \<open>Dataset\<close>, \<open>DatasetFacts\<close>: \<open>generators.py\<close>, \<open>dataset.py\<close>: generation keeps its bounds and a
    built dataset is accepted by the validator and by the evaluator.
  \<^item> \<open>Perturbations\<close>, \<open>Minimization\<close>: \<open>perturbations.py\<close>, \<open>minimization.py\<close> and the two scripts of
    \<open>tools/minimization\<close>.
  \<^item> \<open>Qemu\<close>, \<open>QemuFacts\<close>: \<open>qemu.py\<close>: profiles, the command line, one machine's lifecycle, the serial
    console, the guest agent's answers and the monitor.
  \<^item> \<open>Calibration\<close>, \<open>CalibrationFacts\<close>, \<open>Preflight\<close>, \<open>ReferenceTools\<close>: \<open>reference.py\<close>: the calibration
    of legal crash outcomes, the realized lock, the readiness report, and the functions that call the
    building scripts and read what they leave.
  \<^item> \<open>Trajectory\<close>: \<open>trajectory.py\<close>; what is recorded is what is summarized.
  \<^item> \<open>AtomicFiles\<close>: the writing of files in \<open>util.py\<close>, system call by system call; each may be refused,
    and the file is at every moment the old or the new one.
  \<^item> \<open>Trees\<close>, \<open>SourceLock\<close>, \<open>Payload\<close>, \<open>Oci\<close>, \<open>Inventory\<close>, \<open>Tracing\<close>: trees of files and their digest
    (\<open>util.py\<close>), \<open>source_lock.py\<close>, \<open>payload.py\<close>, \<open>oci.py\<close>, \<open>inventory.py\<close>, \<open>tracing.py\<close>. A lock that was
    synchronized checks, a staged payload validates, and the digests of an image layout resolve.
  \<^item> \<open>LockCounter\<close>: the concurrency probe as threads that take single steps; the counter is exact under
    every scheduler.
  \<^item> \<open>Posix\<close>, \<open>Probes\<close>, \<open>ProbeFacts\<close>, \<open>LocalProbes\<close>, \<open>Agent\<close>: \<open>probes.py\<close>, \<open>probe_worker.py\<close>,
    \<open>local_probes.py\<close> and the guest agent \<open>reference/guest/osbench_agent.py\<close> over a small operating
    system (a temporary directory with inodes, descriptors, a pipe, a mapping, processes). A probe
    always answers; healthy hosts agree; a case makes the round trip through the serial line.
  \<^item> \<open>Cli\<close>, \<open>CliFacts\<close>: \<open>cli.py\<close> and \<open>doctor.py\<close>: the commands over all of the above, what they show
    and their exit status.
  \<^item> \<open>Tools\<close>: \<open>paths.py\<close> and the scripts of \<open>tools/contract_discovery\<close> and \<open>tools/coverage\<close>, and the
    package index of \<open>workloads/packages\<close>.

  \<^bold>\<open>Interfaces.\<close> The locales are \<open>adjacency_lists\<close> and \<open>two_way_adjacency\<close> (what the closure
  algorithms need of a graph), \<open>sharding\<close> (a case has one shard), \<open>evaluation_target\<close> (what the
  evaluator needs of a target), \<open>chunking\<close> (what delta debugging needs of a chunk size),
  \<open>tree_digest\<close> (what a lock needs of the digest of a tree) and \<open>answer_relation\<close> (what a probe may do
  to the fields of its answer); each is interpreted on the model's own definitions.

  \<^bold>\<open>Conventions.\<close> Exceptions are values of \<open>exn\<close>, and messages that Python composes are kept where the
  code composes them. Characters have code points up to 255. A \<open>float\<close> is a real number; its text
  form, its parsing, SHA-256, the JSON and YAML texts of a document and base64 are arguments of the
  functions that use them, and so is what an external program (\<open>strace\<close>, \<open>xorriso\<close>, \<open>dpkg\<close>, the
  building scripts) returns and leaves. The schema library is an argument that returns the errors of a
  value. Time is left out, except for the clock readings that an observation contains; a loop that
  polls until a deadline gets the finite list of what its passes observe, so the end of the list is
  the deadline. A system call that may fail reads its fate from a script in the state, and the
  properties hold for every script unless they say otherwise.

  \<^bold>\<open>Bounds.\<close> The recursion limit of Python is an argument of the validator: the cycle search raises when
  the depth exceeds it, and the properties ask for a limit above the number of Contracts, which bounds
  the depth. The loop of \<open>bootstrap_contracts.py\<close> that may run for ever is a partial function: it is
  proved to return on every catalog of at least 130 items and not to return on one of at most 32. The
  threads of the concurrency probe run under an arbitrary scheduler, which in every state prefers some
  of those that can move. Every other loop is a total function whose measure is the one that makes the code stop.

  \<^bold>\<open>Not modelled.\<close> The table \<open>syscalls.py\<close>, which nothing reads; the command \<open>shell\<close>, which becomes
  another program; the parsing of options and the layout of shown JSON; the sockets of \<open>qemu.py\<close>
  beyond what they deliver; run ids, times and the progress line on \<open>stderr\<close> of an evaluation;
  permissions and times of copied files; the shell scripts that build the reference system; and the
  small programs of \<open>probes\<close> and \<open>workloads\<close> that run in the machine under test, other than the
  concurrency probe and the package index.
\<close>

end
